(* ===== verification/Prelude.thy ===== *)
theory Prelude
  imports Main "HOL-Library.Word"
begin

text \<open>
  The vocabulary shared by every component of the development.

  \<^item> Go's byte slices are lists of 8-bit words, Go's strings are HOL strings (lists of
    8-bit characters), a Go \<open>error\<close> is its message.
  \<^item> A call that may hit a run-time panic (a slice out of range, a nil dereference, an
    explicit \<open>panic\<close>) returns \<open>Panic\<close> or \<open>Ret\<close>; a call that returns a Go
    \<open>(value, error)\<close> pair returns \<open>Inl\<close> of the error or \<open>Inr\<close> of the value.
  \<^item> A Go map is a partial function. A \<open>range\<close> loop over it visits the entries in an
    order the language leaves open: every definition with such a loop takes the visiting
    order as an argument, and \<open>enumerates\<close> says that a list is one of the orders the
    run-time may choose.

  The theory also holds the generic lemmas on lists, options, maps and words that the
  component theories use, and the collections they are declared into.
\<close>

unbundle bit_operations_syntax

subsection \<open>Types\<close>

type_synonym byte = "8 word"
type_synonym bytes = "8 word list"
type_synonym gerror = string
type_synonym 'a result = "gerror + 'a"

datatype 'a exec = Panic | Ret 'a

subsection \<open>Collections of rewrite rules\<close>

named_theorems codec_simps "fixed-width integer encodings and their lengths"
named_theorems text_simps "printing and parsing of Go values"
named_theorems map_simps "Go maps and their enumerations"

subsection \<open>Outcomes that may panic\<close>

definition bind_exec :: "'a exec \<Rightarrow> ('a \<Rightarrow> 'b exec) \<Rightarrow> 'b exec" where
  "bind_exec x f = (case x of Panic \<Rightarrow> Panic | Ret a \<Rightarrow> f a)"

lemma bind_exec_simps [simp]:
  "bind_exec Panic f = Panic"
  "bind_exec (Ret a) f = f a"
  by (simp_all add: bind_exec_def)

lemma bind_exec_eq_Ret:
  "bind_exec x f = Ret b \<longleftrightarrow> (\<exists>a. x = Ret a \<and> f a = Ret b)"
  by (cases x) auto

lemma bind_exec_eq_Panic:
  "bind_exec x f = Panic \<longleftrightarrow> x = Panic \<or> (\<exists>a. x = Ret a \<and> f a = Panic)"
  by (cases x) auto

subsection \<open>Go maps and the order of a range loop\<close>

definition enumerates :: "('k \<times> 'v) list \<Rightarrow> ('k \<rightharpoonup> 'v) \<Rightarrow> bool" where
  "enumerates es m \<longleftrightarrow> distinct (map fst es) \<and> map_of es = m"

lemma enumerates_Nil [map_simps, simp]: "enumerates [] m \<longleftrightarrow> m = Map.empty"
  by (auto simp: enumerates_def)

lemma enumerates_in_set:
  "enumerates es m \<Longrightarrow> (k, v) \<in> set es \<longleftrightarrow> m k = Some v"
  by (auto simp: enumerates_def)

lemma enumerates_dom: "enumerates es m \<Longrightarrow> dom m = fst ` set es"
  unfolding enumerates_def by (metis dom_map_of_conv_image_fst)

lemma enumerates_distinct: "enumerates es m \<Longrightarrow> distinct es"
  by (auto simp: enumerates_def distinct_map)

lemma enumerates_finite: "enumerates es m \<Longrightarrow> finite (dom m)"
  by (simp add: enumerates_dom)

lemma enumerates_exists:
  assumes "finite (dom m)"
  shows "\<exists>es. enumerates es m"
proof -
  obtain ks where ks: "set ks = dom m" "distinct ks"
    using finite_distinct_list [OF assms] by blast
  have eq: "map fst (map (\<lambda>k. (k, the (m k))) ks) = ks"
    by (simp add: comp_def)
  have "map_of (map (\<lambda>k. (k, the (m k))) ks) = m"
    using ks by (auto simp: fun_eq_iff map_of_map_restrict restrict_map_def domIff)
  then have "enumerates (map (\<lambda>k. (k, the (m k))) ks) m"
    using ks eq unfolding enumerates_def by metis
  then show ?thesis by blast
qed

lemma enumerates_Cons:
  "enumerates ((k, v) # es) m \<longleftrightarrow> m k = Some v \<and> enumerates es (m(k := None))"
proof
  assume "enumerates ((k, v) # es) m"
  then have k: "k \<notin> fst ` set es" and d: "distinct (map fst es)"
    and m: "m = (map_of es)(k \<mapsto> v)"
    by (auto simp: enumerates_def)
  have "(map_of es) k = None"
    using k by (simp add: map_of_eq_None_iff)
  then have "m(k := None) = map_of es"
    using m by (auto simp: fun_eq_iff)
  then show "m k = Some v \<and> enumerates es (m(k := None))"
    using m d by (simp add: enumerates_def)
next
  assume a: "m k = Some v \<and> enumerates es (m(k := None))"
  then have d: "distinct (map fst es)" and e: "map_of es = m(k := None)"
    by (auto simp: enumerates_def)
  have "k \<notin> fst ` set es"
    using e by (metis fun_upd_same map_of_eq_None_iff)
  moreover have "map_of ((k, v) # es) = m"
    using a e by (auto simp: fun_eq_iff)
  ultimately show "enumerates ((k, v) # es) m"
    using d by (simp add: enumerates_def)
qed

lemma enumerates_filter:
  assumes "enumerates es m"
  shows "enumerates (filter (\<lambda>(k, v). P k v) es)
    (\<lambda>k. case m k of None \<Rightarrow> None | Some v \<Rightarrow> if P k v then Some v else None)"
proof -
  have d: "distinct (map fst (filter (\<lambda>(k, v). P k v) es))"
    using assms by (simp add: enumerates_def distinct_map_filter)
  have "map_of (filter (\<lambda>(k, v). P k v) es) k =
      (case m k of None \<Rightarrow> None | Some v \<Rightarrow> if P k v then Some v else None)" for k
  proof (cases "m k")
    case None
    then have "k \<notin> fst ` set es"
      using assms by (metis enumerates_def map_of_eq_None_iff)
    then have "k \<notin> fst ` set (filter (\<lambda>(k, v). P k v) es)" by auto
    then show ?thesis using None by (simp add: map_of_eq_None_iff)
  next
    case (Some v)
    then have in_es: "(k, v) \<in> set es"
      using assms by (simp add: enumerates_in_set)
    have uniq: "(k, v') \<in> set es \<Longrightarrow> v' = v" for v'
      using assms Some by (simp add: enumerates_in_set)
    show ?thesis
    proof (cases "P k v")
      case True
      then have "map_of (filter (\<lambda>(k, v). P k v) es) k = Some v"
        using d in_es by simp
      then show ?thesis using Some True by simp
    next
      case False
      then have "k \<notin> fst ` set (filter (\<lambda>(k, v). P k v) es)"
        using uniq by auto
      then show ?thesis using Some False by (simp add: map_of_eq_None_iff)
    qed
  qed
  then show ?thesis using d by (auto simp: enumerates_def)
qed

subsection \<open>Lists\<close>

lemma take_drop_append_exact [simp]:
  "length xs = n \<Longrightarrow> take n (xs @ ys) = xs"
  "length xs = n \<Longrightarrow> drop n (xs @ ys) = ys"
  by auto

lemma length_4_iff: "length xs = 4 \<longleftrightarrow> (\<exists>a b c d. xs = [a, b, c, d])"
proof
  assume "length xs = 4"
  then show "\<exists>a b c d. xs = [a, b, c, d]"
    by (auto simp: numeral_eq_Suc length_Suc_conv)
qed auto

lemma length_6_iff: "length xs = 6 \<longleftrightarrow> (\<exists>a b c d e f. xs = [a, b, c, d, e, f])"
proof
  assume "length xs = 6"
  then show "\<exists>a b c d e f. xs = [a, b, c, d, e, f]"
    by (auto simp: numeral_eq_Suc length_Suc_conv)
qed auto

lemma find_Some_in_set: "List.find P xs = Some x \<Longrightarrow> x \<in> set xs \<and> P x"
  by (auto simp: find_Some_iff)

lemma find_None_all: "List.find P xs = None \<longleftrightarrow> (\<forall>x \<in> set xs. \<not> P x)"
  by (auto simp: find_None_iff)

end
