(* ===== verification/GoStrings.thy ===== *)
theory GoStrings
  imports Prelude
begin

text \<open>
  The parts of Go's \<open>strings\<close> and \<open>strconv\<close> packages that the program calls:
  prefixes and suffixes, splitting at a one-character separator, decimal printing and the
  decimal, boolean and hexadecimal parsers, each with the checks of the standard library
  (signs, empty input, 64-bit range). The lemmas are the round trip of decimal printing and
  parsing and the laws of \<open>Split\<close>.
\<close>

subsection \<open>strings\<close>

definition HasPrefix :: "string \<Rightarrow> string \<Rightarrow> bool" where
  "HasPrefix s p \<longleftrightarrow> length p \<le> length s \<and> take (length p) s = p"

definition HasSuffix :: "string \<Rightarrow> string \<Rightarrow> bool" where
  "HasSuffix s p \<longleftrightarrow> length p \<le> length s \<and> drop (length s - length p) s = p"

definition TrimPrefix :: "string \<Rightarrow> string \<Rightarrow> string" where
  "TrimPrefix s p = (if HasPrefix s p then drop (length p) s else s)"

definition TrimSuffix :: "string \<Rightarrow> string \<Rightarrow> string" where
  "TrimSuffix s p = (if HasSuffix s p then take (length s - length p) s else s)"

text \<open>\<open>strings.Split\<close> with a separator of one character, the only kind the program uses.\<close>

fun Split :: "string \<Rightarrow> char \<Rightarrow> string list" where
  "Split [] sep = [[]]"
| "Split (c # s) sep =
     (if c = sep then [] # Split s sep
      else (case Split s sep of [] \<Rightarrow> [[c]] | w # ws \<Rightarrow> (c # w) # ws))"

fun Contains :: "string \<Rightarrow> string \<Rightarrow> bool" where
  "Contains [] sub = (sub = [])"
| "Contains (c # s) sub = (HasPrefix (c # s) sub \<or> Contains s sub)"

fun IndexByte :: "string \<Rightarrow> char \<Rightarrow> nat option" where
  "IndexByte [] c = None"
| "IndexByte (x # s) c = (if x = c then Some 0 else map_option Suc (IndexByte s c))"

text \<open>\<open>strings.TrimSpace\<close> on ASCII input.\<close>

definition is_space :: "char \<Rightarrow> bool" where
  "is_space c \<longleftrightarrow> c \<in> {CHR '' '', CHR 0x09, CHR 0x0A, CHR 0x0B, CHR 0x0C, CHR 0x0D}"

definition TrimSpace :: "string \<Rightarrow> string" where
  "TrimSpace s = rev (dropWhile is_space (rev (dropWhile is_space s)))"

lemma HasPrefix_append [simp]: "HasPrefix (p @ s) p"
  by (simp add: HasPrefix_def)

lemma HasPrefix_iff: "HasPrefix s p \<longleftrightarrow> (\<exists>r. s = p @ r)"
  by (metis HasPrefix_append HasPrefix_def append_take_drop_id)

lemma HasSuffix_append [simp]: "HasSuffix (s @ p) p"
  by (simp add: HasSuffix_def)

lemma HasSuffix_iff: "HasSuffix s p \<longleftrightarrow> (\<exists>r. s = r @ p)"
  by (metis HasSuffix_append HasSuffix_def append_take_drop_id)

lemma TrimPrefix_append [simp]: "TrimPrefix (p @ s) p = s"
  by (simp add: TrimPrefix_def)

lemma TrimSuffix_append [simp]: "TrimSuffix (s @ p) p = s"
  by (simp add: TrimSuffix_def)

lemma Split_not_Nil [simp]: "Split s sep \<noteq> []"
  by (cases s) (auto split: list.splits)

lemma Split_no_sep [text_simps]: "sep \<notin> set s \<Longrightarrow> Split s sep = [s]"
  by (induction s) auto

lemma Split_append_sep [text_simps]:
  "sep \<notin> set s \<Longrightarrow> Split (s @ sep # t) sep = s # Split t sep"
  by (induction s) auto

lemma Split_elems_no_sep: "w \<in> set (Split s sep) \<Longrightarrow> sep \<notin> set w"
proof (induction s arbitrary: w)
  case (Cons c s)
  then show ?case by (cases "Split s sep") (auto split: if_splits)
qed simp

lemma Split_eq_2D:
  "Split s sep = [a, b] \<Longrightarrow> s = a @ sep # b \<and> sep \<notin> set a \<and> sep \<notin> set b"
proof (induction s arbitrary: a)
  case (Cons c s)
  show ?case
  proof (cases "c = sep")
    case True
    then have "a = []" and b: "Split s sep = [b]" using Cons.prems by auto
    have nb: "sep \<notin> set b" using b Split_elems_no_sep [of b s sep] by simp
    have "s = b"
    proof (cases "sep \<in> set s")
      case True
      then obtain u v where "s = u @ sep # v" "sep \<notin> set u" by (meson split_list_first)
      then show ?thesis using b by (simp add: Split_append_sep)
    next
      case False
      then show ?thesis using b by (simp add: Split_no_sep)
    qed
    then show ?thesis using True \<open>a = []\<close> nb by simp
  next
    case False
    then obtain w where w: "Split s sep = [w, b]" "a = c # w"
      using Cons.prems by (auto split: list.splits)
    then show ?thesis using Cons.IH [OF w(1)] False by auto
  qed
qed simp

subsection \<open>Digits\<close>

definition digit_val :: "char \<Rightarrow> nat option" where
  "digit_val c = (let n = of_char c :: nat in if 48 \<le> n \<and> n \<le> 57 then Some (n - 48) else None)"

definition hex_val :: "char \<Rightarrow> nat option" where
  "hex_val c = (let n = of_char c :: nat in
     if 48 \<le> n \<and> n \<le> 57 then Some (n - 48)
     else if 97 \<le> n \<and> n \<le> 102 then Some (n - 87)
     else if 65 \<le> n \<and> n \<le> 70 then Some (n - 55) else None)"

definition digit_char :: "nat \<Rightarrow> char" where
  "digit_char d = char_of (48 + d)"

definition hex_char :: "nat \<Rightarrow> char" where
  "hex_char d = (if d < 10 then char_of (48 + d) else char_of (87 + d))"

lemma digit_val_digit_char [simp, text_simps]: "d < 10 \<Longrightarrow> digit_val (digit_char d) = Some d"
  by (simp add: digit_val_def digit_char_def Let_def)

lemma hex_val_hex_char [simp, text_simps]: "d < 16 \<Longrightarrow> hex_val (hex_char d) = Some d"
  by (simp add: hex_val_def hex_char_def Let_def)

lemma digit_val_bound: "digit_val c = Some d \<Longrightarrow> d < 10"
  by (auto simp: digit_val_def Let_def split: if_splits)

lemma hex_val_bound: "hex_val c = Some d \<Longrightarrow> d < 16"
  by (auto simp: hex_val_def Let_def split: if_splits)

lemma digit_val_None_simps [simp]:
  "digit_val (CHR ''.'') = None" "digit_val (CHR '':'') = None" "digit_val (CHR ''/'') = None"
  by (simp_all add: digit_val_def)

lemma digit_char_inj: "\<lbrakk>d < 10; e < 10; digit_char d = digit_char e\<rbrakk> \<Longrightarrow> d = e"
  by (metis digit_val_digit_char option.inject)

lemma digit_char_neq:
  assumes "d < 10" "digit_val c = None"
  shows "digit_char d \<noteq> c"
  using assms digit_val_digit_char by force

subsection \<open>Printing: strconv.Itoa and the verb d\<close>

fun itoa_nat :: "nat \<Rightarrow> string" where
  "itoa_nat n = (if n < 10 then [digit_char n]
     else itoa_nat (n div 10) @ [digit_char (n mod 10)])"

declare itoa_nat.simps [simp del]

definition Itoa :: "int \<Rightarrow> string" where
  "Itoa i = (if i < 0 then CHR ''-'' # itoa_nat (nat (- i)) else itoa_nat (nat i))"

lemma itoa_nat_not_Nil [simp]: "itoa_nat n \<noteq> []"
  by (subst itoa_nat.simps) simp

lemma itoa_nat_digits: "c \<in> set (itoa_nat n) \<Longrightarrow> digit_val c \<noteq> None"
proof (induction n rule: itoa_nat.induct)
  case (1 n)
  show ?case
  proof (cases "n < 10")
    case True
    then show ?thesis using "1.prems" by (simp add: itoa_nat.simps [of n])
  next
    case False
    then show ?thesis using 1 by (auto simp: itoa_nat.simps [of n])
  qed
qed

lemma itoa_nat_no_char: "digit_val c = None \<Longrightarrow> c \<notin> set (itoa_nat n)"
  using itoa_nat_digits by blast

lemma itoa_nat_hd_zero: "hd (itoa_nat n) = digit_char 0 \<Longrightarrow> n = 0"
proof (induction n rule: itoa_nat.induct)
  case (1 n)
  show ?case
  proof (cases "n < 10")
    case True
    then show ?thesis using "1.prems"
      by (simp add: itoa_nat.simps [of n]) (metis digit_char_inj zero_less_numeral)
  next
    case False
    then have "hd (itoa_nat (n div 10)) = digit_char 0"
      using "1.prems" by (simp add: itoa_nat.simps [of n] hd_append)
    then have "n div 10 = 0" using "1.IH" False by blast
    then show ?thesis using False by simp
  qed
qed

lemma length_itoa_nat_1: "length (itoa_nat n) = 1 \<longleftrightarrow> n < 10"
proof (cases "n < 10")
  case False
  then have "itoa_nat (n div 10) \<noteq> []" by simp
  then show ?thesis using False by (simp add: itoa_nat.simps [of n])
qed (simp add: itoa_nat.simps [of n])

subsection \<open>Parsing: strconv.Atoi, ParseUint and ParseBool\<close>

fun parse_digits :: "nat \<Rightarrow> string \<Rightarrow> nat option" where
  "parse_digits acc [] = Some acc"
| "parse_digits acc (c # s) =
     (case digit_val c of None \<Rightarrow> None | Some d \<Rightarrow> parse_digits (10 * acc + d) s)"

lemma parse_digits_append:
  "parse_digits acc (s @ t) =
     (case parse_digits acc s of None \<Rightarrow> None | Some n \<Rightarrow> parse_digits n t)"
  by (induction s arbitrary: acc) (auto split: option.splits)

lemma parse_digits_itoa [text_simps]: "parse_digits 0 (itoa_nat n) = Some n"
proof (induction n rule: itoa_nat.induct)
  case (1 n)
  show ?case
  proof (cases "n < 10")
    case True
    then show ?thesis by (simp add: itoa_nat.simps [of n])
  next
    case False
    then show ?thesis using 1
      by (simp add: itoa_nat.simps [of n] parse_digits_append)
  qed
qed

lemma itoa_nat_inj: "itoa_nat m = itoa_nat n \<Longrightarrow> m = n"
  by (metis option.inject parse_digits_itoa)

text \<open>
  \<open>strconv.Atoi\<close>: an optional sign, at least one digit, the range of a 64-bit \<open>int\<close>.
  (On the fast path and on the slow path the accepted inputs are the same.)
\<close>

definition quote :: "string \<Rightarrow> string" where
  "quote s = CHR 0x22 # s @ [CHR 0x22]"

definition num_error :: "string \<Rightarrow> string \<Rightarrow> string \<Rightarrow> gerror" where
  "num_error fn s msg = ''strconv.'' @ fn @ '': parsing '' @ quote s @ '': '' @ msg"

definition Atoi :: "string \<Rightarrow> int result" where
  "Atoi s =
     (let neg = (s \<noteq> [] \<and> hd s = CHR ''-'');
          body = (if s \<noteq> [] \<and> (hd s = CHR ''-'' \<or> hd s = CHR ''+'') then tl s else s)
      in if body = [] then Inl (num_error ''Atoi'' s ''invalid syntax'')
         else (case parse_digits 0 body of
             None \<Rightarrow> Inl (num_error ''Atoi'' s ''invalid syntax'')
           | Some n \<Rightarrow>
               if neg then
                 (if n \<le> 2 ^ 63 then Inr (- int n)
                  else Inl (num_error ''Atoi'' s ''value out of range''))
               else
                 (if n < 2 ^ 63 then Inr (int n)
                  else Inl (num_error ''Atoi'' s ''value out of range''))))"

text \<open>\<open>strconv.ParseUint\<close> in base 10: no sign, at least one digit, at most \<open>bits\<close> bits.\<close>

definition ParseUint :: "string \<Rightarrow> nat \<Rightarrow> nat result" where
  "ParseUint s bits =
     (if s = [] then Inl (num_error ''ParseUint'' s ''invalid syntax'')
      else (case parse_digits 0 s of
          None \<Rightarrow> Inl (num_error ''ParseUint'' s ''invalid syntax'')
        | Some n \<Rightarrow> if n < 2 ^ bits then Inr n
            else Inl (num_error ''ParseUint'' s ''value out of range'')))"

definition ParseBool :: "string \<Rightarrow> bool result" where
  "ParseBool s =
     (if s \<in> set [''1'', ''t'', ''T'', ''true'', ''TRUE'', ''True''] then Inr True
      else if s \<in> set [''0'', ''f'', ''F'', ''false'', ''FALSE'', ''False''] then Inr False
      else Inl (num_error ''ParseBool'' s ''invalid syntax''))"

lemma Atoi_itoa [text_simps]: "n < 2 ^ 63 \<Longrightarrow> Atoi (itoa_nat n) = Inr (int n)"
proof -
  assume n: "n < 2 ^ 63"
  obtain c t where ct: "itoa_nat n = c # t" by (meson itoa_nat_not_Nil neq_Nil_conv)
  then have "digit_val c \<noteq> None" using itoa_nat_digits [of c n] by simp
  then have "c \<noteq> CHR ''-''" "c \<noteq> CHR ''+''" by (auto simp: digit_val_def)
  then show ?thesis using n parse_digits_itoa [of n] ct by (simp add: Atoi_def)
qed

lemma Atoi_range: "Atoi s = Inr i \<Longrightarrow> - (2 ^ 63) \<le> i \<and> i < 2 ^ 63"
  by (auto simp: Atoi_def Let_def split: option.splits if_splits)

lemma ParseUint_bound: "ParseUint s bits = Inr n \<Longrightarrow> n < 2 ^ bits"
  by (auto simp: ParseUint_def split: option.splits if_splits)

lemma ParseUint_itoa [text_simps]: "n < 2 ^ bits \<Longrightarrow> ParseUint (itoa_nat n) bits = Inr n"
  by (simp add: ParseUint_def parse_digits_itoa)

end
