(* ===== verification/GoNet.thy ===== *)
theory GoNet
  imports GoStrings
begin

text \<open>
  The parts of Go's \<open>net\<close> and \<open>encoding/binary\<close> packages that the program calls:
  IP addresses with their two lengths and their text form, hardware addresses, CIDR
  notation, host-port pairs, and the fixed-width integer encodings. A \<open>net.IP\<close> is a byte
  list, \<open>nil\<close> the empty one; \<open>ParseIP\<close> returns 16 bytes for an IPv4 address, as the
  library does. The main lemmas are the round trips: an IPv4 address and a 6-byte hardware
  address are read back from what \<open>String\<close> prints.
\<close>

subsection \<open>encoding/binary\<close>

definition PutUint16_LE :: "16 word \<Rightarrow> bytes" where
  "PutUint16_LE w = [ucast w, ucast (drop_bit 8 w)]"

definition Uint16_LE :: "bytes \<Rightarrow> 16 word" where
  "Uint16_LE b = ucast (b ! 0) OR push_bit 8 (ucast (b ! 1))"

definition PutUint16_BE :: "16 word \<Rightarrow> bytes" where
  "PutUint16_BE w = [ucast (drop_bit 8 w), ucast w]"

definition Uint16_BE :: "bytes \<Rightarrow> 16 word" where
  "Uint16_BE b = push_bit 8 (ucast (b ! 0)) OR ucast (b ! 1)"

definition PutUint32_BE :: "32 word \<Rightarrow> bytes" where
  "PutUint32_BE w = [ucast (drop_bit 24 w), ucast (drop_bit 16 w), ucast (drop_bit 8 w), ucast w]"

definition Uint32_BE :: "bytes \<Rightarrow> 32 word" where
  "Uint32_BE b = push_bit 24 (ucast (b ! 0)) OR push_bit 16 (ucast (b ! 1))
     OR push_bit 8 (ucast (b ! 2)) OR ucast (b ! 3)"

definition Uint64_BE :: "bytes \<Rightarrow> 64 word" where
  "Uint64_BE b = push_bit 56 (ucast (b ! 0)) OR push_bit 48 (ucast (b ! 1))
     OR push_bit 40 (ucast (b ! 2)) OR push_bit 32 (ucast (b ! 3))
     OR push_bit 24 (ucast (b ! 4)) OR push_bit 16 (ucast (b ! 5))
     OR push_bit 8 (ucast (b ! 6)) OR ucast (b ! 7)"

lemma length_put [simp, codec_simps]:
  "length (PutUint16_LE w) = 2" "length (PutUint16_BE w) = 2" "length (PutUint32_BE v) = 4"
  by (simp_all add: PutUint16_LE_def PutUint16_BE_def PutUint32_BE_def)

lemma Uint16_LE_Put [codec_simps]: "Uint16_LE (PutUint16_LE w @ r) = w"
  by (rule bit_word_eqI) (auto simp: Uint16_LE_def PutUint16_LE_def bit_simps)

lemma Uint16_BE_Put [codec_simps]: "Uint16_BE (PutUint16_BE w @ r) = w"
  by (rule bit_word_eqI) (auto simp: Uint16_BE_def PutUint16_BE_def bit_simps)

lemma Uint32_BE_Put [codec_simps]: "Uint32_BE (PutUint32_BE w @ r) = w"
proof (rule bit_word_eqI)
  fix n assume "n < LENGTH(32)"
  then consider "n < 8" | "8 \<le> n" "n < 16" | "16 \<le> n" "n < 24" | "24 \<le> n" "n < 32"
    by fastforce
  then show "bit (Uint32_BE (PutUint32_BE w @ r)) n = bit w n"
    by cases (auto simp: Uint32_BE_def PutUint32_BE_def bit_simps)
qed

subsection \<open>net.IP\<close>

type_synonym ip = bytes

definition v4InV6Prefix :: bytes where
  "v4InV6Prefix = [0, 0, 0, 0, 0, 0, 0, 0, 0, 0, 255, 255]"

definition To4 :: "ip \<Rightarrow> ip" where
  "To4 i = (if length i = 4 then i
     else if length i = 16 \<and> take 12 i = v4InV6Prefix then drop 12 i else [])"

definition IP_Equal :: "ip \<Rightarrow> ip \<Rightarrow> bool" where
  "IP_Equal i x \<longleftrightarrow>
     (if length i = length x then i = x
      else if length i = 4 \<and> length x = 16 then take 12 x = v4InV6Prefix \<and> i = drop 12 x
      else if length i = 16 \<and> length x = 4 then take 12 i = v4InV6Prefix \<and> drop 12 i = x
      else False)"

lemma length_v4InV6Prefix [simp]: "length v4InV6Prefix = 12"
  by (simp add: v4InV6Prefix_def)

lemma To4_4 [simp]: "length i = 4 \<Longrightarrow> To4 i = i"
  by (simp add: To4_def)

lemma To4_mapped [simp]: "length p = 4 \<Longrightarrow> To4 (v4InV6Prefix @ p) = p"
  by (simp add: To4_def)

lemma To4_Nil [simp]: "To4 [] = []"
  by (simp add: To4_def)

lemma length_To4: "length (To4 i) = 4 \<or> To4 i = []"
  by (simp add: To4_def)

subsection \<open>Parsing addresses\<close>

text \<open>\<open>dtoi\<close> and \<open>xtoi\<close>: value and number of characters, \<open>None\<close> for no digit or overflow.\<close>

fun dtoi_loop :: "nat \<Rightarrow> nat \<Rightarrow> string \<Rightarrow> (nat \<times> nat) option" where
  "dtoi_loop n i [] = (if i = 0 then None else Some (n, i))"
| "dtoi_loop n i (c # s) = (case digit_val c of
      None \<Rightarrow> if i = 0 then None else Some (n, i)
    | Some d \<Rightarrow> if 10 * n + d \<ge> 0xFFFFFF then None else dtoi_loop (10 * n + d) (Suc i) s)"

definition dtoi :: "string \<Rightarrow> (nat \<times> nat) option" where
  "dtoi s = dtoi_loop 0 0 s"

fun xtoi_loop :: "nat \<Rightarrow> nat \<Rightarrow> string \<Rightarrow> (nat \<times> nat) option" where
  "xtoi_loop n i [] = (if i = 0 then None else Some (n, i))"
| "xtoi_loop n i (c # s) = (case hex_val c of
      None \<Rightarrow> if i = 0 then None else Some (n, i)
    | Some d \<Rightarrow> if 16 * n + d \<ge> 0xFFFFFF then None else xtoi_loop (16 * n + d) (Suc i) s)"

definition xtoi :: "string \<Rightarrow> (nat \<times> nat) option" where
  "xtoi s = xtoi_loop 0 0 s"

fun parseIPv4_loop :: "nat \<Rightarrow> bool \<Rightarrow> bytes \<Rightarrow> string \<Rightarrow> (bytes \<times> string) option" where
  "parseIPv4_loop 0 first p s = Some (p, s)"
| "parseIPv4_loop (Suc k) first p s =
     (if s = [] then None
      else if \<not> first \<and> hd s \<noteq> CHR ''.'' then None
      else let s1 = (if first then s else tl s) in
        (case dtoi s1 of None \<Rightarrow> None
         | Some (n, c) \<Rightarrow>
             if n > 255 then None
             else if c > 1 \<and> hd s1 = CHR ''0'' then None
             else parseIPv4_loop k False (p @ [of_nat n]) (drop c s1)))"

definition parseIPv4 :: "string \<Rightarrow> ip" where
  "parseIPv4 s = (case parseIPv4_loop 4 True [] s of
     Some (p, []) \<Rightarrow> v4InV6Prefix @ p
   | _ \<Rightarrow> [])"

fun parseIPv6_loop ::
  "nat \<Rightarrow> bytes \<Rightarrow> nat option \<Rightarrow> string \<Rightarrow> (bytes \<times> nat option \<times> string) option" where
  "parseIPv6_loop 0 p ell s = Some (p, ell, s)"
| "parseIPv6_loop (Suc k) p ell s =
     (case xtoi s of None \<Rightarrow> None
      | Some (n, c) \<Rightarrow>
          if n > 0xFFFF then None
          else if c < length s \<and> s ! c = CHR ''.'' then
            (if ell = None \<and> length p \<noteq> 12 then None
             else if length p + 4 > 16 then None
             else if parseIPv4 s = [] then None
             else Some (p @ drop 12 (parseIPv4 s), ell, []))
          else let p' = p @ [of_nat (n div 256), of_nat n]; s' = drop c s in
            if s' = [] then Some (p', ell, [])
            else if hd s' \<noteq> CHR '':'' \<or> length s' = 1 then None
            else let s2 = tl s' in
              if hd s2 = CHR '':'' then
                (if ell \<noteq> None then None
                 else if tl s2 = [] then Some (p', Some (length p'), [])
                 else parseIPv6_loop k p' (Some (length p')) (tl s2))
              else parseIPv6_loop k p' ell s2)"

definition parseIPv6 :: "string \<Rightarrow> ip" where
  "parseIPv6 s =
     (let lead = (length s \<ge> 2 \<and> take 2 s = ''::'');
          s0 = (if lead then drop 2 s else s)
      in if lead \<and> s0 = [] then replicate 16 0
         else (case parseIPv6_loop 8 [] (if lead then Some 0 else None) s0 of
             None \<Rightarrow> []
           | Some (p, ell, rest) \<Rightarrow>
               if rest \<noteq> [] then []
               else if length p < 16 then
                 (case ell of None \<Rightarrow> []
                  | Some e \<Rightarrow> take e p @ replicate (16 - length p) 0 @ drop e p)
               else if ell \<noteq> None then [] else p))"

fun first_dot_or_colon :: "string \<Rightarrow> char option" where
  "first_dot_or_colon [] = None"
| "first_dot_or_colon (c # s) =
     (if c = CHR ''.'' \<or> c = CHR '':'' then Some c else first_dot_or_colon s)"

definition ParseIP :: "string \<Rightarrow> ip" where
  "ParseIP s = (case first_dot_or_colon s of
     None \<Rightarrow> []
   | Some c \<Rightarrow> if c = CHR ''.'' then parseIPv4 s else parseIPv6 s)"

subsection \<open>Printing addresses\<close>

fun hex_nat :: "nat \<Rightarrow> string" where
  "hex_nat n = (if n < 16 then [hex_char n] else hex_nat (n div 16) @ [hex_char (n mod 16)])"

declare hex_nat.simps [simp del]

definition hex2 :: "byte \<Rightarrow> string" where
  "hex2 b = [hex_char (unat b div 16), hex_char (unat b mod 16)]"

fun join :: "string \<Rightarrow> string list \<Rightarrow> string" where
  "join sep [] = []"
| "join sep [w] = w"
| "join sep (w # ws) = w @ sep @ join sep ws"

fun groups16 :: "bytes \<Rightarrow> nat list" where
  "groups16 (a # b # r) = (256 * unat a + unat b) # groups16 r"
| "groups16 _ = []"

text \<open>Start and length of the longest run of zero groups, the first one on a tie.\<close>

fun best_run :: "nat \<Rightarrow> nat list \<Rightarrow> nat \<times> nat \<Rightarrow> nat \<times> nat" where
  "best_run i [] b = b"
| "best_run i (g # gs) b =
     (let r = length (takeWhile (\<lambda>x. x = 0) (g # gs))
      in best_run (Suc i) gs (if r > snd b then (i, r) else b))"

definition dotted :: "bytes \<Rightarrow> string" where
  "dotted p = join ''.'' (map (\<lambda>b. itoa_nat (unat b)) p)"

definition IP_String :: "ip \<Rightarrow> string" where
  "IP_String i =
     (if i = [] then ''<nil>''
      else if length i \<noteq> 4 \<and> length i \<noteq> 16 then CHR ''?'' # concat (map hex2 i)
      else if length (To4 i) = 4 then dotted (To4 i)
      else let gs = groups16 i; (e, l) = best_run 0 gs (0, 0) in
        if l \<le> 1 then join '':'' (map hex_nat gs)
        else join '':'' (map hex_nat (take e gs)) @ ''::'' @ join '':'' (map hex_nat (drop (e + l) gs)))"

lemma dotted_4: "dotted [a, b, c, d] = itoa_nat (unat a) @ CHR ''.'' # itoa_nat (unat b)
    @ CHR ''.'' # itoa_nat (unat c) @ CHR ''.'' # itoa_nat (unat d)"
  by (simp add: dotted_def)

lemma IP_String_4 [simp, text_simps]: "length p = 4 \<Longrightarrow> IP_String p = dotted p"
  by (auto simp: IP_String_def)

lemma IP_String_mapped [simp, text_simps]:
  "length p = 4 \<Longrightarrow> IP_String (v4InV6Prefix @ p) = dotted p"
  by (auto simp: IP_String_def)

lemma IP_String_To4: "length (To4 i) = 4 \<Longrightarrow> IP_String i = dotted (To4 i)"
  by (auto simp: IP_String_def To4_def split: if_splits)

subsection \<open>Round trip of IPv4 addresses\<close>

lemma parse_digits_mono: "parse_digits acc s = Some n \<Longrightarrow> acc \<le> n"
  by (induction s arbitrary: acc) (fastforce split: option.splits)+

lemma dtoi_loop_digits:
  assumes "parse_digits acc s = Some n" "n < 0xFFFFFF" "s \<noteq> [] \<or> i > 0"
    and "r = [] \<or> digit_val (hd r) = None"
  shows "dtoi_loop acc i (s @ r) = Some (n, i + length s)"
  using assms
proof (induction s arbitrary: acc i)
  case Nil
  then show ?case by (cases r) auto
next
  case (Cons c s)
  then obtain d where d: "digit_val c = Some d" and p: "parse_digits (10 * acc + d) s = Some n"
    by (auto split: option.splits)
  have "10 * acc + d \<le> n" using p by (rule parse_digits_mono)
  then show ?case using Cons.IH [OF p] Cons.prems d by simp
qed

lemma dtoi_itoa:
  assumes "n < 0xFFFFFF" "r = [] \<or> digit_val (hd r) = None"
  shows "dtoi (itoa_nat n @ r) = Some (n, length (itoa_nat n))"
  unfolding dtoi_def
  using dtoi_loop_digits [OF parse_digits_itoa [of n] assms(1) _ assms(2), where i = 0] by simp

lemma itoa_no_leading_zero:
  "\<not> (length (itoa_nat n) > 1 \<and> hd (itoa_nat n @ r) = CHR ''0'')"
proof -
  have z: "digit_char 0 = CHR ''0''" by code_simp
  have "n < 10" if "hd (itoa_nat n @ r) = CHR ''0''"
  proof -
    have "hd (itoa_nat n) = digit_char 0" using that z by (simp add: hd_append)
    then show ?thesis using itoa_nat_hd_zero by fastforce
  qed
  then show ?thesis using length_itoa_nat_1 [of n] by auto
qed

lemma parseIPv4_loop_octet:
  assumes "r = [] \<or> digit_val (hd r) = None"
  shows "parseIPv4_loop (Suc k) True p (itoa_nat (unat b) @ r) = parseIPv4_loop k False (p @ [b]) r"
    and "parseIPv4_loop (Suc k) False p (CHR ''.'' # itoa_nat (unat b) @ r)
       = parseIPv4_loop k False (p @ [b]) r"
proof -
  have "unat b < 256" using unsigned_less [of b, where ?'a = nat] by simp
  then have d: "dtoi (itoa_nat (unat b) @ r) = Some (unat b, length (itoa_nat (unat b)))"
    using dtoi_itoa assms by simp
  show "parseIPv4_loop (Suc k) True p (itoa_nat (unat b) @ r) = parseIPv4_loop k False (p @ [b]) r"
    using d \<open>unat b < 256\<close> itoa_no_leading_zero [of "unat b" r] by auto
  show "parseIPv4_loop (Suc k) False p (CHR ''.'' # itoa_nat (unat b) @ r)
       = parseIPv4_loop k False (p @ [b]) r"
    using d \<open>unat b < 256\<close> itoa_no_leading_zero [of "unat b" r] by auto
qed

lemma parseIPv4_dotted [text_simps]: "length p = 4 \<Longrightarrow> parseIPv4 (dotted p) = v4InV6Prefix @ p"
proof -
  assume "length p = 4"
  then obtain a b c d where p: "p = [a, b, c, d]" by (auto simp: length_4_iff)
  have "parseIPv4_loop (Suc (Suc (Suc (Suc 0)))) True [] (dotted p) = Some (p, [])"
    using parseIPv4_loop_octet(2) [of "[]", unfolded append_Nil2]
    by (simp add: p dotted_4 parseIPv4_loop_octet del: parseIPv4_loop.simps(2))
  then show ?thesis by (simp add: parseIPv4_def numeral_eq_Suc)
qed

lemma first_dot_or_colon_digits:
  "\<forall>c \<in> set s. digit_val c \<noteq> None \<Longrightarrow> first_dot_or_colon (s @ CHR ''.'' # t) = Some (CHR ''.'')"
  by (induction s) auto

lemma ParseIP_dotted [text_simps, simp]: "length p = 4 \<Longrightarrow> ParseIP (dotted p) = v4InV6Prefix @ p"
proof -
  assume p: "length p = 4"
  then obtain a b c d where "p = [a, b, c, d]" by (auto simp: length_4_iff)
  then have "first_dot_or_colon (dotted p) = Some (CHR ''.'')"
    using itoa_nat_digits by (simp add: dotted_4 first_dot_or_colon_digits)
  then show ?thesis using parseIPv4_dotted [OF p] by (simp add: ParseIP_def)
qed

lemma dotted_inj: "\<lbrakk>length p = 4; length q = 4; dotted p = dotted q\<rbrakk> \<Longrightarrow> p = q"
  by (metis ParseIP_dotted same_append_eq)

subsection \<open>Hardware addresses\<close>

definition xtoi2 :: "string \<Rightarrow> char option \<Rightarrow> byte option" where
  "xtoi2 s e =
     (if length s > 2 \<and> Some (s ! 2) \<noteq> e then None
      else (case xtoi (take 2 s) of
          Some (n, c) \<Rightarrow> if c = 2 then Some (of_nat n) else None
        | None \<Rightarrow> None))"

text \<open>The two loops of \<open>net.ParseMAC\<close>: groups of one byte (3 characters) and of two bytes (5).\<close>

fun parseMAC_bytes :: "nat \<Rightarrow> char \<Rightarrow> string \<Rightarrow> bytes option" where
  "parseMAC_bytes 0 sep s = Some []"
| "parseMAC_bytes (Suc n) sep s =
     (case xtoi2 s (Some sep) of None \<Rightarrow> None
      | Some b \<Rightarrow> map_option (\<lambda>bs. b # bs) (parseMAC_bytes n sep (drop 3 s)))"

fun parseMAC_words :: "nat \<Rightarrow> char \<Rightarrow> string \<Rightarrow> bytes option" where
  "parseMAC_words 0 sep s = Some []"
| "parseMAC_words (Suc n) sep s =
     (case (xtoi2 (take 2 s) None, xtoi2 (drop 2 s) (Some sep)) of
        (Some a, Some b) \<Rightarrow> map_option (\<lambda>bs. a # b # bs) (parseMAC_words n sep (drop 5 s))
      | _ \<Rightarrow> None)"

definition ParseMAC :: "string \<Rightarrow> bytes result" where
  "ParseMAC s =
     (let err = Inl (''address '' @ s @ '': invalid MAC address'') in
      if length s < 14 then err
      else if s ! 2 = CHR '':'' \<or> s ! 2 = CHR ''-'' then
        (let n = (length s + 1) div 3 in
         if (length s + 1) mod 3 \<noteq> 0 \<or> n \<notin> {6, 8, 20} then err
         else (case parseMAC_bytes n (s ! 2) s of None \<Rightarrow> err | Some hw \<Rightarrow> Inr hw))
      else if s ! 4 = CHR ''.'' then
        (let n = 2 * (length s + 1) div 5 in
         if (length s + 1) mod 5 \<noteq> 0 \<or> n \<notin> {6, 8, 20} then err
         else (case parseMAC_words (n div 2) (s ! 4) s of None \<Rightarrow> err | Some hw \<Rightarrow> Inr hw))
      else err)"

definition MAC_String :: "bytes \<Rightarrow> string" where
  "MAC_String hw = join '':'' (map hex2 hw)"

lemma hex2_len [simp]: "length (hex2 b) = 2"
  by (simp add: hex2_def)

lemma xtoi_hex2: "xtoi (hex2 b) = Some (unat b, 2)"
proof -
  have b: "unat b < 256" using unsigned_less [of b, where ?'a = nat] by simp
  then have "unat b div 16 < 16" by simp
  then show ?thesis using b by (simp add: xtoi_def hex2_def)
qed

lemma xtoi2_hex2 [text_simps]:
  "xtoi2 (hex2 b) e = Some b"
  "xtoi2 (hex2 b @ c # r) (Some c) = Some b"
  by (simp_all add: xtoi2_def xtoi_hex2 nth_append)

lemma parseMAC_bytes_print:
  "parseMAC_bytes (length hw) (CHR '':'') (MAC_String hw) = Some hw"
proof (induction hw)
  case Nil
  then show ?case by simp
next
  case (Cons b hw)
  show ?case
  proof (cases hw)
    case Nil
    then show ?thesis by (simp add: MAC_String_def xtoi2_hex2)
  next
    case (Cons b' hw')
    have split: "MAC_String (b # hw) = hex2 b @ CHR '':'' # MAC_String hw"
      using Cons by (simp add: MAC_String_def)
    have "drop 3 (hex2 b @ CHR '':'' # MAC_String hw) = MAC_String hw"
      by (simp add: numeral_3_eq_3 hex2_def)
    then show ?thesis using Cons.IH split by (simp add: xtoi2_hex2)
  qed
qed

lemma length_MAC_String: "hw \<noteq> [] \<Longrightarrow> length (MAC_String hw) + 1 = 3 * length hw"
proof (induction hw)
  case (Cons b hw)
  then show ?case by (cases hw) (auto simp: MAC_String_def)
qed simp

lemma ParseMAC_String [text_simps]: "length hw = 6 \<Longrightarrow> ParseMAC (MAC_String hw) = Inr hw"
proof -
  assume hw: "length hw = 6"
  then have len: "length (MAC_String hw) = 17" using length_MAC_String [of hw] by fastforce
  have "MAC_String hw ! 2 = CHR '':''"
    using hw by (auto simp: length_6_iff MAC_String_def hex2_def)
  then show ?thesis using parseMAC_bytes_print [of hw] len hw by (simp add: ParseMAC_def)
qed

lemma MAC_String_inj: "\<lbrakk>length a = 6; length b = 6; MAC_String a = MAC_String b\<rbrakk> \<Longrightarrow> a = b"
  by (metis ParseMAC_String sum.inject(2))

subsection \<open>CIDR notation\<close>

record ipnet =
  net_IP :: ip
  net_Mask :: bytes

fun mask_bytes :: "nat \<Rightarrow> nat \<Rightarrow> bytes" where
  "mask_bytes 0 n = []"
| "mask_bytes (Suc k) n =
     (if n \<ge> 8 then 255 # mask_bytes k (n - 8) else NOT (drop_bit n 255) # mask_bytes k 0)"

definition CIDRMask :: "nat \<Rightarrow> nat \<Rightarrow> bytes" where
  "CIDRMask ones bits =
     (if (bits \<noteq> 32 \<and> bits \<noteq> 128) \<or> ones > bits then [] else mask_bytes (bits div 8) ones)"

definition IP_Mask :: "ip \<Rightarrow> bytes \<Rightarrow> ip" where
  "IP_Mask i m =
     (let m' = (if length m = 16 \<and> length i = 4 \<and> take 12 m = replicate 12 255 then drop 12 m else m);
          i' = (if length m' = 4 \<and> length i = 16 \<and> take 12 i = v4InV6Prefix then drop 12 i else i)
      in if length i' \<noteq> length m' then [] else map2 (AND) i' m')"

text \<open>The leading ones of a byte and what is left of it; a byte has at most eight.\<close>

fun lead_ones :: "nat \<Rightarrow> byte \<Rightarrow> nat \<times> byte" where
  "lead_ones 0 v = (0, v)"
| "lead_ones (Suc k) v =
     (if v AND 128 \<noteq> 0 then (let (n, w) = lead_ones k (push_bit 1 v) in (Suc n, w)) else (0, v))"

fun simpleMaskLength :: "bytes \<Rightarrow> nat option" where
  "simpleMaskLength [] = Some 0"
| "simpleMaskLength (v # m) =
     (if v = 255 then map_option (\<lambda>n. 8 + n) (simpleMaskLength m)
      else (let (n, w) = lead_ones 8 v in
        if w \<noteq> 0 then None else if list_all (\<lambda>b. b = 0) m then Some n else None))"

definition Mask_Size :: "bytes \<Rightarrow> nat \<times> nat" where
  "Mask_Size m = (case simpleMaskLength m of None \<Rightarrow> (0, 0) | Some n \<Rightarrow> (n, 8 * length m))"

definition ParseCIDR :: "string \<Rightarrow> (ip \<times> ipnet) result" where
  "ParseCIDR s =
     (let err = Inl (''invalid CIDR address: '' @ s) in
      case IndexByte s (CHR ''/'') of None \<Rightarrow> err
      | Some i \<Rightarrow>
          (let addr = take i s; m = drop (Suc i) s;
               v4 = parseIPv4 addr;
               iplen = (if v4 = [] then 16 else 4);
               p = (if v4 = [] then parseIPv6 addr else v4)
           in case dtoi m of None \<Rightarrow> err
              | Some (n, c) \<Rightarrow>
                  if p = [] \<or> c \<noteq> length m \<or> n > 8 * iplen then err
                  else let k = CIDRMask n (8 * iplen)
                       in Inr (p, \<lparr>net_IP = IP_Mask p k, net_Mask = k\<rparr>)))"

definition IPNet_Contains :: "ipnet \<Rightarrow> ip \<Rightarrow> bool" where
  "IPNet_Contains n i =
     (let nn = (if length (To4 (net_IP n)) = 4 then To4 (net_IP n) else net_IP n);
          m = (if length (net_Mask n) = 16 \<and> length nn = 4 then drop 12 (net_Mask n) else net_Mask n);
          x = (if length (To4 i) = 4 then To4 i else i)
      in length x = length nn \<and> length m = length nn \<and> map2 (AND) nn m = map2 (AND) x m)"

subsection \<open>Host and port\<close>

definition addr_error :: "string \<Rightarrow> string \<Rightarrow> gerror" where
  "addr_error a why = ''address '' @ a @ '': '' @ why"

fun last_index :: "string \<Rightarrow> char \<Rightarrow> nat option" where
  "last_index [] c = None"
| "last_index (x # s) c = (case last_index s c of
     Some i \<Rightarrow> Some (Suc i) | None \<Rightarrow> if x = c then Some 0 else None)"

definition SplitHostPort :: "string \<Rightarrow> (string \<times> string) result" where
  "SplitHostPort hp =
     (case last_index hp (CHR '':'') of
        None \<Rightarrow> Inl (addr_error hp ''missing port in address'')
      | Some i \<Rightarrow>
          if hd hp = CHR ''['' then
            (case IndexByte hp (CHR '']'') of
               None \<Rightarrow> Inl (addr_error hp ''missing ']' in address'')
             | Some e \<Rightarrow>
                 if e + 1 = length hp then Inl (addr_error hp ''missing port in address'')
                 else if e + 1 \<noteq> i then
                   (if hp ! (e + 1) = CHR '':'' then Inl (addr_error hp ''too many colons in address'')
                    else Inl (addr_error hp ''missing port in address''))
                 else if CHR ''['' \<in> set (drop 1 hp) then Inl (addr_error hp ''unexpected '[' in address'')
                 else if CHR '']'' \<in> set (drop (e + 1) hp) then Inl (addr_error hp ''unexpected ']' in address'')
                 else Inr (drop 1 (take e hp), drop (i + 1) hp))
          else if CHR '':'' \<in> set (take i hp) then Inl (addr_error hp ''too many colons in address'')
          else if CHR ''['' \<in> set hp then Inl (addr_error hp ''unexpected '[' in address'')
          else if CHR '']'' \<in> set hp then Inl (addr_error hp ''unexpected ']' in address'')
          else Inr (take i hp, drop (i + 1) hp))"

definition JoinHostPort :: "string \<Rightarrow> string \<Rightarrow> string" where
  "JoinHostPort h p = (if CHR '':'' \<in> set h then CHR ''['' # h @ '']:'' @ p else h @ CHR '':'' # p)"

lemma last_index_append_sep:
  "CHR '':'' \<notin> set p \<Longrightarrow> last_index (h @ CHR '':'' # p) (CHR '':'') = Some (length h)"
proof -
  assume p: "CHR '':'' \<notin> set p"
  have "last_index p (CHR '':'') = None"
    using p by (induction p) auto
  then show ?thesis by (induction h) auto
qed

lemma SplitHostPort_join [text_simps]:
  assumes "set h \<inter> {CHR '':'', CHR ''['', CHR '']''} = {}"
    and "set p \<inter> {CHR '':'', CHR ''['', CHR '']''} = {}"
  shows "SplitHostPort (h @ CHR '':'' # p) = Inr (h, p)"
proof -
  have "last_index (h @ CHR '':'' # p) (CHR '':'') = Some (length h)"
    using assms(2) by (intro last_index_append_sep) auto
  moreover have "hd (h @ CHR '':'' # p) \<noteq> CHR ''[''"
    using assms(1) by (cases h) auto
  ultimately show ?thesis using assms by (auto simp: SplitHostPort_def)
qed

lemma SplitHostPort_no_colon: "CHR '':'' \<notin> set hp \<Longrightarrow> \<exists>e. SplitHostPort hp = Inl e"
proof -
  assume hp: "CHR '':'' \<notin> set hp"
  have "last_index hp (CHR '':'') = None" using hp by (induction hp) auto
  then show ?thesis by (simp add: SplitHostPort_def)
qed

end
