(* ===== verification/Ethernet.thy ===== *)
theory Ethernet
  imports GoNet
begin

text \<open>
  The packet layer the switch and the gateway endpoint are built on, from the vendored
  gVisor sources: Ethernet headers (\<open>header/eth.go\<close>), ARP headers (\<open>header/arp.go\<close>),
  network addresses and subnets (\<open>tcpip/tcpip.go\<close>), and the byte view of a packet
  (\<open>buffer/chunk.go\<close>, \<open>buffer/view.go\<close>).

  Go checks a slice expression \<open>s[:n]\<close> against the capacity of \<open>s\<close>, not its length.
  The Ethernet accessors are written that way in the source (\<open>b[srcMAC:][:6]\<close>), so a slice
  is modelled with the bytes up to its length and the bytes between length and capacity.
\<close>

subsection \<open>Slices with a capacity\<close>

record gslice =
  vis :: bytes
  spare :: bytes

definition slice_from :: "nat \<Rightarrow> gslice \<Rightarrow> gslice exec" where
  "slice_from i s = (if i \<le> length (vis s) then Ret \<lparr>vis = drop i (vis s), spare = spare s\<rparr> else Panic)"

definition slice_to :: "nat \<Rightarrow> gslice \<Rightarrow> gslice exec" where
  "slice_to n s = (if n \<le> length (vis s) + length (spare s)
     then Ret \<lparr>vis = take n (vis s @ spare s), spare = drop n (vis s @ spare s)\<rparr> else Panic)"

definition exact_slice :: "bytes \<Rightarrow> gslice" where
  "exact_slice b = \<lparr>vis = b, spare = []\<rparr>"

lemma exact_slice_sel [simp]: "vis (exact_slice b) = b" "spare (exact_slice b) = []"
  by (simp_all add: exact_slice_def)

subsection \<open>The byte view of a packet\<close>

text \<open>
  A view is backed by a zeroed chunk whose size is the payload size rounded up to a power of
  two of at least 64 (\<open>getChunkPool\<close>); beyond 64 KiB it is exact. The view of an empty packet
  is the nil slice.
\<close>

fun chunk_round :: "nat \<Rightarrow> nat \<Rightarrow> nat \<Rightarrow> nat" where
  "chunk_round 0 c n = c"
| "chunk_round (Suc k) c n = (if n \<le> c then c else chunk_round k (2 * c) n)"

definition chunk_size :: "nat \<Rightarrow> nat" where
  "chunk_size n = (if n > 65536 then n else chunk_round 10 64 n)"

definition view_slice :: "bytes \<Rightarrow> gslice" where
  "view_slice d = (if d = [] then \<lparr>vis = [], spare = []\<rparr>
     else \<lparr>vis = d, spare = replicate (chunk_size (length d) - length d) 0\<rparr>)"

lemma view_slice_vis [simp]: "vis (view_slice d) = d"
  by (simp add: view_slice_def)

lemma chunk_round_ge: "c \<le> chunk_round k c n"
proof (induction k arbitrary: c)
  case (Suc k)
  have "c \<le> 2 * c" by simp
  also have "\<dots> \<le> chunk_round k (2 * c) n" by (rule Suc.IH)
  finally show ?case by simp
qed simp

lemma chunk_size_ge_64: "64 \<le> chunk_size n"
  using chunk_round_ge [of 64 10 n] by (simp add: chunk_size_def)

subsection \<open>Ethernet headers\<close>

type_synonym LinkAddress = bytes

definition EthernetMinimumSize :: nat where
  "EthernetMinimumSize = 14"

definition EthernetBroadcastAddress :: LinkAddress where
  "EthernetBroadcastAddress = [255, 255, 255, 255, 255, 255]"

definition SourceAddress :: "gslice \<Rightarrow> LinkAddress exec" where
  "SourceAddress b = bind_exec (slice_from 6 b) (\<lambda>t. bind_exec (slice_to 6 t) (\<lambda>u. Ret (vis u)))"

definition DestinationAddress :: "gslice \<Rightarrow> LinkAddress exec" where
  "DestinationAddress b = bind_exec (slice_from 0 b) (\<lambda>t. bind_exec (slice_to 6 t) (\<lambda>u. Ret (vis u)))"

definition EtherType :: "gslice \<Rightarrow> 16 word exec" where
  "EtherType b = bind_exec (slice_from 12 b)
     (\<lambda>t. if length (vis t) \<ge> 2 then Ret (Uint16_BE (vis t)) else Panic)"

record EthernetFields =
  SrcAddr :: LinkAddress
  DstAddr :: LinkAddress
  Type :: "16 word"

text \<open>\<open>copy\<close> of an address into a 6-byte field of a zeroed header.\<close>

definition copy6 :: "LinkAddress \<Rightarrow> bytes" where
  "copy6 a = take 6 (a @ replicate 6 0)"

definition EthernetEncode :: "EthernetFields \<Rightarrow> bytes" where
  "EthernetEncode e = copy6 (DstAddr e) @ copy6 (SrcAddr e) @ PutUint16_BE (Type e)"

definition LinkAddress_String :: "LinkAddress \<Rightarrow> string" where
  "LinkAddress_String a = (if length a = 6 then join '':'' (map hex2 a) else concat (map hex2 a))"

definition is_frame :: "bytes \<Rightarrow> bool" where
  "is_frame b \<longleftrightarrow> EthernetMinimumSize \<le> length b"

definition frame_dst :: "bytes \<Rightarrow> LinkAddress" where
  "frame_dst b = take 6 b"

definition frame_src :: "bytes \<Rightarrow> LinkAddress" where
  "frame_src b = take 6 (drop 6 b)"

definition frame_type :: "bytes \<Rightarrow> 16 word" where
  "frame_type b = Uint16_BE (drop 12 b)"

lemma frame_accessors [simp]:
  assumes "is_frame (vis s)"
  shows "DestinationAddress s = Ret (frame_dst (vis s))"
    and "SourceAddress s = Ret (frame_src (vis s))"
    and "EtherType s = Ret (frame_type (vis s))"
  using assms
  by (simp_all add: is_frame_def EthernetMinimumSize_def DestinationAddress_def SourceAddress_def
      EtherType_def slice_from_def slice_to_def frame_dst_def frame_src_def frame_type_def)

lemma SourceAddress_exact_panic: "SourceAddress (exact_slice b) = Panic \<longleftrightarrow> length b < 12"
  by (auto simp: SourceAddress_def slice_from_def slice_to_def)

lemma length_copy6 [simp]: "length (copy6 a) = 6"
  by (simp add: copy6_def)

lemma copy6_id [simp]: "length a = 6 \<Longrightarrow> copy6 a = a"
  by (simp add: copy6_def)

lemma length_EthernetEncode [simp]: "length (EthernetEncode e) = 14"
  by (simp add: EthernetEncode_def)

lemma is_frame_Encode [simp]: "is_frame (EthernetEncode e @ p)"
  by (simp add: is_frame_def EthernetMinimumSize_def)

lemma frame_of_Encode [simp]:
  "frame_dst (EthernetEncode e @ p) = copy6 (DstAddr e)"
  "frame_src (EthernetEncode e @ p) = copy6 (SrcAddr e)"
  "frame_type (EthernetEncode e @ p) = Type e"
  by (simp_all add: EthernetEncode_def frame_dst_def frame_src_def frame_type_def
      take_append drop_append Uint16_BE_Put)

lemma LinkAddress_String_6: "length a = 6 \<Longrightarrow> LinkAddress_String a = MAC_String a"
  by (simp add: LinkAddress_String_def MAC_String_def)

subsection \<open>ARP headers\<close>

definition ARPSize :: nat where
  "ARPSize = 28"

definition ARPHardwareEther :: "16 word" where
  "ARPHardwareEther = 1"

definition ARPReply :: "16 word" where
  "ARPReply = 2"

definition IPv4ProtocolNumber :: "16 word" where
  "IPv4ProtocolNumber = 0x0800"

definition ARP_IsValid :: "bytes \<Rightarrow> bool" where
  "ARP_IsValid a \<longleftrightarrow> ARPSize \<le> length a
     \<and> Uint16_BE (drop 0 a) = ARPHardwareEther
     \<and> Uint16_BE (drop 2 a) = IPv4ProtocolNumber
     \<and> a ! 4 = 6 \<and> a ! 5 = 4"

definition ARP_Op :: "bytes \<Rightarrow> 16 word" where
  "ARP_Op a = Uint16_BE (drop 6 a)"

definition ProtocolAddressSender :: "bytes \<Rightarrow> bytes" where
  "ProtocolAddressSender a = take 4 (drop 14 a)"

lemma length_ProtocolAddressSender: "ARP_IsValid a \<Longrightarrow> length (ProtocolAddressSender a) = 4"
  by (auto simp: ARP_IsValid_def ProtocolAddressSender_def ARPSize_def)

text \<open>
  The version nibble of an IPv4 header is 4, so its first two bytes are never the hardware
  type 1 of an ARP header.
\<close>

lemma IPv4_header_not_ARP:
  assumes "drop_bit 4 (h ! 0) = (4 :: byte)"
  shows "\<not> ARP_IsValid h"
proof
  assume "ARP_IsValid h"
  then have "push_bit 8 (ucast (h ! 0)) OR ucast (h ! 1) = (1 :: 16 word)"
    by (simp add: ARP_IsValid_def ARPHardwareEther_def Uint16_BE_def)
  then have "bit (push_bit 8 (ucast (h ! 0)) OR ucast (h ! 1) :: 16 word) 14 = bit (1 :: 16 word) 14"
    by simp
  then have n: "\<not> bit (h ! 0) 6" by (simp add: bit_simps)
  have "bit (drop_bit 4 (h ! 0)) 2 = bit (4 :: byte) 2" using assms by simp
  then have "bit (h ! 0) 6" by (simp add: bit_simps)
  then show False using n by simp
qed

subsection \<open>Network addresses and subnets\<close>

text \<open>A \<open>tcpip.Address\<close> is its bytes: 4, 16 or (the zero value) none.\<close>

type_synonym Address = bytes

definition AddrFrom4Slice :: "bytes \<Rightarrow> Address exec" where
  "AddrFrom4Slice a = (if length a \<noteq> 4 then Panic else Ret a)"

definition AddrFromSlice :: "bytes \<Rightarrow> Address" where
  "AddrFromSlice a = (if length a = 4 \<or> length a = 16 then a else [])"

definition Address_String :: "Address \<Rightarrow> string" where
  "Address_String a =
     (if length a = 4 then dotted a
      else if length a = 16 then
        (let gs = groups16 a; (e, l) = best_run 0 gs (0, 0) in
          if l \<le> 1 then join '':'' (map hex_nat gs)
          else join '':'' (map hex_nat (take e gs)) @ ''::'' @ join '':'' (map hex_nat (drop (e + l) gs)))
      else concat (map hex2 a))"

record subnet =
  sn_address :: Address
  sn_mask :: bytes

definition NewSubnet :: "Address \<Rightarrow> bytes \<Rightarrow> subnet result" where
  "NewSubnet a m =
     (if length a \<noteq> length m then Inl ''subnet length of address and mask differ''
      else if list_all2 (\<lambda>x y. x AND NOT y = 0) a m then Inr \<lparr>sn_address = a, sn_mask = m\<rparr>
      else Inl ''subnet address has bits set outside the mask'')"

definition Subnet_Contains :: "subnet \<Rightarrow> Address \<Rightarrow> bool" where
  "Subnet_Contains s a \<longleftrightarrow> length a = length (sn_address s) \<and> map2 (AND) a (sn_mask s) = sn_address s"

end
