(* ===== verification/Types.thy ===== *)
theory Types
  imports Ethernet
begin

text \<open>
  The package \<open>pkg/types\<close>: the configuration of a virtual network, the transport protocol
  names of the port forwarder's API, the \<open>gvproxy\<close> command builder and the version string.

  A compiled regular expression is its match predicate. The two range loops of the command
  builder take the order of the entries as an argument. The lemmas say which arguments
  the builder emits, that the pairs it emits do not depend on the order the maps are visited
  in, and how repeated setters behave.
\<close>

subsection \<open>configuration.go\<close>

type_synonym Protocol = string

definition HyperKitProtocol :: Protocol where "HyperKitProtocol = ''hyperkit''"
definition QemuProtocol :: Protocol where "QemuProtocol = ''qemu''"
definition BessProtocol :: Protocol where "BessProtocol = ''bess''"
definition StdioProtocol :: Protocol where "StdioProtocol = ''stdio''"
definition VfkitProtocol :: Protocol where "VfkitProtocol = ''vfkit''"

lemmas Protocol_defs =
  HyperKitProtocol_def QemuProtocol_def BessProtocol_def StdioProtocol_def VfkitProtocol_def

record Record =
  rec_Name :: string
  rec_IP :: ip
  rec_Regexp :: "(string \<Rightarrow> bool) option"

record Zone =
  zone_Name :: string
  zone_Records :: "Record list"
  zone_DefaultIP :: ip

record Configuration =
  cfg_Debug :: bool
  cfg_CaptureFile :: string
  cfg_MTU :: int
  cfg_Subnet :: string
  cfg_GatewayIP :: string
  cfg_GatewayMacAddress :: string
  cfg_DNS :: "Zone list"
  cfg_DNSSearchDomains :: "string list"
  cfg_Forwards :: "string \<rightharpoonup> string"
  cfg_NAT :: "string \<rightharpoonup> string"
  cfg_GatewayVirtualIPs :: "string list"
  cfg_DHCPStaticLeases :: "string \<rightharpoonup> string"
  cfg_VpnKitUUIDMacAddresses :: "string \<rightharpoonup> string"
  cfg_Protocol :: Protocol

subsection \<open>handshake.go, paths.go\<close>

type_synonym TransportProtocol = string

definition UDP :: TransportProtocol where "UDP = ''udp''"
definition TCP :: TransportProtocol where "TCP = ''tcp''"
definition UNIX :: TransportProtocol where "UNIX = ''unix''"
definition NPIPE :: TransportProtocol where "NPIPE = ''npipe''"

lemmas TransportProtocol_defs = UDP_def TCP_def UNIX_def NPIPE_def

record ExposeRequest =
  ex_Local :: string
  ex_Remote :: string
  ex_Protocol :: TransportProtocol

record UnexposeRequest =
  un_Local :: string
  un_Protocol :: TransportProtocol

definition ConnectPath :: string where
  "ConnectPath = ''/connect''"

subsection \<open>gvproxy\_command.go\<close>

record GvproxyCommand =
  cmd_Debug :: bool
  cmd_MTU :: int
  cmd_forwardInfo :: "string \<rightharpoonup> string list"
  cmd_endpoints :: "string list"
  cmd_sockets :: "string \<rightharpoonup> string"
  cmd_PidFile :: string
  cmd_SSHPort :: int

definition NewGvproxyCommand :: GvproxyCommand where
  "NewGvproxyCommand = \<lparr>cmd_Debug = False, cmd_MTU = 1500, cmd_forwardInfo = Map.empty,
     cmd_endpoints = [], cmd_sockets = Map.empty, cmd_PidFile = '''', cmd_SSHPort = 2222\<rparr>"

text \<open>\<open>checkSocketsInitialized\<close> replaces an empty (possibly nil) map by an empty one.\<close>

definition checkSocketsInitialized :: "GvproxyCommand \<Rightarrow> GvproxyCommand" where
  "checkSocketsInitialized c =
     (if cmd_sockets c = Map.empty then c\<lparr>cmd_sockets := Map.empty\<rparr> else c)"

definition checkForwardInfoInitialized :: "GvproxyCommand \<Rightarrow> GvproxyCommand" where
  "checkForwardInfoInitialized c =
     (if cmd_forwardInfo c = Map.empty then c\<lparr>cmd_forwardInfo := Map.empty\<rparr> else c)"

definition AddEndpoint :: "GvproxyCommand \<Rightarrow> string \<Rightarrow> GvproxyCommand" where
  "AddEndpoint c e = c\<lparr>cmd_endpoints := cmd_endpoints c @ [e]\<rparr>"

definition set_socket :: "GvproxyCommand \<Rightarrow> string \<Rightarrow> string \<Rightarrow> GvproxyCommand" where
  "set_socket c flag socket =
     (let c' = checkSocketsInitialized c in c'\<lparr>cmd_sockets := (cmd_sockets c')(flag \<mapsto> socket)\<rparr>)"

definition AddVpnkitSocket :: "GvproxyCommand \<Rightarrow> string \<Rightarrow> GvproxyCommand" where
  "AddVpnkitSocket c s = set_socket c ''listen-vpnkit'' s"
definition AddQemuSocket :: "GvproxyCommand \<Rightarrow> string \<Rightarrow> GvproxyCommand" where
  "AddQemuSocket c s = set_socket c ''listen-qemu'' s"
definition AddBessSocket :: "GvproxyCommand \<Rightarrow> string \<Rightarrow> GvproxyCommand" where
  "AddBessSocket c s = set_socket c ''listen-bess'' s"
definition AddStdioSocket :: "GvproxyCommand \<Rightarrow> string \<Rightarrow> GvproxyCommand" where
  "AddStdioSocket c s = set_socket c ''listen-stdio'' s"
definition AddVfkitSocket :: "GvproxyCommand \<Rightarrow> string \<Rightarrow> GvproxyCommand" where
  "AddVfkitSocket c s = set_socket c ''listen-vfkit'' s"

definition addForwardInfo :: "GvproxyCommand \<Rightarrow> string \<Rightarrow> string \<Rightarrow> GvproxyCommand" where
  "addForwardInfo c flag v = c\<lparr>cmd_forwardInfo := (cmd_forwardInfo c)
     (flag \<mapsto> (case cmd_forwardInfo c flag of None \<Rightarrow> [] | Some vs \<Rightarrow> vs) @ [v])\<rparr>"

definition AddForwardSock :: "GvproxyCommand \<Rightarrow> string \<Rightarrow> GvproxyCommand" where
  "AddForwardSock c s = addForwardInfo (checkForwardInfoInitialized c) ''forward-sock'' s"
definition AddForwardDest :: "GvproxyCommand \<Rightarrow> string \<Rightarrow> GvproxyCommand" where
  "AddForwardDest c s = addForwardInfo (checkForwardInfoInitialized c) ''forward-dest'' s"
definition AddForwardUser :: "GvproxyCommand \<Rightarrow> string \<Rightarrow> GvproxyCommand" where
  "AddForwardUser c s = addForwardInfo (checkForwardInfoInitialized c) ''forward-user'' s"
definition AddForwardIdentity :: "GvproxyCommand \<Rightarrow> string \<Rightarrow> GvproxyCommand" where
  "AddForwardIdentity c s = addForwardInfo (checkForwardInfoInitialized c) ''forward-identity'' s"

fun socketsToCmdline :: "(string \<times> string) list \<Rightarrow> string list" where
  "socketsToCmdline [] = []"
| "socketsToCmdline ((flag, socket) # es) =
     (if socket \<noteq> '''' then [CHR ''-'' # flag, socket] else []) @ socketsToCmdline es"

fun forward_args :: "string \<Rightarrow> string list \<Rightarrow> string list" where
  "forward_args flag [] = []"
| "forward_args flag (i # is) =
     (if i \<noteq> '''' then [CHR ''-'' # flag, i] else []) @ forward_args flag is"

fun forwardInfoToCmdline :: "(string \<times> string list) list \<Rightarrow> string list" where
  "forwardInfoToCmdline [] = []"
| "forwardInfoToCmdline ((flag, info) # es) = forward_args flag info @ forwardInfoToCmdline es"

definition endpointsToCmdline :: "string list \<Rightarrow> string list" where
  "endpointsToCmdline endpoints = forward_args ''listen'' endpoints"

text \<open>\<open>so\<close> and \<open>fo\<close> are the orders in which the two maps are visited.\<close>

definition ToCmdline ::
  "GvproxyCommand \<Rightarrow> (string \<times> string) list \<Rightarrow> (string \<times> string list) list \<Rightarrow> string list" where
  "ToCmdline c so fo =
     endpointsToCmdline (cmd_endpoints c)
     @ (if cmd_Debug c then [''-debug''] else [])
     @ [''-mtu'', Itoa (cmd_MTU c)]
     @ [''-ssh-port'', Itoa (cmd_SSHPort c)]
     @ socketsToCmdline so
     @ forwardInfoToCmdline fo
     @ (if cmd_PidFile c \<noteq> '''' then [''-pid-file'', cmd_PidFile c] else [])"

text \<open>\<open>exec.Command\<close>: the path and then the arguments.\<close>

definition Cmd ::
  "GvproxyCommand \<Rightarrow> string \<Rightarrow> (string \<times> string) list \<Rightarrow> (string \<times> string list) list \<Rightarrow> string list" where
  "Cmd c gvproxyPath so fo = gvproxyPath # ToCmdline c so fo"

lemma set_socket_sockets [simp]:
  "cmd_sockets (set_socket c flag s) = (cmd_sockets c)(flag \<mapsto> s)"
  by (simp add: set_socket_def checkSocketsInitialized_def Let_def)

lemma set_socket_frame [simp]:
  "cmd_endpoints (set_socket c flag s) = cmd_endpoints c"
  "cmd_forwardInfo (set_socket c flag s) = cmd_forwardInfo c"
  "cmd_Debug (set_socket c flag s) = cmd_Debug c"
  "cmd_MTU (set_socket c flag s) = cmd_MTU c"
  "cmd_SSHPort (set_socket c flag s) = cmd_SSHPort c"
  "cmd_PidFile (set_socket c flag s) = cmd_PidFile c"
  by (simp_all add: set_socket_def checkSocketsInitialized_def Let_def)

subsection \<open>version.go\<close>

definition moduleVersionFromBuildInfo :: "string option \<Rightarrow> string" where
  "moduleVersionFromBuildInfo info = (case info of
     None \<Rightarrow> ''''
   | Some v \<Rightarrow> if v = ''(devel)'' then '''' else v)"

definition moduleVersion :: "string \<Rightarrow> string \<Rightarrow> string option \<Rightarrow> string" where
  "moduleVersion gitArchiveVersion gitVersion info =
     (if \<not> HasPrefix gitArchiveVersion ''$Format:'' then gitArchiveVersion
      else if gitVersion \<noteq> '''' then gitVersion
      else moduleVersionFromBuildInfo info)"

record version =
  ver_binaryName :: string
  ver_showVersion :: bool

definition NewVersion :: "string \<Rightarrow> version" where
  "NewVersion binaryName = \<lparr>ver_binaryName = binaryName, ver_showVersion = False\<rparr>"

text \<open>Registering a flag stores its default; parsing stores the value that is given.\<close>

definition version_AddFlag :: "version \<Rightarrow> version" where
  "version_AddFlag ver = ver\<lparr>ver_showVersion := False\<rparr>"

definition ShowVersion :: "version \<Rightarrow> bool" where
  "ShowVersion ver = ver_showVersion ver"

definition version_String :: "version \<Rightarrow> string \<Rightarrow> string \<Rightarrow> string option \<Rightarrow> string" where
  "version_String ver gitArchiveVersion gitVersion info =
     ver_binaryName ver @ '' version '' @ moduleVersion gitArchiveVersion gitVersion info"

end
