(* ===== verification/Protocols.thy ===== *)
theory Protocols
  imports Types
begin

text \<open>
  The link protocols of \<open>pkg/tap/protocols.go\<close> and the reading half of a connection.

  \<open>hyperkit\<close> and \<open>qemu\<close> run over byte streams: every packet is preceded by its size, 16 bits
  little endian or 32 bits big endian. \<open>bess\<close> and \<open>vfkit\<close> run over sockets that keep
  packet boundaries and carry bare frames.

  The locale \<open>frame_codec\<close> is what the switch and the forwarder in the VM rely on: a size
  header of a fixed positive length that can be read back below a limit. It gives that one
  packet is cut off a stream exactly, that a whole stream of packets is decoded into those
  packets, and that framing is unambiguous. Both protocols are interpretations of it.
\<close>

subsection \<open>The protocols\<close>

datatype streamProtocol = hyperkitProtocol | qemuProtocol

datatype protocol = streamProto streamProtocol | bessProtocol | vfkitProtocol

fun Stream :: "protocol \<Rightarrow> bool" where
  "Stream (streamProto _) = True"
| "Stream bessProtocol = False"
| "Stream vfkitProtocol = False"

fun proto_Buf :: "streamProtocol \<Rightarrow> bytes" where
  "proto_Buf hyperkitProtocol = replicate 2 0"
| "proto_Buf qemuProtocol = replicate 4 0"

text \<open>\<open>Write\<close> stores the size at the start of the buffer; \<open>uint16\<close> and \<open>uint32\<close> wrap.\<close>

fun proto_Write :: "streamProtocol \<Rightarrow> bytes \<Rightarrow> nat \<Rightarrow> bytes" where
  "proto_Write hyperkitProtocol buf n = PutUint16_LE (of_nat n) @ drop 2 buf"
| "proto_Write qemuProtocol buf n = PutUint32_BE (of_nat n) @ drop 4 buf"

fun proto_Read :: "streamProtocol \<Rightarrow> bytes \<Rightarrow> nat" where
  "proto_Read hyperkitProtocol buf = unat (Uint16_LE (take 2 buf))"
| "proto_Read qemuProtocol buf = unat (Uint32_BE (take 4 buf))"

definition protocolImplementation :: "Protocol \<Rightarrow> protocol" where
  "protocolImplementation p =
     (if p = QemuProtocol then streamProto qemuProtocol
      else if p = BessProtocol then bessProtocol
      else if p = VfkitProtocol then vfkitProtocol
      else streamProto hyperkitProtocol)"

text \<open>The size header of a packet, as \<open>txBuf\<close> builds it, and the largest size it can carry.\<close>

definition size_header :: "streamProtocol \<Rightarrow> nat \<Rightarrow> bytes" where
  "size_header sp n = proto_Write sp (proto_Buf sp) n"

fun size_limit :: "streamProtocol \<Rightarrow> nat" where
  "size_limit hyperkitProtocol = 2 ^ 16"
| "size_limit qemuProtocol = 2 ^ 32"

definition header_len :: "streamProtocol \<Rightarrow> nat" where
  "header_len sp = length (proto_Buf sp)"

definition framed :: "streamProtocol \<Rightarrow> bytes \<Rightarrow> bytes" where
  "framed sp p = size_header sp (length p) @ p"

subsection \<open>Reading from a connection\<close>

text \<open>
  A stream is the bytes the peer will still send and the error that \<open>Read\<close> reports after
  them (\<open>EOF\<close> when the peer closes). \<open>io.ReadFull\<close> turns an \<open>EOF\<close> after part of the buffer
  into \<open>unexpected EOF\<close>.
\<close>

definition ReadFull :: "nat \<Rightarrow> gerror \<Rightarrow> bytes \<Rightarrow> (bytes \<times> bytes) result" where
  "ReadFull n e s =
     (if n \<le> length s then Inr (take n s, drop n s)
      else if s \<noteq> [] \<and> e = ''EOF'' then Inl ''unexpected EOF'' else Inl e)"

definition Wrap :: "gerror \<Rightarrow> string \<Rightarrow> gerror" where
  "Wrap e msg = msg @ '': '' @ e"

definition read_packet ::
  "nat \<Rightarrow> (bytes \<Rightarrow> nat) \<Rightarrow> gerror \<Rightarrow> bytes \<Rightarrow> (bytes \<times> bytes) result" where
  "read_packet hlen dec e s =
     (case ReadFull hlen e s of
        Inl err \<Rightarrow> Inl (Wrap err ''cannot read size from socket'')
      | Inr (hdr, r) \<Rightarrow>
          (case ReadFull (dec hdr) e r of
             Inl err \<Rightarrow> Inl (Wrap err ''cannot read packet from socket'')
           | Inr (p, r') \<Rightarrow> Inr (p, r')))"

lemma read_packet_consumes:
  "read_packet hlen dec e s = Inr (p, r) \<Longrightarrow> length r + hlen \<le> length s"
  by (auto simp: read_packet_def ReadFull_def split: sum.splits if_splits)

text \<open>All packets of a stream, and the error that ends it.\<close>

function read_packets ::
  "nat \<Rightarrow> (bytes \<Rightarrow> nat) \<Rightarrow> gerror \<Rightarrow> bytes \<Rightarrow> bytes list \<times> gerror" where
  "read_packets hlen dec e s =
     (case read_packet (Suc hlen) dec e s of
        Inl err \<Rightarrow> ([], err)
      | Inr (p, r) \<Rightarrow> (case read_packets hlen dec e r of (ps, err) \<Rightarrow> (p # ps, err)))"
  by pat_completeness auto
termination
  by (relation "measure (\<lambda>(hlen, dec, e, s). length s)")
    (auto dest!: read_packet_consumes)

declare read_packets.simps [simp del]

lemma ReadFull_exact [simp]: "ReadFull (length p) e (p @ r) = Inr (p, r)"
  by (simp add: ReadFull_def)

lemma ReadFull_Nil: "0 < n \<Longrightarrow> ReadFull n e [] = Inl e"
  by (simp add: ReadFull_def)

subsection \<open>The contract of a size header\<close>

locale frame_codec =
  fixes hlen :: nat
    and enc :: "nat \<Rightarrow> bytes"
    and dec :: "bytes \<Rightarrow> nat"
    and limit :: nat
  assumes hlen_pos: "0 < hlen"
    and enc_len: "length (enc n) = hlen"
    and dec_enc: "n < limit \<Longrightarrow> dec (enc n) = n"
begin

lemma read_packet_frame:
  assumes "length p < limit"
  shows "read_packet hlen dec e (enc (length p) @ p @ r) = Inr (p, r)"
proof -
  have "ReadFull hlen e (enc (length p) @ p @ r) = Inr (enc (length p), p @ r)"
    using ReadFull_exact [of "enc (length p)" e "p @ r"] by (simp add: enc_len)
  then show ?thesis using dec_enc [OF assms] by (simp add: read_packet_def)
qed

lemma read_packets_frames:
  assumes "\<And>p. p \<in> set ps \<Longrightarrow> length p < limit"
  shows "read_packets (hlen - 1) dec e (concat (map (\<lambda>p. enc (length p) @ p) ps))
    = (ps, Wrap e ''cannot read size from socket'')"
  using assms
proof (induction ps)
  case Nil
  then show ?case
    using hlen_pos by (simp add: read_packets.simps read_packet_def ReadFull_Nil)
next
  case (Cons p ps)
  have "read_packet hlen dec e (enc (length p) @ p @ concat (map (\<lambda>p. enc (length p) @ p) ps))
      = Inr (p, concat (map (\<lambda>p. enc (length p) @ p) ps))"
    using Cons.prems by (intro read_packet_frame) simp
  moreover have "Suc (hlen - 1) = hlen" using hlen_pos by simp
  ultimately show ?case
    using Cons.IH Cons.prems by (subst read_packets.simps) simp
qed

lemma frames_unambiguous:
  assumes "length p < limit" "length q < limit"
    and "enc (length p) @ p @ r = enc (length q) @ q @ r'"
  shows "p = q \<and> r = r'"
proof -
  have "read_packet hlen dec [] (enc (length p) @ p @ r) = Inr (q, r')"
    unfolding assms(3) by (rule read_packet_frame [OF assms(2)])
  then show ?thesis using read_packet_frame [OF assms(1), where e = "[]" and r = r] by simp
qed

end

subsection \<open>The two stream protocols keep the contract\<close>

lemma header_len_simps [simp]:
  "header_len hyperkitProtocol = 2" "header_len qemuProtocol = 4"
  by (simp_all add: header_len_def)

lemma length_size_header [simp, codec_simps]: "length (size_header sp n) = header_len sp"
  by (cases sp) (simp_all add: size_header_def)

lemma proto_Read_header [codec_simps]:
  "n < size_limit sp \<Longrightarrow> proto_Read sp (size_header sp n) = n"
proof (cases sp)
  case hyperkitProtocol
  assume "n < size_limit sp"
  then show ?thesis
    using hyperkitProtocol Uint16_LE_Put [of "of_nat n" "[]"]
    by (simp add: size_header_def unat_of_nat)
next
  case qemuProtocol
  assume "n < size_limit sp"
  then show ?thesis
    using qemuProtocol Uint32_BE_Put [of "of_nat n" "[]"]
    by (simp add: size_header_def unat_of_nat)
qed

interpretation sp_codec: frame_codec "header_len sp" "size_header sp" "proto_Read sp" "size_limit sp"
  for sp :: streamProtocol
proof unfold_locales
  show "0 < header_len sp" by (cases sp) simp_all
  show "length (size_header sp n) = header_len sp" for n by (rule length_size_header)
  show "proto_Read sp (size_header sp n) = n" if "n < size_limit sp" for n
    using that by (rule proto_Read_header)
qed

text \<open>
  Framing round trip: whatever packets the switch frames for a stream peer, each
  shorter than the protocol's size limit, the reader at the other end gets back exactly
  those packets, in order, before it reports the end of the stream.
\<close>

lemma framing_roundtrip:
  assumes "\<forall>p \<in> set ps. length p < size_limit sp"
  shows "read_packets (header_len sp - 1) (proto_Read sp) e (concat (map (framed sp) ps))
    = (ps, Wrap e ''cannot read size from socket'')"
  using sp_codec.read_packets_frames [of ps sp e] assms by (simp add: framed_def [abs_def])

text \<open>
  The 16-bit header of the hyperkit protocol wraps: a packet of 65536 bytes or more is
  announced with its size modulo 65536.
\<close>

lemma hyperkit_size_wraps:
  "proto_Read hyperkitProtocol (size_header hyperkitProtocol n) = n mod 65536"
  using Uint16_LE_Put [of "of_nat n" "[]"] by (simp add: size_header_def unat_of_nat)

end
