(* ===== verification/Switch.thy ===== *)
theory Switch
  imports Protocols
begin

text \<open>
  The layer-2 switch of \<open>pkg/tap/switch.go\<close>: connections, the MAC table (\<open>cam\<close>), the
  transmit and receive paths, and the byte counters.

  A connection is a handle of the operating system and its protocol. What the outside world
  decides is in the record \<open>net_env\<close>: the result of a \<open>Write\<close> and the order in which a
  \<open>range\<close> loop visits the connections; both may depend on everything that happened before.
  The ghost field \<open>trace\<close> lists the I/O the switch has done. Logging is left out.

  Connection numbers are \<open>int\<close>; the code's 64-bit counter does not wrap in any run that
  opens fewer than \<open>2 ^ 63\<close> connections.
\<close>

subsection \<open>State\<close>

record protocolConn =
  Conn :: nat
  protocolImpl :: protocol

datatype io =
    Wrote nat bytes
  | WriteFailed nat
  | Closed nat
  | ToGateway "16 word" bytes

record switch =
  Sent :: "64 word"
  Received :: "64 word"
  sw_debug :: bool
  maxTransmissionUnit :: int
  nextConnID :: int
  conns :: "int \<rightharpoonup> protocolConn"
  cam :: "LinkAddress \<rightharpoonup> int"
  gateway :: "LinkAddress option"
  trace :: "io list"

record net_env =
  write_result :: "io list \<Rightarrow> nat \<Rightarrow> bytes \<Rightarrow> gerror option"
  range_conns :: "io list \<Rightarrow> (int \<rightharpoonup> protocolConn) \<Rightarrow> (int \<times> protocolConn) list"

text \<open>The order chosen for a loop over the connections of this state is a possible one.\<close>

definition range_ok :: "net_env \<Rightarrow> switch \<Rightarrow> bool" where
  "range_ok E s \<longleftrightarrow> enumerates (range_conns E (trace s) (conns s)) (conns s)"

text \<open>Connection numbers in use, in the connections and in the table, were handed out before.\<close>

definition sw_wf :: "switch \<Rightarrow> bool" where
  "sw_wf s \<longleftrightarrow> (\<forall>cid \<in> dom (conns s) \<union> ran (cam s). 0 \<le> cid \<and> cid < nextConnID s)"

text \<open>Every table entry points to an open connection.\<close>

definition cam_ok :: "switch \<Rightarrow> bool" where
  "cam_ok s \<longleftrightarrow> (\<forall>a cid. cam s a = Some cid \<longrightarrow> conns s cid \<noteq> None)"

definition NewSwitch :: "bool \<Rightarrow> int \<Rightarrow> switch" where
  "NewSwitch debug mtu = \<lparr>Sent = 0, Received = 0, sw_debug = debug, maxTransmissionUnit = mtu,
     nextConnID = 0, conns = Map.empty, cam = Map.empty, gateway = None, trace = []\<rparr>"

definition Connect :: "switch \<Rightarrow> LinkAddress \<Rightarrow> switch" where
  "Connect s ep = s\<lparr>gateway := Some ep\<rparr>"

fun CAM :: "(LinkAddress \<times> int) list \<Rightarrow> (string \<rightharpoonup> int)" where
  "CAM [] = Map.empty"
| "CAM ((address, port) # es) = (\<lambda>k. case CAM es k of
     Some p \<Rightarrow> Some p
   | None \<Rightarrow> if k = LinkAddress_String address then Some port else None)"

subsection \<open>Connecting and disconnecting\<close>

definition connect :: "switch \<Rightarrow> protocolConn \<Rightarrow> switch \<times> int \<times> bool" where
  "connect s conn =
     (let cid = nextConnID s
      in (s\<lparr>nextConnID := cid + 1, conns := (conns s)(cid \<mapsto> conn)\<rparr>, cid, False))"

definition disconnect :: "switch \<Rightarrow> int \<Rightarrow> protocolConn \<Rightarrow> switch" where
  "disconnect s cid conn =
     s\<lparr>cam := (\<lambda>address. if cam s address = Some cid then None else cam s address),
       trace := trace s @ [Closed (Conn conn)],
       conns := (conns s)(cid := None)\<rparr>"

subsection \<open>Transmit\<close>

definition wire_bytes :: "protocol \<Rightarrow> bytes \<Rightarrow> bytes" where
  "wire_bytes p buf = (case p of streamProto sp \<Rightarrow> framed sp buf | _ \<Rightarrow> buf)"

definition txBuf ::
  "net_env \<Rightarrow> switch \<Rightarrow> int \<Rightarrow> protocolConn \<Rightarrow> bytes \<Rightarrow> switch \<times> gerror option" where
  "txBuf E s cid conn buf =
     (case write_result E (trace s) (Conn conn) (wire_bytes (protocolImpl conn) buf) of
        None \<Rightarrow> (s\<lparr>trace := trace s @ [Wrote (Conn conn) (wire_bytes (protocolImpl conn) buf)]\<rparr>, None)
      | Some err \<Rightarrow> (disconnect (s\<lparr>trace := trace s @ [WriteFailed (Conn conn)]\<rparr>) cid conn, Some err))"

definition add_sent :: "switch \<Rightarrow> bytes \<Rightarrow> switch" where
  "add_sent s buf = s\<lparr>Sent := Sent s + of_nat (length buf)\<rparr>"

fun tx_broadcast ::
  "net_env \<Rightarrow> int \<Rightarrow> bytes \<Rightarrow> (int \<times> protocolConn) list \<Rightarrow> switch \<Rightarrow> switch \<times> gerror option" where
  "tx_broadcast E srcID buf [] s = (s, None)"
| "tx_broadcast E srcID buf ((cid, conn) # es) s =
     (if cid = srcID then tx_broadcast E srcID buf es s
      else (case txBuf E s cid conn buf of
          (s', Some err) \<Rightarrow> (s', Some err)
        | (s', None) \<Rightarrow> tx_broadcast E srcID buf es (add_sent s' buf)))"

text \<open>
  \<open>txPkt\<close> reads the table under its own lock and then sends; the two halves are separate so
  that the concurrent step relation below can put other goroutines between them. A
  connection number that is no longer in \<open>conns\<close> gives the zero \<open>protocolConn\<close>, whose nil
  \<open>protocolImpl\<close> panics at \<open>Stream()\<close>.
\<close>

datatype tx_dest = Flood int | Unicast int | NoRoute

definition tx_target :: "switch \<Rightarrow> bytes \<Rightarrow> tx_dest exec" where
  "tx_target s data =
     bind_exec (DestinationAddress (view_slice data)) (\<lambda>dst.
     bind_exec (SourceAddress (view_slice data)) (\<lambda>src.
       if dst = EthernetBroadcastAddress
       then Ret (Flood (case cam s src of Some cid \<Rightarrow> cid | None \<Rightarrow> - 1))
       else Ret (case cam s dst of Some cid \<Rightarrow> Unicast cid | None \<Rightarrow> NoRoute)))"

definition tx_send :: "net_env \<Rightarrow> switch \<Rightarrow> tx_dest \<Rightarrow> bytes \<Rightarrow> (switch \<times> gerror option) exec" where
  "tx_send E s t data =
     (case t of
        Flood srcID \<Rightarrow> Ret (tx_broadcast E srcID data (range_conns E (trace s) (conns s)) s)
      | NoRoute \<Rightarrow> Ret (s, None)
      | Unicast cid \<Rightarrow>
          (case conns s cid of
             None \<Rightarrow> Panic
           | Some conn \<Rightarrow>
               (case txBuf E s cid conn data of
                  (s', Some err) \<Rightarrow> Ret (s', Some err)
                | (s', None) \<Rightarrow> Ret (add_sent s' data, None))))"

definition txPkt :: "net_env \<Rightarrow> switch \<Rightarrow> bytes \<Rightarrow> (switch \<times> gerror option) exec" where
  "txPkt E s data = bind_exec (tx_target s data) (\<lambda>t. tx_send E s t data)"

definition tx :: "net_env \<Rightarrow> switch \<Rightarrow> bytes \<Rightarrow> (switch \<times> gerror option) exec" where
  "tx E s data = txPkt E s data"

definition DeliverNetworkPacket :: "net_env \<Rightarrow> switch \<Rightarrow> bytes \<Rightarrow> switch exec" where
  "DeliverNetworkPacket E s data = bind_exec (tx E s data) (\<lambda>(s', _). Ret s')"

subsection \<open>Receive\<close>

definition learn :: "switch \<Rightarrow> LinkAddress \<Rightarrow> int \<Rightarrow> switch" where
  "learn s src cid = s\<lparr>cam := (cam s)(src \<mapsto> cid)\<rparr>"

definition rxBuf :: "net_env \<Rightarrow> switch \<Rightarrow> int \<Rightarrow> gslice \<Rightarrow> switch exec" where
  "rxBuf E s cid buf =
     bind_exec (SourceAddress buf) (\<lambda>src.
     (let s1 = learn s src cid in
      bind_exec (DestinationAddress buf) (\<lambda>dst.
      (case gateway s of
         None \<Rightarrow> Panic
       | Some gw \<Rightarrow>
           bind_exec (if dst \<noteq> gw then bind_exec (tx E s1 (vis buf)) (\<lambda>(s2, _). Ret s2) else Ret s1)
             (\<lambda>s2.
               bind_exec
                 (if dst = gw \<or> dst = EthernetBroadcastAddress
                  then bind_exec (EtherType buf)
                    (\<lambda>ty. Ret (s2\<lparr>trace := trace s2 @ [ToGateway ty (drop EthernetMinimumSize (vis buf))]\<rparr>))
                  else Ret s2)
                 (\<lambda>s3. Ret (s3\<lparr>Received := Received s3 + of_nat (length (vis buf))\<rparr>)))))))"

text \<open>
  The receive loops. \<open>dn k\<close> says whether the context is done at the \<open>k\<close>-th iteration; \<open>e\<close>
  is the error \<open>Read\<close> reports when the peer has sent everything. A datagram is copied
  into a 128 KiB buffer that is not cleared between reads.
\<close>

function rxStream ::
  "net_env \<Rightarrow> (nat \<Rightarrow> bool) \<Rightarrow> gerror \<Rightarrow> int \<Rightarrow> streamProtocol \<Rightarrow> nat \<Rightarrow> switch \<Rightarrow> bytes
     \<Rightarrow> (switch \<times> gerror option) exec" where
  "rxStream E dn e cid sp k s input =
     (if dn k then Ret (s, None)
      else (case read_packet (header_len sp) (proto_Read sp) e input of
          Inl err \<Rightarrow> Ret (s, Some err)
        | Inr (buf, rest) \<Rightarrow>
            (case rxBuf E s cid (exact_slice buf) of
               Panic \<Rightarrow> Panic
             | Ret s' \<Rightarrow> rxStream E dn e cid sp (Suc k) s' rest)))"
  by pat_completeness auto
termination
proof (relation "measure (\<lambda>(E, dn, e, cid, sp, k, s, input). length input)", goal_cases)
  case (2 E dn e cid sp k s input x2 x1 y s')
  then have "read_packet (header_len sp) (proto_Read sp) e input = Inr (x1, y)" by simp
  then have "length y + header_len sp \<le> length input" by (rule read_packet_consumes)
  moreover have "0 < header_len sp" by (cases sp) simp_all
  ultimately show ?case by simp
qed simp

declare rxStream.simps [simp del]

definition rx_buf_size :: nat where
  "rx_buf_size = 1024 * 128"

fun rxNonStream ::
  "net_env \<Rightarrow> (nat \<Rightarrow> bool) \<Rightarrow> gerror \<Rightarrow> int \<Rightarrow> nat \<Rightarrow> bytes \<Rightarrow> switch \<Rightarrow> bytes list
     \<Rightarrow> (switch \<times> gerror option) exec" where
  "rxNonStream E dn e cid k buf s [] =
     (if dn k then Ret (s, None) else Ret (s, Some (Wrap e ''cannot read size from socket'')))"
| "rxNonStream E dn e cid k buf s (d # ds) =
     (if dn k then Ret (s, None)
      else let n = min (length d) (length buf); buf' = take n d @ drop n buf in
        (case rxBuf E s cid \<lparr>vis = take n buf', spare = drop n buf'\<rparr> of
           Panic \<Rightarrow> Panic
         | Ret s' \<Rightarrow> rxNonStream E dn e cid (Suc k) buf' s' ds))"

definition rx ::
  "net_env \<Rightarrow> (nat \<Rightarrow> bool) \<Rightarrow> gerror \<Rightarrow> int \<Rightarrow> protocolConn \<Rightarrow> switch \<Rightarrow> bytes list
     \<Rightarrow> (switch \<times> gerror option) exec" where
  "rx E dn e cid conn s input =
     (case protocolImpl conn of
        streamProto sp \<Rightarrow> rxStream E dn e cid sp 0 s (concat input)
      | _ \<Rightarrow> rxNonStream E dn e cid 0 (replicate rx_buf_size 0) s input)"

text \<open>One connection served from start to end, with nothing else running.\<close>

definition Accept ::
  "net_env \<Rightarrow> (nat \<Rightarrow> bool) \<Rightarrow> gerror \<Rightarrow> switch \<Rightarrow> nat \<Rightarrow> Protocol \<Rightarrow> bytes list
     \<Rightarrow> (switch \<times> gerror option) exec" where
  "Accept E dn e s rawConn protocol input =
     (let conn = \<lparr>Conn = rawConn, protocolImpl = protocolImplementation protocol\<rparr> in
      (case connect s conn of
         (s1, cid, failed) \<Rightarrow>
           if failed then Ret (s1\<lparr>trace := trace s1 @ [Closed rawConn]\<rparr>, None)
           else bind_exec (rx E dn e cid conn s1 input)
             (\<lambda>(s2, err). Ret (disconnect s2 cid conn, err))))"

subsection \<open>What an operation leaves alone\<close>

lemma disconnect_sel [simp]:
  "Sent (disconnect s cid c) = Sent s" "Received (disconnect s cid c) = Received s"
  "nextConnID (disconnect s cid c) = nextConnID s" "gateway (disconnect s cid c) = gateway s"
  "conns (disconnect s cid c) = (conns s)(cid := None)"
  "cam (disconnect s cid c) a = (if cam s a = Some cid then None else cam s a)"
  "trace (disconnect s cid c) = trace s @ [Closed (Conn c)]"
  by (simp_all add: disconnect_def)

lemma learn_sel [simp]:
  "Sent (learn s a cid) = Sent s" "Received (learn s a cid) = Received s"
  "nextConnID (learn s a cid) = nextConnID s" "gateway (learn s a cid) = gateway s"
  "conns (learn s a cid) = conns s" "cam (learn s a cid) = (cam s)(a \<mapsto> cid)"
  "trace (learn s a cid) = trace s"
  by (simp_all add: learn_def)

lemma add_sent_sel [simp]:
  "Sent (add_sent s d) = Sent s + of_nat (length d)" "Received (add_sent s d) = Received s"
  "nextConnID (add_sent s d) = nextConnID s" "gateway (add_sent s d) = gateway s"
  "conns (add_sent s d) = conns s" "cam (add_sent s d) = cam s" "trace (add_sent s d) = trace s"
  by (simp_all add: add_sent_def)

text \<open>Transmitting never adds a connection or a table entry, and never renumbers.\<close>

definition shrinks :: "switch \<Rightarrow> switch \<Rightarrow> bool" where
  "shrinks s s' \<longleftrightarrow> conns s' \<subseteq>\<^sub>m conns s \<and> cam s' \<subseteq>\<^sub>m cam s \<and>
     nextConnID s' = nextConnID s \<and> gateway s' = gateway s \<and> Received s' = Received s"

lemma shrinks_refl [simp]: "shrinks s s"
  by (simp add: shrinks_def)

lemma shrinks_trans [trans]: "shrinks s t \<Longrightarrow> shrinks t u \<Longrightarrow> shrinks s u"
  by (auto simp: shrinks_def intro: map_le_trans)

lemma shrinks_add_sent [simp]: "shrinks s (add_sent s d)"
  by (simp add: shrinks_def)

lemma shrinks_disconnect: "shrinks s (disconnect s cid c)"
  by (auto simp: shrinks_def map_le_def dom_def)

lemma shrinks_txBuf: "txBuf E s cid c d = (s', err) \<Longrightarrow> shrinks s s'"
  by (auto simp: txBuf_def shrinks_def map_le_def dom_def split: option.splits if_splits)

lemma shrinks_tx_broadcast: "tx_broadcast E src d es s = (s', err) \<Longrightarrow> shrinks s s'"
proof (induction es arbitrary: s)
  case (Cons x es)
  obtain cid c where x: "x = (cid, c)" by force
  show ?case
  proof (cases "cid = src")
    case True
    then show ?thesis using Cons x by simp
  next
    case False
    obtain t r where t: "txBuf E s cid c d = (t, r)" by force
    then have st: "shrinks s t" by (rule shrinks_txBuf)
    show ?thesis
    proof (cases r)
      case None
      then have "tx_broadcast E src d es (add_sent t d) = (s', err)"
        using Cons.prems x False t by simp
      then have "shrinks (add_sent t d) s'" by (rule Cons.IH)
      then show ?thesis using st shrinks_add_sent shrinks_trans by blast
    next
      case (Some e)
      then show ?thesis using Cons.prems x False t st by simp
    qed
  qed
qed simp

lemma shrinks_tx_send: "tx_send E s t d = Ret (s', err) \<Longrightarrow> shrinks s s'"
proof (cases t)
  case (Flood src)
  assume "tx_send E s t d = Ret (s', err)"
  then show ?thesis using Flood by (auto simp: tx_send_def intro: shrinks_tx_broadcast)
next
  case (Unicast cid)
  assume a: "tx_send E s t d = Ret (s', err)"
  then obtain c where c: "conns s cid = Some c"
    using Unicast by (auto simp: tx_send_def split: option.splits)
  obtain u r where u: "txBuf E s cid c d = (u, r)" by force
  then have "shrinks s u" by (rule shrinks_txBuf)
  then show ?thesis
    using a Unicast c u by (auto simp: tx_send_def split: option.splits intro: shrinks_trans)
next
  case NoRoute
  assume "tx_send E s t d = Ret (s', err)"
  then show ?thesis using NoRoute by (simp add: tx_send_def)
qed

lemma shrinks_txPkt: "txPkt E s d = Ret (s', err) \<Longrightarrow> shrinks s s'"
  by (auto simp: txPkt_def bind_exec_eq_Ret intro: shrinks_tx_send)

lemma sw_wf_no_minus_one: "sw_wf s \<Longrightarrow> conns s (- 1) = None"
proof (rule ccontr)
  assume "sw_wf s" "conns s (- 1) \<noteq> None"
  then have "(0::int) \<le> - 1" unfolding sw_wf_def by blast
  then show False by simp
qed

lemma shrinks_sw_wf: "shrinks s s' \<Longrightarrow> sw_wf s \<Longrightarrow> sw_wf s'"
proof -
  assume a: "shrinks s s'" "sw_wf s"
  then have "dom (conns s') \<subseteq> dom (conns s)" "ran (cam s') \<subseteq> ran (cam s)"
    by (auto simp: shrinks_def map_le_def dom_def ran_def) (metis option.discI)+
  then show ?thesis using a by (auto simp: shrinks_def sw_wf_def)
qed

lemma cam_ok_disconnect: "cam_ok s \<Longrightarrow> cam_ok (disconnect s cid c)"
  by (simp add: cam_ok_def)

lemma cam_ok_txBuf: "txBuf E s cid c d = (s', err) \<Longrightarrow> cam_ok s \<Longrightarrow> cam_ok s'"
  by (auto simp: txBuf_def cam_ok_def split: option.splits if_splits)

lemma cam_ok_tx_broadcast: "tx_broadcast E src d es s = (s', err) \<Longrightarrow> cam_ok s \<Longrightarrow> cam_ok s'"
proof (induction es arbitrary: s)
  case (Cons x es)
  obtain cid c where x: "x = (cid, c)" by force
  obtain t r where t: "txBuf E s cid c d = (t, r)" by force
  have "cam_ok t" using cam_ok_txBuf [OF t] Cons.prems by simp
  moreover have "cam_ok (add_sent t d)" using \<open>cam_ok t\<close> by (simp add: cam_ok_def)
  ultimately show ?case
    using Cons x t by (cases r) (auto split: if_splits)
qed simp

lemma cam_ok_tx_send: "tx_send E s t d = Ret (s', err) \<Longrightarrow> cam_ok s \<Longrightarrow> cam_ok s'"
proof (cases t)
  case (Unicast cid)
  assume a: "tx_send E s t d = Ret (s', err)" "cam_ok s"
  then obtain c where c: "conns s cid = Some c"
    using Unicast by (auto simp: tx_send_def split: option.splits)
  obtain u r where u: "txBuf E s cid c d = (u, r)" by force
  then have "cam_ok u" "cam_ok (add_sent u d)"
    using cam_ok_txBuf [OF u] a by (simp_all add: cam_ok_def)
  then show ?thesis using a Unicast c u by (auto simp: tx_send_def split: option.splits)
qed (auto simp: tx_send_def intro: cam_ok_tx_broadcast)

lemma tx_target_frame:
  assumes "is_frame d"
  shows "tx_target s d =
    Ret (if frame_dst d = EthernetBroadcastAddress
         then Flood (case cam s (frame_src d) of Some i \<Rightarrow> i | None \<Rightarrow> - 1)
         else (case cam s (frame_dst d) of Some i \<Rightarrow> Unicast i | None \<Rightarrow> NoRoute))"
  using assms by (simp add: tx_target_def)

text \<open>With a table that points to open connections only, sending a frame does not panic.\<close>

lemma tx_returns:
  assumes "is_frame d" "cam_ok s"
  shows "\<exists>s' err. tx E s d = Ret (s', err) \<and> shrinks s s' \<and> cam_ok s'"
proof -
  obtain t where t: "tx_target s d = Ret t" using assms(1) by (metis tx_target_frame)
  have "tx_send E s t d \<noteq> Panic"
  proof (cases t)
    case (Unicast cid)
    then have "cam s (frame_dst d) = Some cid"
      using t assms(1) by (auto simp: tx_target_def split: if_splits option.splits)
    then obtain c where c: "conns s cid = Some c" using assms(2) by (auto simp: cam_ok_def)
    obtain u r where u: "txBuf E s cid c d = (u, r)" by force
    then show ?thesis using Unicast c by (cases r) (auto simp: tx_send_def)
  qed (simp_all add: tx_send_def)
  then obtain s' err where r: "tx_send E s t d = Ret (s', err)"
    by (metis exec.exhaust surj_pair)
  then show ?thesis
    using t shrinks_tx_send [OF r] cam_ok_tx_send [OF r assms(2)] by (simp add: tx_def txPkt_def)
qed

subsection \<open>Forwarding\<close>

text \<open>
  C6. Unicast forwarding: a frame for a known address is written once, in the wire format
  of the connection the address was learnt on, and to no other connection; the sent counter
  grows by the frame size and the rest of the switch is unchanged.
\<close>

theorem txPkt_unicast:
  assumes "is_frame d" "frame_dst d \<noteq> EthernetBroadcastAddress"
    and "cam s (frame_dst d) = Some cid" "conns s cid = Some c"
    and "write_result E (trace s) (Conn c) (wire_bytes (protocolImpl c) d) = None"
  shows "txPkt E s d = Ret (s\<lparr>trace := trace s @ [Wrote (Conn c) (wire_bytes (protocolImpl c) d)],
    Sent := Sent s + of_nat (length d)\<rparr>, None)"
  using assms by (simp add: txPkt_def tx_target_frame tx_send_def txBuf_def add_sent_def)

text \<open>The events of a successful flood, in the order the loop visits the connections.\<close>

definition flood_events :: "int \<Rightarrow> bytes \<Rightarrow> (int \<times> protocolConn) list \<Rightarrow> io list" where
  "flood_events src d es =
     map (\<lambda>(cid, c). Wrote (Conn c) (wire_bytes (protocolImpl c) d)) (filter (\<lambda>(cid, c). cid \<noteq> src) es)"

lemma flood_events_simps [simp]:
  "flood_events src d [] = []"
  "flood_events src d ((cid, c) # es) =
     (if cid = src then [] else [Wrote (Conn c) (wire_bytes (protocolImpl c) d)]) @ flood_events src d es"
  by (simp_all add: flood_events_def)

lemma tx_broadcast_ok:
  assumes "\<And>h c b. write_result E h c b = None"
  shows "tx_broadcast E src d es s =
    (s\<lparr>trace := trace s @ flood_events src d es,
       Sent := Sent s + of_nat (length (flood_events src d es)) * of_nat (length d)\<rparr>, None)"
proof (induction es arbitrary: s)
  case (Cons x es)
  obtain cid c where "x = (cid, c)" by force
  then show ?case using Cons.IH assms
    by (simp add: txBuf_def add_sent_def algebra_simps)
qed simp

text \<open>
  C7. Broadcast: when every write succeeds, a broadcast frame is written exactly once to
  every connection except the one its source address was learnt on, and to nobody else.
\<close>

theorem txPkt_broadcast:
  assumes "is_frame d" "frame_dst d = EthernetBroadcastAddress" "sw_wf s" "range_ok E s"
    and "\<forall>h c b. write_result E h c b = None"
  shows "\<exists>es. enumerates es (\<lambda>cid. if cam s (frame_src d) = Some cid then None else conns s cid)
    \<and> txPkt E s d = Ret (s\<lparr>trace := trace s @
          map (\<lambda>(cid, c). Wrote (Conn c) (wire_bytes (protocolImpl c) d)) es,
        Sent := Sent s + of_nat (length es) * of_nat (length d)\<rparr>, None)"
proof -
  let ?src = "case cam s (frame_src d) of Some i \<Rightarrow> i | None \<Rightarrow> - 1"
  let ?all = "range_conns E (trace s) (conns s)"
  let ?es = "filter (\<lambda>(cid, c). cid \<noteq> ?src) ?all"
  have neg: "conns s (- 1) = None" using assms(3) by (rule sw_wf_no_minus_one)
  have "enumerates ?es (\<lambda>k. case conns s k of None \<Rightarrow> None | Some v \<Rightarrow> if k \<noteq> ?src then Some v else None)"
    using assms(4) enumerates_filter [of ?all "conns s" "\<lambda>cid c. cid \<noteq> ?src"] by (simp add: range_ok_def)
  moreover have "(\<lambda>k. case conns s k of None \<Rightarrow> None | Some v \<Rightarrow> if k \<noteq> ?src then Some v else None)
      = (\<lambda>cid. if cam s (frame_src d) = Some cid then None else conns s cid)"
    using neg by (auto simp: fun_eq_iff split: option.splits)
  ultimately have "enumerates ?es (\<lambda>cid. if cam s (frame_src d) = Some cid then None else conns s cid)"
    by simp
  moreover have "txPkt E s d = Ret (s\<lparr>trace := trace s @
          map (\<lambda>(cid, c). Wrote (Conn c) (wire_bytes (protocolImpl c) d)) ?es,
        Sent := Sent s + of_nat (length ?es) * of_nat (length d)\<rparr>, None)"
    using assms by (simp add: txPkt_def tx_target_frame tx_send_def tx_broadcast_ok flood_events_def)
  ultimately show ?thesis by blast
qed

subsection \<open>Receiving\<close>

lemma rxBuf_frame:
  assumes "is_frame (vis b)" "gateway s = Some gw"
  shows "rxBuf E s cid b =
    bind_exec (if frame_dst (vis b) \<noteq> gw
        then bind_exec (tx E (learn s (frame_src (vis b)) cid) (vis b)) (\<lambda>(s2, _). Ret s2)
        else Ret (learn s (frame_src (vis b)) cid))
      (\<lambda>s2. let s3 = (if frame_dst (vis b) = gw \<or> frame_dst (vis b) = EthernetBroadcastAddress
          then s2\<lparr>trace := trace s2 @ [ToGateway (frame_type (vis b)) (drop 14 (vis b))]\<rparr> else s2)
        in Ret (s3\<lparr>Received := Received s3 + of_nat (length (vis b))\<rparr>))"
  using assms
  by (cases "frame_dst (vis b) = gw"; cases "frame_dst (vis b) = EthernetBroadcastAddress")
    (simp_all add: rxBuf_def Let_def EthernetMinimumSize_def)

text \<open>
  A frame addressed to the gateway is handed to the gateway, with its type and without its
  Ethernet header, and to no connection; its source address is now known on the connection
  it came from, and the received counter grows by its size.
\<close>

lemma rxBuf_to_gateway:
  assumes "is_frame (vis b)" "gateway s = Some gw" "frame_dst (vis b) = gw"
  shows "rxBuf E s cid b = Ret (s\<lparr>cam := (cam s)(frame_src (vis b) \<mapsto> cid),
    trace := trace s @ [ToGateway (frame_type (vis b)) (drop 14 (vis b))],
    Received := Received s + of_nat (length (vis b))\<rparr>)"
  using assms by (simp add: rxBuf_frame learn_def)

lemma learn_cam_ok: "cam_ok s \<Longrightarrow> conns s cid \<noteq> None \<Longrightarrow> cam_ok (learn s a cid)"
  by (simp add: cam_ok_def)

text \<open>
  No panic: a complete Ethernet frame from an open connection is always processed to the
  end, whatever the writes to other connections return, as long as the table points to open
  connections; and afterwards the table still does.
\<close>

lemma rxBuf_returns:
  assumes "is_frame (vis b)" "gateway s = Some gw" "cam_ok s" "conns s cid \<noteq> None"
  shows "\<exists>s'. rxBuf E s cid b = Ret s' \<and> cam_ok s' \<and>
    Received s' = Received s + of_nat (length (vis b)) \<and> gateway s' = Some gw"
proof -
  let ?s1 = "learn s (frame_src (vis b)) cid"
  have "cam_ok ?s1" using assms learn_cam_ok by blast
  then obtain s2 err where "tx E ?s1 (vis b) = Ret (s2, err)" "shrinks ?s1 s2" "cam_ok s2"
    using tx_returns [OF assms(1)] by blast
  then show ?thesis
    using assms \<open>cam_ok ?s1\<close> by (auto simp: rxBuf_frame shrinks_def cam_ok_def Let_def)
qed

text \<open>
  C8. Answers reach the sender: after a frame from connection \<open>cid\<close> to the gateway, a frame
  the gateway sends to that source address goes to \<open>cid\<close> and only there.
\<close>

theorem reply_reaches_sender:
  assumes "is_frame (vis b)" "gateway s = Some gw" "frame_dst (vis b) = gw"
    and "conns s cid = Some c" "rxBuf E s cid b = Ret s'"
    and "is_frame d" "frame_dst d = frame_src (vis b)" "frame_dst d \<noteq> EthernetBroadcastAddress"
    and "write_result E (trace s') (Conn c) (wire_bytes (protocolImpl c) d) = None"
  shows "\<exists>s''. DeliverNetworkPacket E s' d = Ret s''
    \<and> trace s'' = trace s' @ [Wrote (Conn c) (wire_bytes (protocolImpl c) d)]"
proof -
  have s': "s' = s\<lparr>cam := (cam s)(frame_src (vis b) \<mapsto> cid),
      trace := trace s @ [ToGateway (frame_type (vis b)) (drop 14 (vis b))],
      Received := Received s + of_nat (length (vis b))\<rparr>"
    using assms(1,2,3,5) by (simp add: rxBuf_frame learn_def)
  show ?thesis
    using assms(4,6,7,8,9)
    by (simp add: DeliverNetworkPacket_def tx_def txPkt_def tx_target_frame tx_send_def txBuf_def s')
qed

text \<open>
  Short frames: a stream peer that announces a packet of fewer than 12 bytes makes the
  receive path panic, so one malformed packet from a VM stops the whole process.
\<close>

lemma short_frame_panics:
  assumes "length p < 12" "\<not> dn k"
  shows "rxStream E dn e cid sp k s (framed sp p @ rest) = Panic"
proof -
  have "length p < size_limit sp" using assms(1) by (cases sp) simp_all
  then have "read_packet (header_len sp) (proto_Read sp) e (framed sp p @ rest) = Inr (p, rest)"
    using sp_codec.read_packet_frame [of p sp e rest] by (simp add: framed_def)
  moreover have "rxBuf E s cid (exact_slice p) = Panic"
    using assms(1) SourceAddress_exact_panic [of p] by (simp add: rxBuf_def)
  ultimately show ?thesis using assms(2) by (simp add: rxStream.simps)
qed

subsection \<open>A whole stream\<close>

text \<open>The packets of a connection, processed one after the other.\<close>

fun rx_all :: "net_env \<Rightarrow> int \<Rightarrow> switch \<Rightarrow> bytes list \<Rightarrow> switch exec" where
  "rx_all E cid s [] = Ret s"
| "rx_all E cid s (p # ps) = bind_exec (rxBuf E s cid (exact_slice p)) (\<lambda>s'. rx_all E cid s' ps)"

lemma rxStream_packets:
  assumes "\<forall>p \<in> set ps. length p < size_limit sp" "\<forall>k. \<not> dn k"
  shows "rxStream E dn e cid sp k s (concat (map (framed sp) ps)) =
    bind_exec (rx_all E cid s ps) (\<lambda>s'. Ret (s', Some (Wrap e ''cannot read size from socket'')))"
  using assms(1)
proof (induction ps arbitrary: s k)
  case Nil
  have "0 < header_len sp" by (cases sp) simp_all
  then show ?case
    using assms(2) by (subst rxStream.simps) (simp add: read_packet_def ReadFull_Nil)
next
  case (Cons p ps)
  have "read_packet (header_len sp) (proto_Read sp) e (framed sp p @ concat (map (framed sp) ps))
      = Inr (p, concat (map (framed sp) ps))"
    using Cons.prems sp_codec.read_packet_frame [of p sp e] by (simp add: framed_def)
  moreover have "\<not> dn k" using assms(2) by blast
  moreover note IH = Cons.IH [of "Suc k"]
  ultimately show ?case
    using Cons.prems IH
    by (subst rxStream.simps) (cases "rxBuf E s cid (exact_slice p)"; simp)
qed

text \<open>
  C3. The receive loop of a stream connection is the packet-by-packet processing of what the
  peer framed: if the peer frames packets with the same protocol and then closes, the loop
  processes exactly these packets in order and ends with the end-of-file error.
\<close>

theorem rxStream_framed:
  assumes "\<forall>p \<in> set ps. length p < size_limit sp" "\<forall>k. \<not> dn k"
  shows "rxStream E dn e cid sp k s (concat (map (framed sp) ps)) =
    bind_exec (rx_all E cid s ps) (\<lambda>s'. Ret (s', Some (Wrap e ''cannot read size from socket'')))"
  using assms by (rule rxStream_packets)

subsection \<open>Concurrent connections\<close>

text \<open>
  Every connection is served by a goroutine of its own. The configuration is the switch and
  the goroutines between \<open>connect\<close> and the deferred \<open>disconnect\<close>, each with the connection
  it holds. The steps are what the locks make atomic: \<open>connect\<close> and \<open>disconnect\<close> run under
  \<open>connLock\<close>, \<open>txPkt\<close> as a whole too, while the table is only protected by \<open>camLock\<close>, so
  other goroutines can learn addresses between the lookup of \<open>txPkt\<close> and its write.
\<close>

type_synonym config = "switch \<times> (int \<rightharpoonup> protocolConn)"

inductive learns :: "(int \<rightharpoonup> protocolConn) \<Rightarrow> switch \<Rightarrow> switch \<Rightarrow> bool" for A where
  learns_refl: "learns A s s"
| learns_step: "learns A s t \<Longrightarrow> cid \<in> dom A \<Longrightarrow> learns A s (learn t a cid)"

inductive sw_step :: "net_env \<Rightarrow> config \<Rightarrow> config \<Rightarrow> bool" for E where
  accept: "connect s c = (s', cid, False) \<Longrightarrow> sw_step E (s, A) (s', A(cid \<mapsto> c))"
| learned: "cid \<in> dom A \<Longrightarrow> sw_step E (s, A) (learn s a cid, A)"
| transmit: "tx_target s d = Ret t \<Longrightarrow> learns A s s1 \<Longrightarrow> tx_send E s1 t d = Ret (s', err)
    \<Longrightarrow> sw_step E (s, A) (s', A)"
| to_gateway: "sw_step E (s, A) (s\<lparr>trace := trace s @ [ToGateway ty d]\<rparr>, A)"
| received: "sw_step E (s, A) (s\<lparr>Received := Received s + of_nat n\<rparr>, A)"
| finished: "A cid = Some c \<Longrightarrow> sw_step E (s, A) (disconnect s cid c, A(cid := None))"

inductive_cases sw_stepE: "sw_step E (s, A) (s', A')"

inductive sw_reach :: "net_env \<Rightarrow> config \<Rightarrow> bool" for E where
  sw_init: "sw_reach E (Connect (NewSwitch debug mtu) gw, Map.empty)"
| sw_next: "sw_reach E x \<Longrightarrow> sw_step E x y \<Longrightarrow> sw_reach E y"

definition sw_inv :: "config \<Rightarrow> bool" where
  "sw_inv x \<longleftrightarrow> conns (fst x) \<subseteq>\<^sub>m snd x \<and> ran (cam (fst x)) \<subseteq> dom (snd x) \<and>
     dom (snd x) \<subseteq> {0..<nextConnID (fst x)} \<and> 0 \<le> nextConnID (fst x)"

lemma learns_sel:
  "learns A s t \<Longrightarrow> conns t = conns s \<and> nextConnID t = nextConnID s \<and> gateway t = gateway s"
  by (induction rule: learns.induct) auto

lemma learns_ran: "learns A s t \<Longrightarrow> ran (cam s) \<subseteq> dom A \<Longrightarrow> ran (cam t) \<subseteq> dom A"
  by (induction rule: learns.induct) (auto simp: ran_def split: if_splits)

lemma map_le_ran: "m \<subseteq>\<^sub>m m' \<Longrightarrow> ran m \<subseteq> ran m'"
  by (auto simp: map_le_def ran_def dom_def) (metis option.distinct(1))

lemma ran_empty_map: "ran m = {} \<Longrightarrow> m x = None"
  by (cases "m x") (auto simp: ran_def)

lemma sw_inv_shrinks: "sw_inv (s, A) \<Longrightarrow> shrinks s t \<Longrightarrow> sw_inv (t, A)"
  using map_le_ran [of "cam t" "cam s"] map_le_trans [of "conns t" "conns s" A]
  by (auto simp: sw_inv_def shrinks_def)

lemma sw_inv_learns: "sw_inv (s, A) \<Longrightarrow> learns A s t \<Longrightarrow> sw_inv (t, A)"
  using learns_sel [of A s t] learns_ran [of A s t] by (auto simp: sw_inv_def)

lemma sw_inv_connect:
  assumes "sw_inv (s, A)" "connect s c = (s', cid, False)"
  shows "sw_inv (s', A(cid \<mapsto> c))"
proof -
  have s': "s' = s\<lparr>nextConnID := cid + 1, conns := (conns s)(cid \<mapsto> c)\<rparr>" "cid = nextConnID s"
    using assms(2) by (auto simp: connect_def Let_def)
  show ?thesis
    using assms(1) unfolding s'(1)
    by (auto simp: s'(2) sw_inv_def map_le_def)
qed

lemma sw_inv_disconnect: "sw_inv (s, A) \<Longrightarrow> sw_inv (disconnect s cid c, A(cid := None))"
  by (auto simp: sw_inv_def map_le_def ran_def split: if_splits)

lemma sw_inv_step: "sw_step E x y \<Longrightarrow> sw_inv x \<Longrightarrow> sw_inv y"
proof (induction rule: sw_step.induct)
  case (learned cid A s a)
  then show ?case using sw_inv_learns learns_step [OF learns_refl] by blast
next
  case (transmit s d t A s1 s' err)
  then show ?case using sw_inv_learns sw_inv_shrinks shrinks_tx_send by blast
qed (auto intro: sw_inv_connect sw_inv_disconnect, (simp add: sw_inv_def)+)

lemma sw_inv_reach: "sw_reach E x \<Longrightarrow> sw_inv x"
proof (induction rule: sw_reach.induct)
  case (sw_init debug mtu gw)
  show ?case by (simp add: sw_inv_def Connect_def NewSwitch_def)
next
  case (sw_next x y)
  then show ?case by (blast intro: sw_inv_step)
qed

text \<open>
  C9. Nothing outlives its goroutine: in every reachable configuration, connections and
  table entries belong to running goroutines, under numbers that were handed out and are
  never handed out again. When all goroutines have ended, the switch is empty.
\<close>

theorem switch_resources:
  assumes "sw_reach E (s, A)"
  shows "conns s \<subseteq>\<^sub>m A \<and> ran (cam s) \<subseteq> dom A \<and> sw_wf s \<and> A (nextConnID s) = None
    \<and> (A = Map.empty \<longrightarrow> conns s = Map.empty \<and> cam s = Map.empty)"
proof -
  have inv: "sw_inv (s, A)" using assms by (rule sw_inv_reach)
  then have d: "dom (conns s) \<subseteq> dom A" by (auto simp: sw_inv_def dest: map_le_implies_dom_le)
  have "sw_wf s" "A (nextConnID s) = None"
    using inv d by (fastforce simp: sw_inv_def sw_wf_def)+
  moreover have "A = Map.empty \<longrightarrow> conns s = Map.empty \<and> cam s = Map.empty"
    using inv d ran_empty_map [of "cam s"] by (auto simp: sw_inv_def)
  ultimately show ?thesis using inv by (simp add: sw_inv_def)
qed

lemma no_failure_conns:
  assumes "\<forall>h c b. write_result E h c b = None" "sw_reach E x"
  shows "conns (fst x) = snd x"
  using assms(2)
proof (induction rule: sw_reach.induct)
  case (sw_next x y)
  from sw_next.hyps(2) sw_next.IH show ?case
  proof (induction rule: sw_step.induct)
    case (transmit s d t A s1 s' err)
    then have "conns s1 = conns s" by (simp add: learns_sel)
    moreover have "conns s' = conns s1"
      using transmit(3) assms(1)
      by (auto simp: tx_send_def tx_broadcast_ok txBuf_def split: tx_dest.splits option.splits)
    ultimately show ?case using transmit by simp
  qed (auto simp: connect_def Let_def)
qed (simp add: Connect_def NewSwitch_def)

text \<open>
  C10. As long as writes do not fail, no interleaving makes the transmit path panic: whatever
  the other goroutines learn between the lookup and the write, the write finds a connection.
\<close>

theorem transmit_no_panic:
  assumes "\<forall>h c b. write_result E h c b = None" "sw_reach E (s, A)"
    and "tx_target s d = Ret t" "learns A s s1"
  shows "\<exists>s'. tx_send E s1 t d = Ret (s', None)"
proof (cases t)
  case (Unicast cid)
  have "cid \<in> ran (cam s)"
    using assms(3) Unicast by (auto simp: tx_target_def bind_exec_eq_Ret ran_def split: if_splits option.splits)
  moreover have "ran (cam s) \<subseteq> dom A" using sw_inv_reach [OF assms(2)] by (simp add: sw_inv_def)
  moreover have "conns s1 = A"
    using no_failure_conns [OF assms(1,2)] learns_sel [OF assms(4)] by simp
  ultimately have "cid \<in> dom (conns s1)" by blast
  then show ?thesis using Unicast assms(1) by (auto simp: tx_send_def txBuf_def)
qed (use assms(1) in \<open>simp_all add: tx_send_def tx_broadcast_ok\<close>)

text \<open>
  A failed write breaks this. Connection 0 has sent a frame, so its address is known; a
  write to it fails and disconnects it while its goroutine still processes a packet; that
  goroutine learns the address again. The configuration is reachable, and the next frame
  to the address makes \<open>txPkt\<close> panic on the missing connection.
\<close>

lemma stale_entry_panics:
  assumes "\<forall>h b. write_result E h 0 b = Some err"
    and "is_frame d" "frame_dst d \<noteq> EthernetBroadcastAddress"
  shows "\<exists>s A. sw_reach E (s, A) \<and> txPkt E s d = Panic"
proof -
  let ?c = "\<lparr>Conn = 0, protocolImpl = streamProto qemuProtocol\<rparr>"
  let ?A = "[0 \<mapsto> ?c] :: int \<rightharpoonup> protocolConn"
  let ?s0 = "Connect (NewSwitch False 1500) [0, 0, 0, 0, 0, 0]"
  let ?s1 = "fst (connect ?s0 ?c)"
  let ?s2 = "learn ?s1 (frame_dst d) 0"
  have "connect ?s0 ?c = (?s1, 0, False)" by (simp add: connect_def Connect_def NewSwitch_def Let_def)
  then have "sw_step E (?s0, Map.empty) (?s1, ?A)" by (rule accept)
  then have r1: "sw_reach E (?s1, ?A)" by (rule sw_next [OF sw_init])
  moreover have "sw_step E (?s1, ?A) (?s2, ?A)" by (rule learned) simp
  ultimately have r2: "sw_reach E (?s2, ?A)" by (rule sw_next)
  have "conns ?s2 0 = Some ?c" by (simp add: connect_def Connect_def NewSwitch_def Let_def)
  then obtain s3 where s3: "tx_send E ?s2 (Unicast 0) d = Ret (s3, Some err)" "conns s3 0 = None"
    using assms(1) by (simp add: tx_send_def txBuf_def)
  have "tx_target ?s2 d = Ret (Unicast 0)" using assms(2,3) by (simp add: tx_target_frame)
  then have "sw_step E (?s2, ?A) (s3, ?A)" using learns_refl s3(1) by (rule transmit)
  then have "sw_reach E (s3, ?A)" by (rule sw_next [OF r2])
  moreover have "sw_step E (s3, ?A) (learn s3 (frame_dst d) 0, ?A)" by (rule learned) simp
  ultimately have "sw_reach E (learn s3 (frame_dst d) 0, ?A)" by (rule sw_next)
  moreover have "txPkt E (learn s3 (frame_dst d) 0) d = Panic"
    using assms(2,3) s3(2) by (simp add: txPkt_def tx_target_frame tx_send_def)
  ultimately show ?thesis by blast
qed

subsection \<open>A small switch\<close>

text \<open>
  Two qemu connections and a gateway; address \<open>host_a\<close> is known on connection 0. All writes
  succeed, and the loop over the connections goes in numeric order.
\<close>

definition gw_mac :: LinkAddress where "gw_mac = [90, 148, 239, 228, 12, 221]"

definition host_a :: LinkAddress where "host_a = [90, 148, 239, 228, 12, 238]"

definition sample_frame :: "LinkAddress \<Rightarrow> LinkAddress \<Rightarrow> bytes" where
  "sample_frame dst src = dst @ src @ [8, 0, 69, 0]"

definition qemu_conn :: "nat \<Rightarrow> protocolConn" where
  "qemu_conn h = \<lparr>Conn = h, protocolImpl = streamProto qemuProtocol\<rparr>"

definition two_conns :: switch where
  "two_conns = \<lparr>Sent = 0, Received = 0, sw_debug = False, maxTransmissionUnit = 1500, nextConnID = 2,
     conns = [0 \<mapsto> qemu_conn 7, 1 \<mapsto> qemu_conn 8], cam = [host_a \<mapsto> 0], gateway = Some gw_mac, trace = []\<rparr>"

definition quiet_env :: net_env where
  "quiet_env = \<lparr>write_result = (\<lambda>h c b. None),
     range_conns = (\<lambda>h m. case m 0 of Some c \<Rightarrow> (case m 1 of Some d \<Rightarrow> [(0, c), (1, d)] | None \<Rightarrow> [(0, c)]) | None \<Rightarrow> [])\<rparr>"

definition failing_env :: net_env where
  "failing_env = \<lparr>write_result = (\<lambda>h c b. Some ''broken pipe''), range_conns = (\<lambda>h m. [])\<rparr>"

lemma sample_macs [simp]:
  "length gw_mac = 6" "length host_a = 6" "length EthernetBroadcastAddress = 6"
  "gw_mac \<noteq> host_a" "host_a \<noteq> gw_mac" "gw_mac \<noteq> EthernetBroadcastAddress"
  "host_a \<noteq> EthernetBroadcastAddress" "EthernetBroadcastAddress \<noteq> gw_mac"
  by (simp_all add: gw_mac_def host_a_def EthernetBroadcastAddress_def)

lemma sample_frame_simps [simp]:
  assumes "length dst = 6" "length src = 6"
  shows "is_frame (sample_frame dst src)" "frame_dst (sample_frame dst src) = dst"
    "frame_src (sample_frame dst src) = src" "frame_type (sample_frame dst src) = 2048"
    "length (sample_frame dst src) = 16" "drop 14 (sample_frame dst src) = [69, 0]"
  using assms
  by (simp_all add: sample_frame_def is_frame_def EthernetMinimumSize_def frame_dst_def frame_src_def
      frame_type_def Uint16_BE_def)

lemma two_conns_simps [simp]:
  "Sent two_conns = 0" "Received two_conns = 0" "nextConnID two_conns = 2"
  "conns two_conns = [0 \<mapsto> qemu_conn 7, 1 \<mapsto> qemu_conn 8]" "cam two_conns = [host_a \<mapsto> 0]"
  "gateway two_conns = Some gw_mac" "trace two_conns = []"
  by (simp_all add: two_conns_def)

lemma qemu_conn_simps [simp]:
  "Conn (qemu_conn h) = h" "wire_bytes (protocolImpl (qemu_conn h)) d = framed qemuProtocol d"
  by (simp_all add: qemu_conn_def wire_bytes_def)

lemma sample_env_simps [simp]:
  "write_result quiet_env h c b = None" "write_result failing_env h c b = Some ''broken pipe''"
  "range_conns quiet_env h [0 \<mapsto> p, 1 \<mapsto> q] = [(0, p), (1, q)]" "range_conns failing_env h m = []"
  by (simp_all add: quiet_env_def failing_env_def)

lemma two_conns_ok [simp]: "cam_ok two_conns" "sw_wf two_conns" "range_ok quiet_env two_conns"
  by (auto simp: cam_ok_def sw_wf_def range_ok_def enumerates_def fun_eq_iff split: if_splits)

theorem txPkt_unicast_witness:
  "\<exists>s'. txPkt quiet_env two_conns (sample_frame host_a gw_mac) = Ret (s', None)
    \<and> trace s' = [Wrote 7 (framed qemuProtocol (sample_frame host_a gw_mac))] \<and> Sent s' = 16"
  using txPkt_unicast [of "sample_frame host_a gw_mac" two_conns 0 "qemu_conn 7" quiet_env] by simp

theorem txPkt_broadcast_witness:
  "\<exists>s'. txPkt quiet_env two_conns (sample_frame EthernetBroadcastAddress host_a) = Ret (s', None)"
  using txPkt_broadcast [of "sample_frame EthernetBroadcastAddress host_a" two_conns quiet_env] by auto

theorem reply_reaches_sender_witness:
  "\<exists>s' s''. rxBuf quiet_env two_conns 1 (exact_slice (sample_frame gw_mac host_a)) = Ret s'
    \<and> DeliverNetworkPacket quiet_env s' (sample_frame host_a gw_mac) = Ret s''
    \<and> last (trace s'') = Wrote 8 (framed qemuProtocol (sample_frame host_a gw_mac))"
proof -
  let ?b = "exact_slice (sample_frame gw_mac host_a)"
  obtain s' where "rxBuf quiet_env two_conns 1 ?b = Ret s'" by (simp add: rxBuf_frame)
  then show ?thesis
    using reply_reaches_sender
      [of ?b two_conns gw_mac 1 "qemu_conn 8" quiet_env s' "sample_frame host_a gw_mac"] by auto
qed

theorem rxStream_framed_witness:
  "\<exists>s'. rxStream quiet_env (\<lambda>_. False) ''EOF'' 1 qemuProtocol 0 two_conns
      (concat (map (framed qemuProtocol) [sample_frame gw_mac host_a]))
    = Ret (s', Some (Wrap ''EOF'' ''cannot read size from socket''))"
  using rxStream_framed
    [of "[sample_frame gw_mac host_a]" qemuProtocol "\<lambda>_. False" quiet_env "''EOF''" 1 0 two_conns]
  by (simp add: rxBuf_frame)

theorem switch_resources_witness:
  "sw_wf (Connect (NewSwitch False 1500) gw_mac)"
  using switch_resources [OF sw_init [of quiet_env False 1500 gw_mac]] by simp

theorem transmit_no_panic_witness:
  "\<exists>s'. tx_send quiet_env (Connect (NewSwitch False 1500) gw_mac) NoRoute (sample_frame host_a gw_mac)
    = Ret (s', None)"
  using transmit_no_panic [of quiet_env _ _ "sample_frame host_a gw_mac" NoRoute,
    OF _ sw_init [of quiet_env False 1500 gw_mac] _ learns_refl]
  by (simp add: tx_target_frame Connect_def NewSwitch_def)

end
