(* ===== verification/Link.thy ===== *)
theory Link
  imports Switch
begin

text \<open>
  The gateway's side of the switch: the link endpoint of \<open>pkg/tap/link.go\<close>, which the
  network stack uses as its network card.

  Outgoing packets get an Ethernet header and go to the switch, except ARP replies about
  addresses that are not the gateway's: a forwarder in promiscuous mode makes the stack answer
  for every address, and the endpoint drops those answers. Incoming packets go to the
  dispatcher of the stack, which is recorded as an event.
\<close>

subsection \<open>State\<close>

record LinkEndpoint =
  le_debug :: bool
  le_mtu :: int
  le_mac :: LinkAddress
  le_ip :: string
  virtualIPs :: "string set"
  dispatcher :: bool
  networkSwitch :: bool

record RouteInfo =
  LocalLinkAddress :: LinkAddress
  RemoteLinkAddress :: LinkAddress

text \<open>A packet of the stack: its network header and everything after it.\<close>

record PacketBuffer =
  pk_route :: RouteInfo
  pk_protocol :: "16 word"
  NetworkHeader :: bytes
  pk_rest :: bytes

definition NewLinkEndpoint ::
  "bool \<Rightarrow> int \<Rightarrow> string \<Rightarrow> string \<Rightarrow> string list \<Rightarrow> LinkEndpoint result" where
  "NewLinkEndpoint debug mtu macAddress addr vips =
     (case ParseMAC macAddress of
        Inl err \<Rightarrow> Inl err
      | Inr linkAddr \<Rightarrow> Inr \<lparr>le_debug = debug, le_mtu = mtu, le_mac = linkAddr, le_ip = addr,
          virtualIPs = set vips, dispatcher = False, networkSwitch = False\<rparr>)"

definition ARPHardwareType :: "LinkEndpoint \<Rightarrow> 16 word" where
  "ARPHardwareType e = ARPHardwareEther"

definition link_Connect :: "LinkEndpoint \<Rightarrow> LinkEndpoint" where
  "link_Connect e = e\<lparr>networkSwitch := True\<rparr>"

definition Attach :: "LinkEndpoint \<Rightarrow> bool \<Rightarrow> LinkEndpoint" where
  "Attach e d = e\<lparr>dispatcher := d\<rparr>"

definition IsAttached :: "LinkEndpoint \<Rightarrow> bool" where
  "IsAttached e = dispatcher e"

text \<open>What the dispatcher is called with.\<close>

definition link_Deliver :: "LinkEndpoint \<Rightarrow> 16 word \<Rightarrow> bytes \<Rightarrow> (16 word \<times> bytes) exec" where
  "link_Deliver e proto pkt = (if dispatcher e then Ret (proto, pkt) else Panic)"

definition ParseHeader :: "bytes \<Rightarrow> bool" where
  "ParseHeader pkt = True"

text \<open>The packet is not changed: \<open>writePacket\<close> writes the header itself.\<close>

definition AddHeader :: "bytes \<Rightarrow> bytes" where
  "AddHeader pkt = pkt"

definition CapabilityTXChecksumOffload :: "64 word" where "CapabilityTXChecksumOffload = push_bit 1 1"
definition CapabilityRXChecksumOffload :: "64 word" where "CapabilityRXChecksumOffload = push_bit 2 1"
definition CapabilityResolutionRequired :: "64 word" where "CapabilityResolutionRequired = push_bit 3 1"

definition Capabilities :: "64 word" where
  "Capabilities = CapabilityResolutionRequired OR CapabilityRXChecksumOffload"

text \<open>The stack skips verifying checksums of packets from a virtual machine but computes those it sends.\<close>

lemma Capabilities_checksums:
  "Capabilities AND CapabilityRXChecksumOffload \<noteq> 0" "Capabilities AND CapabilityTXChecksumOffload = 0"
  by (simp_all add: Capabilities_def CapabilityRXChecksumOffload_def CapabilityTXChecksumOffload_def CapabilityResolutionRequired_def)

definition link_LinkAddress :: "LinkEndpoint \<Rightarrow> LinkAddress" where
  "link_LinkAddress e = le_mac e"

definition MaxHeaderLength :: "16 word" where
  "MaxHeaderLength = of_nat EthernetMinimumSize"

definition link_MTU :: "LinkEndpoint \<Rightarrow> 32 word" where
  "link_MTU e = of_int (le_mtu e)"

definition link_IP :: "LinkEndpoint \<Rightarrow> string" where
  "link_IP e = le_ip e"

definition WriteRawPacket :: "bytes \<Rightarrow> gerror" where
  "WriteRawPacket pkt = ''operation not supported''"

subsection \<open>Sending\<close>

definition writePacket ::
  "net_env \<Rightarrow> LinkEndpoint \<Rightarrow> switch \<Rightarrow> PacketBuffer \<Rightarrow> switch exec" where
  "writePacket E e s p =
     (let r = pk_route p;
          srcAddr = (if LocalLinkAddress r \<noteq> [] then LocalLinkAddress r else link_LinkAddress e);
          eth = EthernetEncode \<lparr>SrcAddr = srcAddr, DstAddr = RemoteLinkAddress r, Type = pk_protocol p\<rparr>;
          h = NetworkHeader p;
          addr = Address_String (AddrFromSlice (ProtocolAddressSender h))
      in if ARP_IsValid h \<and> ARP_Op h = ARPReply \<and> addr \<noteq> link_IP e \<and> addr \<notin> virtualIPs e
         then Ret s
         else if networkSwitch e then DeliverNetworkPacket E s (eth @ h @ pk_rest p)
         else Panic)"

fun WritePackets ::
  "net_env \<Rightarrow> LinkEndpoint \<Rightarrow> switch \<Rightarrow> PacketBuffer list \<Rightarrow> (switch \<times> nat) exec" where
  "WritePackets E e s [] = Ret (s, 0)"
| "WritePackets E e s (p # ps) =
     bind_exec (writePacket E e s p) (\<lambda>s'.
     bind_exec (WritePackets E e s' ps) (\<lambda>(s'', n). Ret (s'', Suc n)))"

text \<open>An ARP reply of the stack: it binds \<open>spa\<close> to the hardware address \<open>sha\<close>.\<close>

definition arp_reply :: "bytes \<Rightarrow> bytes \<Rightarrow> bytes \<Rightarrow> bytes" where
  "arp_reply sha spa target = [0, 1, 8, 0, 6, 4, 0, 2] @ sha @ spa @ target"

definition own_address :: "LinkEndpoint \<Rightarrow> bytes \<Rightarrow> bool" where
  "own_address e a \<longleftrightarrow> dotted a = le_ip e \<or> dotted a \<in> virtualIPs e"

lemma arp_reply_header:
  assumes "length sha = 6" "length spa = 4" "length target = 10"
  shows "ARP_IsValid (arp_reply sha spa target)" "ARP_Op (arp_reply sha spa target) = ARPReply"
    "ProtocolAddressSender (arp_reply sha spa target) = spa"
  using assms
  by (simp_all add: arp_reply_def ARP_IsValid_def ARP_Op_def ARPSize_def ARPHardwareEther_def
      IPv4ProtocolNumber_def ARPReply_def ProtocolAddressSender_def Uint16_BE_def)


lemma writePacket_not_arp:
  assumes "\<not> ARP_IsValid (NetworkHeader p)" "networkSwitch e" "LocalLinkAddress (pk_route p) = []"
  shows "writePacket E e s p = DeliverNetworkPacket E s
    (EthernetEncode \<lparr>SrcAddr = le_mac e, DstAddr = RemoteLinkAddress (pk_route p), Type = pk_protocol p\<rparr>
     @ NetworkHeader p @ pk_rest p)"
  using assms by (simp add: writePacket_def Let_def link_LinkAddress_def)

text \<open>
  IPv4 traffic is not affected by the ARP filter: an IPv4 packet routed to a known
  hardware address is written to the connection of that address, as the packet with an
  Ethernet header for it, and to nothing else.
\<close>

lemma writePacket_ipv4:
  assumes "drop_bit 4 (NetworkHeader p ! 0) = 4" "networkSwitch e" "LocalLinkAddress (pk_route p) = []"
    and "length (RemoteLinkAddress (pk_route p)) = 6"
    and "RemoteLinkAddress (pk_route p) \<noteq> EthernetBroadcastAddress"
    and "cam s (RemoteLinkAddress (pk_route p)) = Some cid" "conns s cid = Some c"
    and "\<forall>h k b. write_result E h k b = None"
  shows "\<exists>f s'. writePacket E e s p = Ret s' \<and> drop 14 f = NetworkHeader p @ pk_rest p
    \<and> frame_dst f = RemoteLinkAddress (pk_route p) \<and> frame_src f = copy6 (le_mac e)
    \<and> frame_type f = pk_protocol p \<and> trace s' = trace s @ [Wrote (Conn c) (wire_bytes (protocolImpl c) f)]"
proof -
  let ?f = "EthernetEncode \<lparr>SrcAddr = le_mac e, DstAddr = RemoteLinkAddress (pk_route p), Type = pk_protocol p\<rparr>
     @ NetworkHeader p @ pk_rest p"
  have "writePacket E e s p = DeliverNetworkPacket E s ?f"
    using writePacket_not_arp [OF IPv4_header_not_ARP [OF assms(1)] assms(2,3)] .
  then show ?thesis
    using assms
    by (intro exI [of _ ?f])
      (simp add: DeliverNetworkPacket_def tx_def txPkt_def tx_target_frame tx_send_def txBuf_def)
qed

lemma writePacket_returns:
  assumes "networkSwitch e" "cam_ok s"
  shows "\<exists>s'. writePacket E e s p = Ret s' \<and> cam_ok s'"
proof -
  let ?f = "EthernetEncode \<lparr>SrcAddr = (if LocalLinkAddress (pk_route p) \<noteq> []
      then LocalLinkAddress (pk_route p) else le_mac e), DstAddr = RemoteLinkAddress (pk_route p),
      Type = pk_protocol p\<rparr> @ NetworkHeader p @ pk_rest p"
  obtain s' err where "tx E s ?f = Ret (s', err)" "cam_ok s'"
    using tx_returns [OF _ assms(2), of ?f E] by auto
  then show ?thesis
    using assms by (auto simp: writePacket_def Let_def link_LinkAddress_def DeliverNetworkPacket_def)
qed

text \<open>
  A batch is written completely: as long as the table points to open connections,
  \<open>WritePackets\<close> reports all packets as written, whatever they are and whatever the
  writes of the switch return, and leaves such a table.
\<close>

lemma WritePackets_all:
  assumes "networkSwitch e" "cam_ok s"
  shows "\<exists>s'. WritePackets E e s ps = Ret (s', length ps) \<and> cam_ok s'"
  using assms(2)
proof (induction ps arbitrary: s)
  case (Cons p ps)
  obtain s1 where s1: "writePacket E e s p = Ret s1" "cam_ok s1"
    using writePacket_returns [OF assms(1) Cons.prems] by blast
  then obtain s2 where "WritePackets E e s1 ps = Ret (s2, length ps)" "cam_ok s2"
    using Cons.IH by blast
  then show ?case using s1 by simp
qed simp

subsection \<open>An endpoint on the sample switch\<close>

definition sample_endpoint :: LinkEndpoint where
  "sample_endpoint = \<lparr>le_debug = False, le_mtu = 1500, le_mac = gw_mac, le_ip = ''192.168.127.1'',
     virtualIPs = {''192.168.127.254''}, dispatcher = True, networkSwitch = True\<rparr>"

definition sample_packet :: "bytes \<Rightarrow> PacketBuffer" where
  "sample_packet h = \<lparr>pk_route = \<lparr>LocalLinkAddress = [], RemoteLinkAddress = host_a\<rparr>,
     pk_protocol = 2048, NetworkHeader = h, pk_rest = [1, 2]\<rparr>"

lemma sample_endpoint_simps [simp]:
  "networkSwitch sample_endpoint" "le_ip sample_endpoint = ''192.168.127.1''"
  "virtualIPs sample_endpoint = {''192.168.127.254''}"
  "NetworkHeader (sample_packet h) = h" "pk_route (sample_packet h) = \<lparr>LocalLinkAddress = [], RemoteLinkAddress = host_a\<rparr>"
  by (simp_all add: sample_endpoint_def sample_packet_def)


end
