(* ===== verification/GoFlag.thy ===== *)
theory GoFlag
  imports GoNet
begin

text \<open>
  The \<open>flag\<close> package of Go as the commands use it: parsing the arguments one by one, and the setters
  of boolean and integer flags. Integers are read by \<open>strconv.ParseInt\<close> with base 0, which
  recognises the prefixes of the other bases and separating underscores.
\<close>

subsection \<open>strconv.ParseInt with base 0\<close>

datatype num_err = ErrSyntax | ErrRange

definition lower_bit :: "char \<Rightarrow> nat" where
  "lower_bit c = (let n = (of_char c :: nat) in if 65 \<le> n \<and> n \<le> 90 then n + 32 else n)"

definition digit_of :: "char \<Rightarrow> nat option" where
  "digit_of c =
     (let n = (of_char c :: nat) in
      if 48 \<le> n \<and> n \<le> 57 then Some (n - 48)
      else if 97 \<le> lower_bit c \<and> lower_bit c \<le> 122 then Some (lower_bit c - 97 + 10)
      else None)"

text \<open>The digits of a number; the result also says whether there were underscores.\<close>

fun uint_loop :: "nat \<Rightarrow> nat \<Rightarrow> bool \<Rightarrow> string \<Rightarrow> num_err + nat \<times> bool" where
  "uint_loop base n us [] = Inr (n, us)"
| "uint_loop base n us (c # s) =
     (if c = CHR ''_'' then uint_loop base n True s
      else (case digit_of c of
          None \<Rightarrow> Inl ErrSyntax
        | Some d \<Rightarrow>
            if base \<le> d then Inl ErrSyntax
            else if 2 ^ 64 \<le> base * n + d then Inl ErrRange
            else uint_loop base (base * n + d) us s))"

definition base_prefix :: "string \<Rightarrow> nat \<times> string" where
  "base_prefix s =
     (if s \<noteq> [] \<and> hd s = CHR ''0'' then
        (if 3 \<le> length s \<and> lower_bit (s ! 1) = 98 then (2, drop 2 s)
         else if 3 \<le> length s \<and> lower_bit (s ! 1) = 111 then (8, drop 2 s)
         else if 3 \<le> length s \<and> lower_bit (s ! 1) = 120 then (16, drop 2 s)
         else (8, drop 1 s))
      else (10, s))"

text \<open>\<open>underscoreOK\<close>: underscores only between digits or after a prefix. The state is the class of the last character.\<close>

datatype saw = SawStart | SawDigit | SawUnderscore | SawOther

fun underscore_loop :: "bool \<Rightarrow> saw \<Rightarrow> string \<Rightarrow> bool" where
  "underscore_loop hex sw [] = (sw \<noteq> SawUnderscore)"
| "underscore_loop hex sw (c # s) =
     (if digit_val c \<noteq> None \<or> hex \<and> 97 \<le> lower_bit c \<and> lower_bit c \<le> 102 then underscore_loop hex SawDigit s
      else if c = CHR ''_'' then (if sw \<noteq> SawDigit then False else underscore_loop hex SawUnderscore s)
      else if sw = SawUnderscore then False
      else underscore_loop hex SawOther s)"

definition underscoreOK :: "string \<Rightarrow> bool" where
  "underscoreOK s0 =
     (let s = (if s0 \<noteq> [] \<and> (hd s0 = CHR ''-'' \<or> hd s0 = CHR ''+'') then tl s0 else s0)
      in if 2 \<le> length s \<and> hd s = CHR ''0'' \<and> lower_bit (s ! 1) \<in> {98, 111, 120}
         then underscore_loop (lower_bit (s ! 1) = 120) SawDigit (drop 2 s)
         else underscore_loop False SawStart s)"

definition ParseUint_0 :: "string \<Rightarrow> num_err + nat" where
  "ParseUint_0 s0 =
     (if s0 = [] then Inl ErrSyntax
      else (case base_prefix s0 of (base, s) \<Rightarrow>
        (case uint_loop base 0 False s of
           Inl err \<Rightarrow> Inl err
         | Inr (n, us) \<Rightarrow> if us \<and> \<not> underscoreOK s0 then Inl ErrSyntax else Inr n)))"

definition ParseInt_0 :: "string \<Rightarrow> num_err + int" where
  "ParseInt_0 s0 =
     (if s0 = [] then Inl ErrSyntax
      else let neg = (hd s0 = CHR ''-'');
               s = (if hd s0 = CHR ''-'' \<or> hd s0 = CHR ''+'' then tl s0 else s0)
           in (case ParseUint_0 s of
                 Inl err \<Rightarrow> Inl err
               | Inr un \<Rightarrow>
                   if \<not> neg \<and> 2 ^ 63 \<le> un then Inl ErrRange
                   else if neg \<and> 2 ^ 63 < un then Inl ErrRange
                   else Inr (if neg then - int un else int un)))"

definition numError :: "num_err \<Rightarrow> gerror" where
  "numError e = (case e of ErrSyntax \<Rightarrow> ''parse error'' | ErrRange \<Rightarrow> ''value out of range'')"

definition set_int :: "string \<Rightarrow> int result" where
  "set_int s = (case ParseInt_0 s of Inl e \<Rightarrow> Inl (numError e) | Inr i \<Rightarrow> Inr i)"

definition set_bool :: "string \<Rightarrow> bool result" where
  "set_bool s = (case ParseBool s of Inl _ \<Rightarrow> Inl ''parse error'' | Inr b \<Rightarrow> Inr b)"

subsection \<open>Parsing the arguments\<close>

text \<open>
  The flags of a command: \<open>formal name\<close> says whether a flag is defined and whether it is boolean;
  \<open>set name value\<close> stores a value.
\<close>

record 's flag_set =
  formal :: "string \<Rightarrow> bool option"
  flag_Set :: "string \<Rightarrow> string \<Rightarrow> 's \<Rightarrow> 's result"

datatype flag_error = FlagFailed gerror | ErrHelp

text \<open>The name of an argument and the value after its first equals sign (which cannot be first).\<close>

fun split_equals :: "string \<Rightarrow> string \<Rightarrow> string \<times> string option" where
  "split_equals acc [] = (acc, None)"
| "split_equals acc (c # s) = (if c = CHR ''='' \<and> acc \<noteq> [] then (acc, Some s) else split_equals (acc @ [c]) s)"

definition set_flag :: "'s flag_set \<Rightarrow> string \<Rightarrow> string \<Rightarrow> gerror \<Rightarrow> 's \<Rightarrow> flag_error + 's" where
  "set_flag fs name value what s =
     (case flag_Set fs name value s of Inl err \<Rightarrow> Inl (FlagFailed (what @ err)) | Inr s' \<Rightarrow> Inr s')"

fun flag_Parse :: "'s flag_set \<Rightarrow> string list \<Rightarrow> 's \<Rightarrow> flag_error + 's \<times> string list" where
  "flag_Parse fs [] s = Inr (s, [])"
| "flag_Parse fs (a # args) s =
     (if length a < 2 \<or> hd a \<noteq> CHR ''-'' then Inr (s, a # args)
      else if a = ''--'' then Inr (s, args)
      else (let body = (if a ! 1 = CHR ''-'' then drop 2 a else drop 1 a) in
        if hd body = CHR ''-'' \<or> hd body = CHR ''='' then Inl (FlagFailed (''bad flag syntax: '' @ a))
        else (case split_equals [] body of (name, value) \<Rightarrow>
          (case formal fs name of
             None \<Rightarrow>
               if name = ''help'' \<or> name = ''h'' then Inl ErrHelp
               else Inl (FlagFailed (''flag provided but not defined: -'' @ name))
           | Some True \<Rightarrow>
               (case set_flag fs name (case value of Some v \<Rightarrow> v | None \<Rightarrow> ''true'')
                   (case value of
                      Some v \<Rightarrow> ''invalid boolean value '' @ quote v @ '' for -'' @ name @ '': ''
                    | None \<Rightarrow> ''invalid boolean flag '' @ name @ '': '') s of
                  Inl err \<Rightarrow> Inl err
                | Inr s' \<Rightarrow> flag_Parse fs args s')
           | Some False \<Rightarrow>
               (case (value, args) of
                  (Some v, _) \<Rightarrow>
                    (case set_flag fs name v (''invalid value '' @ quote v @ '' for flag -'' @ name @ '': '') s of
                       Inl err \<Rightarrow> Inl err
                     | Inr s' \<Rightarrow> flag_Parse fs args s')
                | (None, v # args') \<Rightarrow>
                    (case set_flag fs name v (''invalid value '' @ quote v @ '' for flag -'' @ name @ '': '') s of
                       Inl err \<Rightarrow> Inl err
                     | Inr s' \<Rightarrow> flag_Parse fs args' s')
                | (None, []) \<Rightarrow> Inl (FlagFailed (''flag needs an argument: -'' @ name)))))))"

subsection \<open>Printed integers are read back\<close>

lemma digit_of_digit: "digit_val c = Some d \<Longrightarrow> digit_of c = Some d \<and> d < 10 \<and> c \<noteq> CHR ''_''"
  by (auto simp: digit_val_def digit_of_def Let_def split: if_splits)

lemma uint_loop_digits:
  assumes "parse_digits acc s = Some n" "n < 2 ^ 64"
  shows "uint_loop 10 acc us s = Inr (n, us)"
  using assms
proof (induction s arbitrary: acc)
  case (Cons c s)
  then obtain d where d: "digit_val c = Some d" "parse_digits (10 * acc + d) s = Some n"
    by (auto split: option.splits)
  moreover have "10 * acc + d < 2 ^ 64" using parse_digits_mono [OF d(2)] Cons.prems(2) by simp
  ultimately show ?case using digit_of_digit [OF d(1)] Cons by simp
qed simp

lemma digit_char_0: "digit_char 0 = CHR ''0''"
  by code_simp

lemma base_prefix_itoa: "base_prefix (itoa_nat n) = (if n = 0 then (8, []) else (10, itoa_nat n))"
proof (cases "n = 0")
  case True
  then show ?thesis by (simp add: base_prefix_def itoa_nat.simps digit_char_0)
next
  case False
  then have "hd (itoa_nat n) \<noteq> CHR ''0''" using itoa_nat_hd_zero [of n] by (auto simp: digit_char_0)
  then show ?thesis using False by (simp add: base_prefix_def)
qed

lemma ParseUint_0_itoa: "n < 2 ^ 64 \<Longrightarrow> ParseUint_0 (itoa_nat n) = Inr n"
  using uint_loop_digits [OF parse_digits_itoa [of n], of False]
  by (simp add: ParseUint_0_def base_prefix_itoa)

lemma ParseInt_0_Itoa:
  assumes "- (2 ^ 63) \<le> i" "i < 2 ^ 63"
  shows "ParseInt_0 (Itoa i) = Inr i"
proof (cases "i < 0")
  case True
  then have "nat (- i) \<le> 2 ^ 63" using assms by (simp add: nat_le_iff)
  then show ?thesis
    using True ParseUint_0_itoa [of "nat (- i)"] by (simp add: ParseInt_0_def Itoa_def)
next
  case False
  obtain c t where ct: "itoa_nat (nat i) = c # t" by (meson itoa_nat_not_Nil neq_Nil_conv)
  then have "digit_val c \<noteq> None" using itoa_nat_digits [of c "nat i"] by simp
  then have "c \<noteq> CHR ''-''" "c \<noteq> CHR ''+''" by (auto simp: digit_val_def)
  moreover have "nat i < 2 ^ 63" using False assms by (simp add: nat_less_iff)
  ultimately show ?thesis
    using False ParseUint_0_itoa [of "nat i"] ct by (simp add: ParseInt_0_def Itoa_def)
qed

lemma set_int_Itoa: "- (2 ^ 63) \<le> i \<Longrightarrow> i < 2 ^ 63 \<Longrightarrow> set_int (Itoa i) = Inr i"
  using ParseInt_0_Itoa by (simp add: set_int_def)

subsection \<open>Arguments that are a flag and its value\<close>

definition flag_name :: "string \<Rightarrow> bool" where
  "flag_name name \<longleftrightarrow> name \<noteq> [] \<and> hd name \<noteq> CHR ''-'' \<and> CHR ''='' \<notin> set name"

lemma split_equals_plain: "CHR ''='' \<notin> set s \<Longrightarrow> split_equals acc s = (acc @ s, None)"
  by (induction s arbitrary: acc) auto

lemma flag_name_arg:
  assumes "flag_name name"
  shows "2 \<le> length (CHR ''-'' # name)" "CHR ''-'' # name \<noteq> ''--''" "(CHR ''-'' # name) ! 1 \<noteq> CHR ''-''"
    and "hd name \<noteq> CHR ''=''" "split_equals [] name = (name, None)"
  using assms split_equals_plain [of name "[]"] by (cases name; force simp: flag_name_def)+

lemma flag_Parse_value:
  assumes "flag_name name" "formal fs name = Some False" "flag_Set fs name v s = Inr s'"
  shows "flag_Parse fs ((CHR ''-'' # name) # v # args) s = flag_Parse fs args s'"
  using flag_name_arg [OF assms(1)] assms by (simp add: set_flag_def flag_name_def Let_def)

lemma flag_Parse_bool:
  assumes "flag_name name" "formal fs name = Some True" "flag_Set fs name ''true'' s = Inr s'"
  shows "flag_Parse fs ((CHR ''-'' # name) # args) s = flag_Parse fs args s'"
  using flag_name_arg [OF assms(1)] assms by (simp add: set_flag_def flag_name_def Let_def)

declare flag_Parse.simps(2) [simp del]

text \<open>Several flags set one after the other.\<close>

fun set_all :: "'s flag_set \<Rightarrow> (string \<times> string) list \<Rightarrow> 's \<Rightarrow> 's result" where
  "set_all fs [] s = Inr s"
| "set_all fs ((name, v) # ps) s = (case flag_Set fs name v s of Inl err \<Rightarrow> Inl err | Inr s' \<Rightarrow> set_all fs ps s')"

definition flag_args :: "(string \<times> string) list \<Rightarrow> string list" where
  "flag_args ps = concat (map (\<lambda>(name, v). [CHR ''-'' # name, v]) ps)"

subsection \<open>The contract of a command with flags\<close>

text \<open>
  A command defines the names of the flags that take a value. Whoever builds its command line can
  rely on the value being taken as it is, even if it looks like a flag.
\<close>

locale flag_command =
  fixes fs :: "'s flag_set"
    and value_flags :: "string list"
  assumes value_flag: "name \<in> set value_flags \<Longrightarrow> flag_name name \<and> formal fs name = Some False"
begin

lemma parse_value:
  assumes "name \<in> set value_flags" "flag_Set fs name v s = Inr s'"
  shows "flag_Parse fs ((CHR ''-'' # name) # v # args) s = flag_Parse fs args s'"
  using value_flag [OF assms(1)] assms(2) by (intro flag_Parse_value) simp_all

lemma parse_all:
  assumes "fst ` set ps \<subseteq> set value_flags" "set_all fs ps s = Inr s'"
  shows "flag_Parse fs (flag_args ps @ args) s = flag_Parse fs args s'"
  using assms
proof (induction ps arbitrary: s)
  case (Cons p ps)
  obtain name v where p: "p = (name, v)" by fastforce
  obtain s1 where s1: "flag_Set fs name v s = Inr s1" "set_all fs ps s1 = Inr s'"
    using Cons.prems(2) p by (auto split: sum.splits)
  have "name \<in> set value_flags" using Cons.prems(1) p by simp
  from parse_value [OF this s1(1)] show ?case using Cons.IH [OF _ s1(2)] Cons.prems(1) p by (simp add: flag_args_def)
qed (simp add: flag_args_def)

end

end
