(* ===== verification/GoURL.thy ===== *)
theory GoURL
  imports GoNet
begin

text \<open>
  \<open>net/url\<close> as the program uses it: \<open>Parse\<close>, the accessors of the host, and the query. The parser
  follows the standard library step by step: control characters, scheme, query, authority
  with user information and port, and percent-decoding with the rules of each part.

  The lemmas are the forms the program's own endpoints have: a scheme with a path
  (\<open>unix:///run/x.sock\<close>) and a scheme with host, port and path (\<open>vsock://3:1024/connect\<close>) are
  parsed into exactly those parts.
\<close>

subsection \<open>Characters\<close>

definition is_upper :: "char \<Rightarrow> bool" where
  "is_upper c \<longleftrightarrow> 65 \<le> (of_char c :: nat) \<and> of_char c \<le> (90 :: nat)"

definition is_lower :: "char \<Rightarrow> bool" where
  "is_lower c \<longleftrightarrow> 97 \<le> (of_char c :: nat) \<and> of_char c \<le> (122 :: nat)"

definition is_digit :: "char \<Rightarrow> bool" where
  "is_digit c \<longleftrightarrow> digit_val c \<noteq> None"

definition is_alnum :: "char \<Rightarrow> bool" where
  "is_alnum c \<longleftrightarrow> is_upper c \<or> is_lower c \<or> is_digit c"

definition lower_char :: "char \<Rightarrow> char" where
  "lower_char c = (if is_upper c then char_of (of_char c + 32 :: nat) else c)"

definition ToLower :: "string \<Rightarrow> string" where
  "ToLower s = map lower_char s"

definition is_ctl :: "char \<Rightarrow> bool" where
  "is_ctl c \<longleftrightarrow> (of_char c :: nat) < 32 \<or> of_char c = (127 :: nat)"

text \<open>\<open>strings.Cut\<close> at one character.\<close>

fun Cut :: "string \<Rightarrow> char \<Rightarrow> string \<times> string \<times> bool" where
  "Cut [] sep = ([], [], False)"
| "Cut (c # s) sep =
     (if c = sep then ([], s, True) else (case Cut s sep of (a, b, ok) \<Rightarrow> (c # a, b, ok)))"

subsection \<open>Percent-decoding\<close>

datatype encoding = encodePath | encodeHost | encodeZone | encodeUserPassword | encodeQueryComponent | encodeFragment

definition host_ok :: "char \<Rightarrow> bool" where
  "host_ok c \<longleftrightarrow> is_alnum c \<or> c \<in> set ''!$&()*+,;=:[]<>-_.~'' \<or> c = CHR 0x27 \<or> c = CHR 0x22"

definition escape_error :: "string \<Rightarrow> gerror" where
  "escape_error s = ''invalid URL escape '' @ quote s"

fun unescape :: "encoding \<Rightarrow> string \<Rightarrow> string result" where
  "unescape mode [] = Inr []"
| "unescape mode (c # s) =
     (if c = CHR ''%'' then
        (case s of
           a # b # r \<Rightarrow>
             (case (hex_val a, hex_val b) of
                (Some x, Some y) \<Rightarrow>
                  if mode = encodeHost \<and> x < 8 \<and> [a, b] \<noteq> ''25'' then Inl (escape_error [c, a, b])
                  else if mode = encodeZone \<and> [a, b] \<noteq> ''25'' \<and> 16 * x + y \<noteq> 32 \<and> \<not> host_ok (char_of (16 * x + y))
                  then Inl (escape_error [c, a, b])
                  else (case unescape mode r of Inl e \<Rightarrow> Inl e | Inr t \<Rightarrow> Inr (char_of (16 * x + y) # t))
              | _ \<Rightarrow> Inl (escape_error (take 3 (c # s))))
         | _ \<Rightarrow> Inl (escape_error (take 3 (c # s))))
      else if mode \<in> {encodeHost, encodeZone} \<and> (of_char c :: nat) < 128 \<and> c \<noteq> CHR ''+'' \<and> \<not> host_ok c
      then Inl (''invalid character '' @ quote [c] @ '' in host name'')
      else (case unescape mode s of Inl e \<Rightarrow> Inl e
         | Inr t \<Rightarrow> Inr ((if c = CHR ''+'' \<and> mode = encodeQueryComponent then CHR '' '' else c) # t)))"

subsection \<open>URLs\<close>

record URL =
  Scheme :: string
  Opaque :: string
  url_User :: "(string \<times> string option) option"
  url_Host :: string
  url_Path :: string
  RawQuery :: string
  Fragment :: string

definition empty_URL :: URL where
  "empty_URL = \<lparr>Scheme = [], Opaque = [], url_User = None, url_Host = [], url_Path = [], RawQuery = [], Fragment = []\<rparr>"

definition url_errorf :: "string \<Rightarrow> gerror \<Rightarrow> gerror" where
  "url_errorf u e = ''parse '' @ quote u @ '': '' @ e"

text \<open>\<open>getScheme\<close>; the first argument says whether characters were read already.\<close>

fun getScheme :: "string \<Rightarrow> string \<Rightarrow> (string \<times> string) result" where
  "getScheme acc [] = Inr ([], acc)"
| "getScheme acc (c # s) =
     (if is_upper c \<or> is_lower c then getScheme (acc @ [c]) s
      else if is_digit c \<or> c \<in> set ''+-.'' then (if acc = [] then Inr ([], c # s) else getScheme (acc @ [c]) s)
      else if c = CHR '':'' then (if acc = [] then Inl ''missing protocol scheme'' else Inr (acc, s))
      else Inr ([], acc @ c # s))"

definition validOptionalPort :: "string \<Rightarrow> bool" where
  "validOptionalPort p \<longleftrightarrow> p = [] \<or> (hd p = CHR '':'' \<and> list_all is_digit (tl p))"

text \<open>\<open>strings.Index\<close> of a substring.\<close>

fun Index :: "string \<Rightarrow> string \<Rightarrow> nat option" where
  "Index [] sub = (if sub = [] then Some 0 else None)"
| "Index (c # s) sub = (if HasPrefix (c # s) sub then Some 0 else map_option Suc (Index s sub))"

definition parseHost :: "string \<Rightarrow> string result" where
  "parseHost host =
     (if HasPrefix host ''['' then
        (case last_index host (CHR '']'') of
           None \<Rightarrow> Inl (''missing '' @ quote '']'' @ '' in host'')
         | Some i \<Rightarrow>
             if \<not> validOptionalPort (drop (Suc i) host)
             then Inl (''invalid port '' @ quote (drop (Suc i) host) @ '' after host'')
             else (case Index (take i host) ''%25'' of
                 None \<Rightarrow> unescape encodeHost host
               | Some zone \<Rightarrow>
                   (case (unescape encodeHost (take zone host), unescape encodeZone (drop zone (take i host)),
                      unescape encodeHost (drop i host)) of
                      (Inr a, Inr b, Inr c) \<Rightarrow> Inr (a @ b @ c)
                    | (Inl e, _, _) \<Rightarrow> Inl e
                    | (Inr _, Inl e, _) \<Rightarrow> Inl e
                    | (Inr _, Inr _, Inl e) \<Rightarrow> Inl e)))
      else (case last_index host (CHR '':'') of
          Some i \<Rightarrow>
            if \<not> validOptionalPort (drop i host)
            then Inl (''invalid port '' @ quote (drop i host) @ '' after host'')
            else unescape encodeHost host
        | None \<Rightarrow> unescape encodeHost host))"

definition validUserinfo :: "string \<Rightarrow> bool" where
  "validUserinfo s \<longleftrightarrow> list_all (\<lambda>c. is_alnum c \<or> c \<in> set ''-._:~!$&()*+,;=%@'' \<or> c = CHR 0x27) s"

definition parseAuthority :: "string \<Rightarrow> ((string \<times> string option) option \<times> string) result" where
  "parseAuthority authority =
     (case last_index authority (CHR ''@'') of
        None \<Rightarrow> (case parseHost authority of Inl e \<Rightarrow> Inl e | Inr h \<Rightarrow> Inr (None, h))
      | Some i \<Rightarrow>
          (case parseHost (drop (Suc i) authority) of
             Inl e \<Rightarrow> Inl e
           | Inr h \<Rightarrow>
               (let userinfo = take i authority in
                if \<not> validUserinfo userinfo then Inl ''net/url: invalid userinfo''
                else if CHR '':'' \<notin> set userinfo then
                  (case unescape encodeUserPassword userinfo of Inl e \<Rightarrow> Inl e | Inr u \<Rightarrow> Inr (Some (u, None), h))
                else (case Cut userinfo (CHR '':'') of (username, password, _) \<Rightarrow>
                  (case (unescape encodeUserPassword username, unescape encodeUserPassword password) of
                     (Inr u, Inr p) \<Rightarrow> Inr (Some (u, Some p), h)
                   | (Inl e, _) \<Rightarrow> Inl e
                   | (Inr _, Inl e) \<Rightarrow> Inl e)))))"

definition split_query :: "string \<Rightarrow> string \<times> string" where
  "split_query rest =
     (if HasSuffix rest ''?'' \<and> count_list rest (CHR ''?'') = 1 then (butlast rest, [])
      else (case Cut rest (CHR ''?'') of (a, b, _) \<Rightarrow> (a, b)))"

definition set_path :: "URL \<Rightarrow> string \<Rightarrow> URL result" where
  "set_path u p = (case unescape encodePath p of Inl e \<Rightarrow> Inl e | Inr path \<Rightarrow> Inr (u\<lparr>url_Path := path\<rparr>))"

definition parse_rest :: "string \<Rightarrow> string \<Rightarrow> URL result" where
  "parse_rest scheme rest0 =
     (let (rest, q) = split_query rest0;
          u = empty_URL\<lparr>Scheme := ToLower scheme, RawQuery := q\<rparr>
      in if \<not> HasPrefix rest ''/'' \<and> scheme \<noteq> [] then Inr (u\<lparr>Opaque := rest\<rparr>)
         else if \<not> HasPrefix rest ''/'' \<and> CHR '':'' \<in> set (fst (Cut rest (CHR ''/'')))
         then Inl ''first path segment in URL cannot contain colon''
         else if (scheme \<noteq> [] \<or> \<not> HasPrefix rest ''///'') \<and> HasPrefix rest ''//'' then
           (let r = drop 2 rest;
                (authority, path) = (case IndexByte r (CHR ''/'') of None \<Rightarrow> (r, []) | Some i \<Rightarrow> (take i r, drop i r))
            in case parseAuthority authority of
                 Inl e \<Rightarrow> Inl e
               | Inr (user, host) \<Rightarrow> set_path (u\<lparr>url_User := user, url_Host := host\<rparr>) path)
         else set_path u rest)"

definition parse_url :: "string \<Rightarrow> URL result" where
  "parse_url rawURL =
     (if list_ex is_ctl rawURL then Inl ''net/url: invalid control character in URL''
      else if rawURL = ''*'' then Inr (empty_URL\<lparr>url_Path := ''*''\<rparr>)
      else (case getScheme [] rawURL of Inl e \<Rightarrow> Inl e | Inr (scheme, rest) \<Rightarrow> parse_rest scheme rest))"

definition url_Parse :: "string \<Rightarrow> URL result" where
  "url_Parse rawURL =
     (case Cut rawURL (CHR ''#'') of (u, frag, _) \<Rightarrow>
       (case parse_url u of
          Inl e \<Rightarrow> Inl (url_errorf u e)
        | Inr url \<Rightarrow>
            if frag = [] then Inr url
            else (case unescape encodeFragment frag of
                Inl e \<Rightarrow> Inl (url_errorf rawURL e)
              | Inr f \<Rightarrow> Inr (url\<lparr>Fragment := f\<rparr>))))"

subsection \<open>Accessors\<close>

definition url_splitHostPort :: "string \<Rightarrow> string \<times> string" where
  "url_splitHostPort hostPort =
     (let (host, port) =
        (case last_index hostPort (CHR '':'') of
           Some i \<Rightarrow> if validOptionalPort (drop i hostPort) then (take i hostPort, drop (Suc i) hostPort) else (hostPort, [])
         | None \<Rightarrow> (hostPort, []))
      in if HasPrefix host ''['' \<and> HasSuffix host '']'' then (butlast (tl host), port) else (host, port))"

definition Hostname :: "URL \<Rightarrow> string" where
  "Hostname u = fst (url_splitHostPort (url_Host u))"

definition url_Port :: "URL \<Rightarrow> string" where
  "url_Port u = snd (url_splitHostPort (url_Host u))"

text \<open>The pairs of the query in order; pairs that do not parse are skipped.\<close>

definition query_pair :: "string \<Rightarrow> (string \<times> string) list" where
  "query_pair kv =
     (if CHR '';'' \<in> set kv \<or> kv = [] then []
      else (case Cut kv (CHR ''='') of (k, v, _) \<Rightarrow>
        (case (unescape encodeQueryComponent k, unescape encodeQueryComponent v) of
           (Inr a, Inr b) \<Rightarrow> [(a, b)]
         | _ \<Rightarrow> [])))"

definition url_Query :: "URL \<Rightarrow> (string \<times> string) list" where
  "url_Query u = concat (map query_pair (Split (RawQuery u) (CHR ''&'')))"

definition query_values :: "(string \<times> string) list \<Rightarrow> string \<Rightarrow> string list" where
  "query_values q k = map snd (filter (\<lambda>(a, _). a = k) q)"

definition query_Get :: "(string \<times> string) list \<Rightarrow> string \<Rightarrow> string" where
  "query_Get q k = (case query_values q k of v # _ \<Rightarrow> v | [] \<Rightarrow> [])"

subsection \<open>Well-formed endpoints\<close>

definition scheme_ok :: "string \<Rightarrow> bool" where
  "scheme_ok s \<longleftrightarrow> s \<noteq> [] \<and> list_all is_lower s"

definition host_plain :: "string \<Rightarrow> bool" where
  "host_plain s \<longleftrightarrow> list_all (\<lambda>c. is_alnum c \<or> c = CHR ''.'' \<or> c = CHR ''-'') s"

text \<open>A path of printable characters without those that have a meaning in a URL.\<close>

definition path_plain :: "string \<Rightarrow> bool" where
  "path_plain s \<longleftrightarrow> (s = [] \<or> hd s = CHR ''/'')
     \<and> list_all (\<lambda>c. \<not> is_ctl c \<and> c \<notin> {CHR ''%'', CHR ''?'', CHR ''#''}) s"

lemma is_lower_ok:
  "is_lower c \<Longrightarrow> \<not> is_ctl c \<and> \<not> is_upper c \<and> c \<notin> {CHR ''%'', CHR ''?'', CHR ''#'', CHR '':'', CHR ''/'', CHR ''@''}"
  by (auto simp: is_lower_def is_ctl_def is_upper_def)

lemma is_alnum_ok:
  "is_alnum c \<Longrightarrow> \<not> is_ctl c \<and> (of_char c :: nat) < 128 \<and>
     c \<notin> {CHR ''%'', CHR ''?'', CHR ''#'', CHR '':'', CHR ''/'', CHR ''@'', CHR ''['', CHR '']'', CHR ''+''}"
  by (auto simp: is_alnum_def is_lower_def is_ctl_def is_upper_def is_digit_def digit_val_def Let_def split: if_splits)

lemma is_digit_alnum: "is_digit c \<Longrightarrow> is_alnum c"
  by (simp add: is_alnum_def)

lemma Cut_absent: "sep \<notin> set s \<Longrightarrow> Cut s sep = (s, [], False)"
  by (induction s) auto

lemma ToLower_lower: "list_all is_lower s \<Longrightarrow> ToLower s = s"
  using is_lower_ok by (induction s) (auto simp: ToLower_def lower_char_def)

lemma getScheme_lower: "list_all is_lower s \<Longrightarrow> acc @ s \<noteq> [] \<Longrightarrow> getScheme acc (s @ CHR '':'' # r) = Inr (acc @ s, r)"
proof (induction s arbitrary: acc)
  case Nil
  then show ?case by (simp add: is_upper_def is_lower_def is_digit_def digit_val_def)
next
  case (Cons c s)
  then show ?case using Cons.IH [of "acc @ [c]"] by simp
qed

lemma unescape_plain: "CHR ''%'' \<notin> set s \<Longrightarrow> unescape encodePath s = Inr s"
  by (induction s) auto

lemma unescape_host: "list_all (\<lambda>c. is_alnum c \<or> c \<in> {CHR ''.'', CHR ''-'', CHR '':''}) s \<Longrightarrow> unescape encodeHost s = Inr s"
proof (induction s)
  case (Cons c s)
  then have "host_ok c" "c \<noteq> CHR ''%''" using is_alnum_ok [of c] by (auto simp: host_ok_def)
  then show ?case using Cons by simp
qed simp

lemma last_index_None: "c \<notin> set s \<Longrightarrow> last_index s c = None"
  by (induction s) auto

lemma parseAuthority_host_port:
  assumes "host_plain h" "list_all is_digit p"
  shows "parseAuthority (h @ CHR '':'' # p) = Inr (None, h @ CHR '':'' # p)"
proof -
  have c: "c \<in> set (h @ CHR '':'' # p) \<Longrightarrow> c \<noteq> CHR ''@'' \<and> c \<noteq> CHR ''[''" for c
    using assms is_alnum_ok [of c] by (auto simp: host_plain_def list_all_iff is_digit_alnum)
  then have "last_index (h @ CHR '':'' # p) (CHR ''@'') = None" by (intro last_index_None) blast
  moreover have "\<not> HasPrefix (h @ CHR '':'' # p) ''[''" using c by (cases h) (auto simp: HasPrefix_def)
  moreover have "CHR '':'' \<notin> set p" using assms(2) is_alnum_ok [of "CHR '':''"] by (auto simp: list_all_iff is_digit_alnum)
  then have "last_index (h @ CHR '':'' # p) (CHR '':'') = Some (length h)" by (rule last_index_append_sep)
  moreover have "unescape encodeHost (h @ CHR '':'' # p) = Inr (h @ CHR '':'' # p)"
    using assms by (intro unescape_host) (auto simp: host_plain_def list_all_iff is_digit_alnum)
  ultimately show ?thesis
    using assms(2) by (simp add: parseAuthority_def parseHost_def validOptionalPort_def)
qed

lemma parseAuthority_Nil: "parseAuthority [] = Inr (None, [])"
  by (simp add: parseAuthority_def parseHost_def HasPrefix_def)

lemma split_query_plain: "CHR ''?'' \<notin> set s \<Longrightarrow> split_query s = (s, [])"
  by (simp add: split_query_def Cut_absent)

lemma IndexByte_skip: "c \<notin> set a \<Longrightarrow> IndexByte (a @ c # x) c = Some (length a)"
  by (induction a) auto

lemma IndexByte_absent: "c \<notin> set a \<Longrightarrow> IndexByte a c = None"
  by (induction a) auto

lemma parse_rest_parts:
  assumes s: "s \<noteq> []" "ToLower s = s" and q: "CHR ''?'' \<notin> set a" "CHR ''?'' \<notin> set p"
    and sl: "CHR ''/'' \<notin> set a" "p = [] \<or> hd p = CHR ''/''" and u: "unescape encodePath p = Inr p"
    and au: "parseAuthority a = Inr (None, h)"
  shows "parse_rest s (''//'' @ a @ p) = Inr (empty_URL\<lparr>Scheme := s, url_Host := h, url_Path := p\<rparr>)"
proof -
  have sq: "split_query (''//'' @ a @ p) = (''//'' @ a @ p, [])"
    using q by (intro split_query_plain) simp
  have "(case IndexByte (a @ p) (CHR ''/'') of None \<Rightarrow> (a @ p, []) | Some i \<Rightarrow> (take i (a @ p), drop i (a @ p))) = (a, p)"
    using sl by (cases p) (simp_all add: IndexByte_skip IndexByte_absent)
  then show ?thesis
    using s u au unfolding parse_rest_def sq by (simp add: HasPrefix_def set_path_def empty_URL_def)
qed

text \<open>The general step: a scheme, an authority that parses, and a plain path.\<close>

definition url_chars :: "string \<Rightarrow> bool" where
  "url_chars s \<longleftrightarrow> list_all (\<lambda>c. \<not> is_ctl c \<and> c \<noteq> CHR ''?'' \<and> c \<noteq> CHR ''#'') s"

lemma url_chars_append [simp]: "url_chars (s @ t) = (url_chars s \<and> url_chars t)"
  by (simp add: url_chars_def)

lemma url_chars_free: "url_chars s \<Longrightarrow> CHR ''?'' \<notin> set s \<and> CHR ''#'' \<notin> set s \<and> \<not> list_ex is_ctl s"
  unfolding url_chars_def by (induction s) auto

lemma url_chars_scheme: "scheme_ok s \<Longrightarrow> url_chars s"
  unfolding scheme_ok_def url_chars_def list_all_iff using is_lower_ok by blast

lemma url_chars_path: "path_plain p \<Longrightarrow> url_chars p"
  unfolding path_plain_def url_chars_def list_all_iff by blast

lemma url_chars_sep: "url_chars ''://''"
  by (simp add: url_chars_def is_ctl_def)

lemma url_Parse_parts:
  assumes "scheme_ok s" "path_plain p" "parseAuthority a = Inr (None, h)"
    and "url_chars a" "CHR ''/'' \<notin> set a"
  shows "url_Parse (s @ ''://'' @ a @ p) = Inr (empty_URL\<lparr>Scheme := s, url_Host := h, url_Path := p\<rparr>)"
proof -
  have "url_chars (s @ ''://'' @ a @ p)"
    unfolding url_chars_append using assms url_chars_scheme url_chars_path url_chars_sep by blast
  note ok = url_chars_free [OF this]
  have "unescape encodePath p = Inr p"
    using assms(2) by (intro unescape_plain) (auto simp: path_plain_def list_all_iff)
  then have "parse_rest s (''//'' @ a @ p) = Inr (empty_URL\<lparr>Scheme := s, url_Host := h, url_Path := p\<rparr>)"
    using assms ok by (intro parse_rest_parts) (simp_all add: scheme_ok_def ToLower_lower path_plain_def)
  moreover have "getScheme [] (s @ ''://'' @ a @ p) = Inr (s, ''//'' @ a @ p)"
    using getScheme_lower [of s "[]" "''//'' @ a @ p"] assms(1) by (simp add: scheme_ok_def)
  moreover have "s @ ''://'' @ a @ p \<noteq> ''*''"
    using arg_cong [of "s @ ''://'' @ a @ p" "''*''" length] by auto
  ultimately have "parse_url (s @ ''://'' @ a @ p) = Inr (empty_URL\<lparr>Scheme := s, url_Host := h, url_Path := p\<rparr>)"
    using ok unfolding parse_url_def by simp
  then show ?thesis using Cut_absent ok unfolding url_Parse_def by simp
qed

text \<open>\<open>unix:///path\<close> and the like.\<close>

lemma url_Parse_path:
  assumes "scheme_ok s" "path_plain p"
  shows "url_Parse (s @ ''://'' @ p) = Inr (empty_URL\<lparr>Scheme := s, url_Path := p\<rparr>)"
  using url_Parse_parts [OF assms parseAuthority_Nil] by (simp add: empty_URL_def url_chars_def)

text \<open>\<open>vsock://cid:port/path\<close>, \<open>tcp://host:port\<close> and the like.\<close>

lemma url_Parse_host_port:
  assumes "scheme_ok s" "host_plain h" "list_all is_digit port" "path_plain p"
  shows "url_Parse (s @ ''://'' @ (h @ CHR '':'' # port) @ p) =
    Inr (empty_URL\<lparr>Scheme := s, url_Host := h @ CHR '':'' # port, url_Path := p\<rparr>)"
proof (rule url_Parse_parts [OF assms(1,4) parseAuthority_host_port [OF assms(2,3)]])
  have al: "is_alnum c \<Longrightarrow> \<not> is_ctl c \<and> c \<noteq> CHR ''?'' \<and> c \<noteq> CHR ''#'' \<and> c \<noteq> CHR ''/''" for c
    using is_alnum_ok [of c] by simp
  show "url_chars (h @ CHR '':'' # port)"
    using assms(2,3) al is_digit_alnum by (auto simp: url_chars_def host_plain_def list_all_iff is_ctl_def)
  show "CHR ''/'' \<notin> set (h @ CHR '':'' # port)"
    using assms(2,3) al is_digit_alnum by (auto simp: host_plain_def list_all_iff)
qed

lemma url_host_port:
  assumes "host_plain h" "list_all is_digit p" "url_Host u = h @ CHR '':'' # p"
  shows "Hostname u = h \<and> url_Port u = p"
proof -
  have "CHR '':'' \<notin> set p" using assms(2) is_alnum_ok [of "CHR '':''"] by (auto simp: list_all_iff is_digit_alnum)
  then have "last_index (h @ CHR '':'' # p) (CHR '':'') = Some (length h)" by (rule last_index_append_sep)
  moreover have "\<not> HasPrefix h ''[''"
    using assms(1) is_alnum_ok [of "CHR ''[''"] by (cases h) (auto simp: HasPrefix_def host_plain_def)
  ultimately show ?thesis
    using assms by (simp add: Hostname_def url_Port_def url_splitHostPort_def validOptionalPort_def)
qed

text \<open>\<open>/path?query\<close>, without a host.\<close>

lemma getScheme_slash: "getScheme [] (CHR ''/'' # s) = Inr ([], CHR ''/'' # s)"
  by (simp add: is_upper_def is_lower_def is_digit_def digit_val_def)

lemma Cut_at: "sep \<notin> set s \<Longrightarrow> Cut (s @ sep # t) sep = (s, t, True)"
  by (induction s) auto

lemma split_query_at:
  assumes "CHR ''?'' \<notin> set p"
  shows "split_query (p @ CHR ''?'' # q) = (p, q)"
proof (cases "q = []")
  case True
  have "count_list p (CHR ''?'') = 0" using assms by (simp add: count_list_0_iff)
  then show ?thesis using True by (simp add: split_query_def butlast_append)
next
  case False
  have "count_list q (CHR ''?'') \<noteq> 0" if "HasSuffix (p @ CHR ''?'' # q) ''?''"
  proof -
    obtain r where "p @ CHR ''?'' # q = r @ ''?''" using \<open>HasSuffix _ _\<close> unfolding HasSuffix_iff by blast
    then have "last (p @ CHR ''?'' # q) = CHR ''?''" by simp
    then have "last q = CHR ''?''" using False by simp
    then have "CHR ''?'' \<in> set q" using False last_in_set by metis
    then show ?thesis by (simp add: count_list_0_iff)
  qed
  then show ?thesis using Cut_at [OF assms, of q] by (auto simp: split_query_def)
qed

lemma parse_rest_query:
  assumes "split_query s = (p, q)" "HasPrefix p ''/''" "\<not> HasPrefix p ''//''" "unescape encodePath p = Inr p"
  shows "parse_rest [] s = Inr (empty_URL\<lparr>url_Path := p, RawQuery := q\<rparr>)"
  using assms by (simp add: parse_rest_def set_path_def empty_URL_def ToLower_def)

lemma parse_url_slash:
  assumes "\<not> list_ex is_ctl s" "HasPrefix s ''/''" "s \<noteq> ''*''"
  shows "parse_url s = parse_rest [] s"
proof -
  obtain t where "s = CHR ''/'' # t" using assms(2) unfolding HasPrefix_iff by auto
  then have "getScheme [] s = Inr ([], s)" using getScheme_slash by blast
  then show ?thesis using assms by (simp add: parse_url_def)
qed

lemma url_Parse_query:
  assumes "path_plain (CHR ''/'' # p)" "\<not> HasPrefix p ''/''" "list_all (\<lambda>c. \<not> is_ctl c \<and> c \<noteq> CHR ''#'') q"
  shows "url_Parse (CHR ''/'' # p @ CHR ''?'' # q) = Inr (empty_URL\<lparr>url_Path := CHR ''/'' # p, RawQuery := q\<rparr>)"
proof -
  let ?p = "CHR ''/'' # p"
  note p = url_chars_free [OF url_chars_path [OF assms(1)]]
  have nq: "CHR ''?'' \<notin> set ?p" "CHR ''#'' \<notin> set ?p" "\<not> list_ex is_ctl ?p" using p by blast+
  have q: "CHR ''#'' \<notin> set q" "\<not> list_ex is_ctl q" using assms(3) by (auto simp: list_all_iff list_ex_iff)
  have "CHR ''#'' \<notin> set (?p @ CHR ''?'' # q)" using nq(2) q(1) by auto
  note c = Cut_absent [OF this]
  have "\<not> list_ex is_ctl (?p @ CHR ''?'' # q)" using nq(3) q(2) by (simp add: is_ctl_def)
  then have "parse_url (?p @ CHR ''?'' # q) = parse_rest [] (?p @ CHR ''?'' # q)"
    by (rule parse_url_slash) (simp_all add: HasPrefix_iff)
  also have "\<dots> = Inr (empty_URL\<lparr>url_Path := ?p, RawQuery := q\<rparr>)"
  proof (rule parse_rest_query [OF split_query_at [OF nq(1)]])
    show "unescape encodePath ?p = Inr ?p"
      using assms(1) by (intro unescape_plain) (auto simp: path_plain_def list_all_iff)
    show "\<not> HasPrefix ?p ''//''" using assms(2) by (auto simp: HasPrefix_def)
  qed (simp add: HasPrefix_iff)
  finally have "parse_url (?p @ CHR ''?'' # q) = Inr (empty_URL\<lparr>url_Path := ?p, RawQuery := q\<rparr>)" .
  then show ?thesis using c by (simp add: url_Parse_def)
qed

lemma unescape_query_plain: "CHR ''%'' \<notin> set s \<Longrightarrow> CHR ''+'' \<notin> set s \<Longrightarrow> unescape encodeQueryComponent s = Inr s"
  by (induction s) auto

lemma query_pair_plain:
  assumes "set k \<inter> {CHR ''%'', CHR ''+'', CHR '';'', CHR ''=''} = {}" "set v \<inter> {CHR ''%'', CHR ''+'', CHR '';''} = {}"
  shows "query_pair (k @ CHR ''='' # v) = [(k, v)]"
proof -
  have "CHR ''='' \<notin> set k" "CHR '';'' \<notin> set (k @ CHR ''='' # v)" using assms by auto
  then show ?thesis
    using assms Cut_at [of "CHR ''=''" k v] unescape_query_plain [of k] unescape_query_plain [of v]
    by (simp add: query_pair_def)
qed

end
