(* ===== verification/Vpnkit.thy ===== *)
theory Vpnkit
  imports Types Switch
begin

text \<open>
  The handshake with hyperkit, \<open>pkg/virtualnetwork/vpnkit.go\<close>, and the connection that follows
  it on the same stream. \<open>W\<close> is what a write returns, given the writes before it; \<open>rnd\<close> is what
  \<open>crypto/rand\<close> returns for six bytes.
\<close>

subsection \<open>Hardware addresses\<close>

definition randomMac :: "bytes result \<Rightarrow> bytes result" where
  "randomMac rnd =
     (case rnd of
        Inl err \<Rightarrow> Inl err
      | Inr buf \<Rightarrow> Inr (buf[0 := and (or (buf ! 0) 2) (not 1)]))"

definition macAddr :: "Configuration \<Rightarrow> bytes result \<Rightarrow> string \<Rightarrow> bytes result" where
  "macAddr cfg rnd vpnkitUUID =
     (case cfg_VpnKitUUIDMacAddresses cfg vpnkitUUID of
        None \<Rightarrow> randomMac rnd
      | Some macStr \<Rightarrow> ParseMAC macStr)"

subsection \<open>The handshake\<close>

definition overwrite :: "nat \<Rightarrow> bytes \<Rightarrow> bytes \<Rightarrow> bytes" where
  "overwrite i bs xs = take i xs @ bs @ drop (i + length bs) xs"

definition bytes_string :: "bytes \<Rightarrow> string" where
  "bytes_string bs = map (\<lambda>b. char_of (unat b)) bs"

text \<open>The response; \<open>copy\<close> takes no more than the six bytes of its target.\<close>

definition vpnkit_response :: "int \<Rightarrow> bytes \<Rightarrow> bytes" where
  "vpnkit_response MTU mac =
     (let resp = (replicate 258 0)[0 := 0x01];
          mtu = word_of_int MTU :: 16 word;
          resp = overwrite 1 (PutUint16_LE mtu) resp;
          resp = overwrite 3 (PutUint16_LE (mtu + of_nat EthernetMinimumSize)) resp
      in overwrite 5 (take 6 mac) resp)"

text \<open>The error, what is left of the input and what was written.\<close>

definition vpnkitHandshake ::
  "(bytes list \<Rightarrow> bytes \<Rightarrow> gerror option) \<Rightarrow> gerror \<Rightarrow> Configuration \<Rightarrow> bytes result \<Rightarrow> bytes
   \<Rightarrow> gerror option \<times> bytes \<times> bytes list" where
  "vpnkitHandshake W e cfg rnd input =
     (case ReadFull 49 e input of
        Inl err \<Rightarrow> (Some err, [], [])
      | Inr (msgInit, rest) \<Rightarrow>
          (case W [] msgInit of
             Some err \<Rightarrow> (Some err, rest, [])
           | None \<Rightarrow>
               (case ReadFull 41 e rest of
                  Inl err \<Rightarrow> (Some err, [], [msgInit])
                | Inr (msgCommand, rest) \<Rightarrow>
                    (let vpnkitUUID = bytes_string (take 36 (drop 1 msgCommand))
                     in case macAddr cfg rnd vpnkitUUID of
                          Inl err \<Rightarrow> (Some err, rest, [msgInit])
                        | Inr mac \<Rightarrow>
                            (let resp = vpnkit_response (cfg_MTU cfg) mac
                             in case W [msgInit] resp of
                                  Some err \<Rightarrow> (Some err, rest, [msgInit])
                                | None \<Rightarrow> (None, rest, [msgInit, resp]))))))"

text \<open>An error of the handshake is logged only; \<open>AcceptVpnKit\<close> itself returns no error.\<close>

definition AcceptVpnKit ::
  "net_env \<Rightarrow> (nat \<Rightarrow> bool) \<Rightarrow> (bytes list \<Rightarrow> bytes \<Rightarrow> gerror option) \<Rightarrow> gerror \<Rightarrow> Configuration \<Rightarrow> bytes result
   \<Rightarrow> switch \<Rightarrow> nat \<Rightarrow> bytes \<Rightarrow> (switch \<times> bytes list) exec" where
  "AcceptVpnKit E dn W e cfg rnd s conn input =
     (case vpnkitHandshake W e cfg rnd input of
        (err, rest, out) \<Rightarrow>
          bind_exec (Accept E dn e s conn HyperKitProtocol [rest]) (\<lambda>(s', _). Ret (s', out)))"

subsection \<open>Properties\<close>

text \<open>A generated address is locally administered and unicast, and otherwise as random as its source.\<close>

lemma randomMac_local:
  assumes "length buf = 6" "randomMac (Inr buf) = Inr mac"
  shows "length mac = 6 \<and> bit (mac ! 0) 1 \<and> \<not> bit (mac ! 0) 0 \<and> drop 1 mac = drop 1 buf
    \<and> (\<forall>i. 2 \<le> i \<longrightarrow> bit (mac ! 0) i = bit (buf ! 0) i)"
proof -
  have mac: "mac = buf[0 := and (or (buf ! 0) 2) (not 1)]" using assms(2) by (simp add: randomMac_def)
  have m0: "mac ! 0 = and (or (buf ! 0) 2) (not 1)" using assms(1) by (simp add: mac)
  have two: "bit (2 :: 8 word) i \<longleftrightarrow> i = 1" for i
    using bit_exp_iff [of 1 i, where 'a = "8 word"] by auto
  have one: "bit (not (1 :: 8 word)) i \<longleftrightarrow> i < 8 \<and> i \<noteq> 0" for i
    by (simp add: bit_not_iff bit_1_iff)
  have bits: "bit (mac ! 0) i \<longleftrightarrow> (bit (buf ! 0) i \<or> i = 1) \<and> i < 8 \<and> i \<noteq> 0" for i
    unfolding m0 bit_and_iff bit_or_iff two one by simp
  have "bit (mac ! 0) i = bit (buf ! 0) i" if "2 \<le> i" for i
    unfolding bits using that bit_imp_le_length [of "buf ! 0" i] by auto
  moreover have "drop 1 mac = drop 1 buf" by (simp add: mac)
  moreover have "length mac = 6" using assms(1) by (simp add: mac)
  ultimately show ?thesis unfolding bits [of 0] bits [of 1] by simp
qed

lemma overwrite_length: "i + length bs \<le> length xs \<Longrightarrow> length (overwrite i bs xs) = length xs"
  by (simp add: overwrite_def)

lemma overwrite_zeros:
  "length p = i \<Longrightarrow> length bs \<le> n \<Longrightarrow> overwrite i bs (p @ replicate n 0) = p @ bs @ replicate (n - length bs) 0"
  by (simp add: overwrite_def)

lemma PutUint16_LE_length [simp]: "length (PutUint16_LE w) = 2"
  by (simp add: PutUint16_LE_def)

lemma vpnkit_response_eq:
  "vpnkit_response MTU mac = [1] @ PutUint16_LE (word_of_int MTU) @ PutUint16_LE (word_of_int MTU + 14)
     @ take 6 mac @ replicate (253 - min 6 (length mac)) 0"
proof -
  have "(replicate (Suc n) (0 :: 8 word))[0 := 1] = [1] @ replicate n 0" for n by simp
  from this [of 257] have "(replicate 258 (0 :: 8 word))[0 := 1] = [1] @ replicate 257 0" by (simp del: replicate_Suc)
  then show ?thesis
    using overwrite_zeros [of "[1]" 1 "PutUint16_LE (word_of_int MTU)" 257]
      overwrite_zeros [of "[1] @ PutUint16_LE (word_of_int MTU)" 3 "PutUint16_LE (word_of_int MTU + 14)" 255]
      overwrite_zeros [of "[1] @ PutUint16_LE (word_of_int MTU) @ PutUint16_LE (word_of_int MTU + 14)" 5 "take 6 mac" 253]
    by (simp add: vpnkit_response_def Let_def EthernetMinimumSize_def)
qed

lemma vpnkit_response_length: "length (vpnkit_response MTU mac) = 258"
  by (simp add: vpnkit_response_eq)

lemma vpnkitHandshake_ok:
  assumes "length init = 49" "length cmd = 41" "\<forall>ws b. W ws b = None"
    and "macAddr cfg rnd (bytes_string (take 36 (drop 1 cmd))) = Inr mac"
  shows "vpnkitHandshake W e cfg rnd (init @ cmd @ rest) = (None, rest, [init, vpnkit_response (cfg_MTU cfg) mac])"
  using assms by (simp add: vpnkitHandshake_def ReadFull_def Let_def)


text \<open>
  A handshake that fails does not end the connection: what is left of the stream is read as
  packets.
\<close>

lemma handshake_error_continues:
  "vpnkitHandshake W e cfg rnd input = (Some err, rest, out) \<Longrightarrow>
   AcceptVpnKit E dn W e cfg rnd s c input = bind_exec (Accept E dn e s c HyperKitProtocol [rest]) (\<lambda>(s', _). Ret (s', out))"
  by (simp add: AcceptVpnKit_def)

subsection \<open>A sample handshake\<close>

definition hyperkit_cfg :: Configuration where
  "hyperkit_cfg = \<lparr>cfg_Debug = False, cfg_CaptureFile = [], cfg_MTU = 1500, cfg_Subnet = ''192.168.127.0/24'',
     cfg_GatewayIP = ''192.168.127.1'', cfg_GatewayMacAddress = ''5a:94:ef:e4:0c:dd'', cfg_DNS = [], cfg_DNSSearchDomains = [],
     cfg_Forwards = Map.empty, cfg_NAT = Map.empty, cfg_GatewayVirtualIPs = [], cfg_DHCPStaticLeases = Map.empty,
     cfg_VpnKitUUIDMacAddresses = Map.empty, cfg_Protocol = HyperKitProtocol\<rparr>"


end
