(* ===== verification/Transport.thy ===== *)
theory Transport
  imports GoURL Vpnkit
begin

text \<open>
  How endpoints given as URLs are opened, \<open>pkg/transport\<close> and \<open>pkg/net/stdio\<close>. The functions
  compute what is to be opened; opening it is the operating system's, a field of \<open>os_env\<close>. The
  files of one function that are built on different platforms are different definitions, and
  the platform that is built selects among them.
\<close>

datatype platform = Linux | Darwin | Windows | OtherPlatform

subsection \<open>Listening\<close>

text \<open>How a named pipe of Windows is opened.\<close>

record PipeConfig =
  SecurityDescriptor :: string
  MessageMode :: bool
  InputBufferSize :: nat
  OutputBufferSize :: nat

datatype listen_target =
    LVsock "32 word option" "32 word"
  | LHvsock string
  | LUnix string
  | LUnixpacket string
  | LTCP string
  | LUnixgram string
  | LNpipe string PipeConfig

record os_env =
  os_Listen :: "listen_target \<Rightarrow> gerror option"
  os_Remove :: "string \<Rightarrow> gerror option"
  os_IsNotExist :: "gerror \<Rightarrow> bool"
  GUIDFromString :: "string \<Rightarrow> string result"
  os_CurrentUser :: "string result"

definition listen_on :: "os_env \<Rightarrow> listen_target \<Rightarrow> listen_target result" where
  "listen_on OS l = (case os_Listen OS l of Some err \<Rightarrow> Inl err | None \<Rightarrow> Inr l)"

definition DefaultURL_linux :: string where
  "DefaultURL_linux = ''vsock://:1024''"

definition DefaultURL_darwin :: string where
  "DefaultURL_darwin = ''vsock://null:1024/vm_directory''"

definition DefaultURL_windows :: string where
  "DefaultURL_windows = ''vsock://00000400-FACB-11E6-BD58-64006A7986D3''"

definition defaultListenURL :: "os_env \<Rightarrow> URL \<Rightarrow> listen_target result" where
  "defaultListenURL OS url =
     (if Scheme url = ''unix'' then listen_on OS (LUnix (url_Path url))
      else if Scheme url = ''tcp'' then listen_on OS (LTCP (url_Host url))
      else Inl ''unexpected scheme'')"

text \<open>\<open>path.Join\<close> of a directory and a name: elements \<open>.\<close> and empty ones vanish, \<open>..\<close> removes the one before.\<close>

fun clean_elems :: "bool \<Rightarrow> string list \<Rightarrow> string list \<Rightarrow> string list" where
  "clean_elems rooted out [] = rev out"
| "clean_elems rooted out (e # es) =
     (if e = [] \<or> e = ''.'' then clean_elems rooted out es
      else if e = ''..'' then
        (case out of
           o1 # os \<Rightarrow> if o1 = ''..'' then clean_elems rooted (e # out) es else clean_elems rooted os es
         | [] \<Rightarrow> clean_elems rooted (if rooted then [] else [e]) es)
      else clean_elems rooted (e # out) es)"

fun join_slash :: "string list \<Rightarrow> string" where
  "join_slash [] = []"
| "join_slash [e] = e"
| "join_slash (e # es) = e @ CHR ''/'' # join_slash es"

definition path_Clean :: "string \<Rightarrow> string" where
  "path_Clean p =
     (if p = [] then ''.''
      else let rooted = HasPrefix p ''/'';
               body = join_slash (clean_elems rooted [] (Split p (CHR ''/'')))
           in if rooted then CHR ''/'' # body else if body = [] then ''.'' else body)"

definition path_Join :: "string \<Rightarrow> string \<Rightarrow> string" where
  "path_Join a b =
     (if a = [] \<and> b = [] then [] else if a = [] then path_Clean b
      else if b = [] then path_Clean a else path_Clean (a @ CHR ''/'' # b))"

text \<open>\<open>%08x\<close>\<close>

definition hex8 :: "int \<Rightarrow> string" where
  "hex8 i =
     (let h = hex_nat (nat \<bar>i\<bar>)
      in if i < 0 then CHR ''-'' # replicate (7 - length h) (CHR ''0'') @ h
         else replicate (8 - length h) (CHR ''0'') @ h)"

definition listenURL_linux :: "os_env \<Rightarrow> URL \<Rightarrow> listen_target result" where
  "listenURL_linux OS parsed =
     (if Scheme parsed = ''vsock'' then
        (case Atoi (url_Port parsed) of
           Inl err \<Rightarrow> Inl err
         | Inr port \<Rightarrow>
             if Hostname parsed \<noteq> [] then
               (case Atoi (Hostname parsed) of
                  Inl err \<Rightarrow> Inl err
                | Inr cid \<Rightarrow> listen_on OS (LVsock (Some (word_of_int cid)) (word_of_int port)))
             else listen_on OS (LVsock None (word_of_int port)))
      else if Scheme parsed = ''unixpacket'' then listen_on OS (LUnixpacket (url_Path parsed))
      else defaultListenURL OS parsed)"

definition listenURL_darwin :: "os_env \<Rightarrow> URL \<Rightarrow> listen_target result" where
  "listenURL_darwin OS parsed =
     (if Scheme parsed = ''vsock'' then
        (case Atoi (url_Port parsed) of
           Inl err \<Rightarrow> Inl err
         | Inr port \<Rightarrow>
             (let path = path_Join (url_Path parsed) (''00000002.'' @ hex8 port)
              in case os_Remove OS path of
                   Some err \<Rightarrow> if \<not> os_IsNotExist OS err then Inl err else listen_on OS (LUnix path)
                 | None \<Rightarrow> listen_on OS (LUnix path)))
      else defaultListenURL OS parsed)"

definition listenURL_windows :: "os_env \<Rightarrow> URL \<Rightarrow> listen_target result" where
  "listenURL_windows OS parsed =
     (if Scheme parsed = ''vsock'' then
        (case GUIDFromString OS (Hostname parsed) of
           Inl err \<Rightarrow> Inl err
         | Inr svcid \<Rightarrow> listen_on OS (LHvsock svcid))
      else defaultListenURL OS parsed)"

definition listenURL_generic :: "os_env \<Rightarrow> URL \<Rightarrow> listen_target result" where
  "listenURL_generic = defaultListenURL"

definition listenURL :: "platform \<Rightarrow> os_env \<Rightarrow> URL \<Rightarrow> listen_target result" where
  "listenURL pf = (case pf of
       Linux \<Rightarrow> listenURL_linux
     | Darwin \<Rightarrow> listenURL_darwin
     | Windows \<Rightarrow> listenURL_windows
     | OtherPlatform \<Rightarrow> listenURL_generic)"

definition Listen :: "platform \<Rightarrow> os_env \<Rightarrow> string \<Rightarrow> listen_target result" where
  "Listen pf OS endpoint = (case url_Parse endpoint of Inl err \<Rightarrow> Inl err | Inr parsed \<Rightarrow> listenURL pf OS parsed)"

definition ListenUnixgram_darwin :: "os_env \<Rightarrow> string \<Rightarrow> listen_target result" where
  "ListenUnixgram_darwin OS endpoint =
     (case url_Parse endpoint of
        Inl err \<Rightarrow> Inl err
      | Inr parsed \<Rightarrow>
          if Scheme parsed \<noteq> ''unixgram'' then Inl ''unexpected scheme''
          else listen_on OS (LUnixgram (url_Path parsed)))"

definition ListenUnixgram_nondarwin :: "os_env \<Rightarrow> string \<Rightarrow> listen_target result" where
  "ListenUnixgram_nondarwin OS endpoint = Inl (''unsupported '' @ [CHR 0x27] @ ''unixgram'' @ [CHR 0x27] @ '' scheme'')"

definition ListenUnixgram :: "platform \<Rightarrow> os_env \<Rightarrow> string \<Rightarrow> listen_target result" where
  "ListenUnixgram pf = (if pf = Darwin then ListenUnixgram_darwin else ListenUnixgram_nondarwin)"

subsection \<open>Dialling\<close>

datatype dial_target =
    DVsock "32 word" "32 word"
  | DUnix string
  | DStdio string "string list"

text \<open>The arguments of a program behind a \<open>stdio\<close> URL; \<open>ks\<close> is the order in which the keys of the query are visited.\<close>

definition stdio_args :: "string list \<Rightarrow> (string \<times> string) list \<Rightarrow> string list" where
  "stdio_args ks q = concat (map (\<lambda>k. map (\<lambda>v. CHR ''-'' # k @ CHR ''='' # v) (query_values q k)) ks)"

text \<open>\<open>dial\<close> is what opening the connection returns.\<close>

definition dial_to :: "(dial_target \<Rightarrow> gerror option) \<Rightarrow> dial_target \<Rightarrow> string \<Rightarrow> (dial_target \<times> string) result" where
  "dial_to dial d path = (case dial d of Some err \<Rightarrow> Inl err | None \<Rightarrow> Inr (d, path))"

definition Dial_linux :: "(dial_target \<Rightarrow> gerror option) \<Rightarrow> string list \<Rightarrow> string \<Rightarrow> (dial_target \<times> string) result" where
  "Dial_linux dial ks endpoint =
     (case url_Parse endpoint of
        Inl err \<Rightarrow> Inl err
      | Inr parsed \<Rightarrow>
          if Scheme parsed = ''vsock'' then
            (case Atoi (Hostname parsed) of
               Inl err \<Rightarrow> Inl err
             | Inr contextID \<Rightarrow>
                 (case Atoi (url_Port parsed) of
                    Inl err \<Rightarrow> Inl err
                  | Inr port \<Rightarrow> dial_to dial (DVsock (word_of_int contextID) (word_of_int port)) (url_Path parsed)))
          else if Scheme parsed = ''unix'' then dial_to dial (DUnix (url_Path parsed)) ''/connect''
          else if Scheme parsed = ''stdio'' then dial_to dial (DStdio (url_Path parsed) (stdio_args ks (url_Query parsed))) []
          else Inl ''unexpected scheme'')"

definition Dial_darwin :: "string \<Rightarrow> (dial_target \<times> string) result" where
  "Dial_darwin endpoint = Inl ''unsupported''"

subsection \<open>vfkit\<close>

text \<open>
  A connected datagram socket is the listening socket with the address of its peer. \<open>raw\<close> is the
  result of \<open>SyscallConn\<close>, \<open>control\<close> that of \<open>Control\<close>, and \<open>sndbuf\<close>, \<open>rcvbuf\<close> those of setting
  the two buffer sizes in the function \<open>Control\<close> runs. That function stores its error in the
  variable to which the result of \<open>Control\<close> is then assigned.
\<close>

record connectedUnixgramConn =
  UnixConn :: nat
  remoteAddr :: string

definition connectListeningUnixgramConn ::
  "gerror option \<Rightarrow> gerror option \<Rightarrow> gerror option \<Rightarrow> gerror option \<Rightarrow> nat \<Rightarrow> string \<Rightarrow> connectedUnixgramConn result" where
  "connectListeningUnixgramConn raw control sndbuf rcvbuf conn addr =
     (case raw of
        Some err \<Rightarrow> Inl err
      | None \<Rightarrow>
          (let err = (case sndbuf of Some e \<Rightarrow> Some e | None \<Rightarrow> rcvbuf);
               err = control
           in case err of Some e \<Rightarrow> Inl e | None \<Rightarrow> Inr \<lparr>UnixConn = conn, remoteAddr = addr\<rparr>))"

text \<open>The datagram a write sends: its destination and its bytes.\<close>

definition unixgram_Write :: "connectedUnixgramConn \<Rightarrow> bytes \<Rightarrow> string \<times> bytes" where
  "unixgram_Write conn b = (remoteAddr conn, b)"

definition unixgram_RemoteAddr :: "connectedUnixgramConn \<Rightarrow> string" where
  "unixgram_RemoteAddr conn = remoteAddr conn"

text \<open>
  \<open>datagram\<close>, \<open>addr\<close> and \<open>err\<close> are the results of \<open>ReadFrom\<close>; the sender has no address when its
  socket is not bound. \<open>connected\<close> is \<^const>\<open>connectListeningUnixgramConn\<close> on the listening socket.
\<close>

definition vfkitMagic :: string where
  "vfkitMagic = ''VFKT''"

definition AcceptVfkit_darwin ::
  "bytes \<Rightarrow> string option \<Rightarrow> gerror option \<Rightarrow> (string \<Rightarrow> connectedUnixgramConn result) \<Rightarrow> connectedUnixgramConn result" where
  "AcceptVfkit_darwin datagram addr err connected =
     (let magic = take 4 datagram in
      if length magic \<noteq> 4 then Inl ''invalid magic length: 4''
      else (case err of
          Some e \<Rightarrow> Inl e
        | None \<Rightarrow>
            (case addr of
               None \<Rightarrow> Inl ''unexpected type for vfkit unix sockaddr: %!t(<nil>)''
             | Some vfkitAddr \<Rightarrow>
                 if bytes_string magic \<noteq> vfkitMagic
                 then Inl (''invalid magic from the vfkit process: '' @ concat (map hex2 magic))
                 else connected vfkitAddr)))"

definition AcceptVfkit_nondarwin :: "connectedUnixgramConn result" where
  "AcceptVfkit_nondarwin = Inl ''vfkit is unsupported on this platform''"

subsection \<open>Standard input and output\<close>

text \<open>
  A reader is what it returns for a buffer of a size, a writer what it returns for bytes. The
  deadlines of a connection of the network do nothing here.
\<close>

type_synonym io_reader = "nat \<Rightarrow> bytes result"
type_synonym io_writer = "bytes \<Rightarrow> nat result"

record IoAddr =
  io_path :: string

definition IoAddr_Network :: "IoAddr \<Rightarrow> string" where
  "IoAddr_Network a = ''stdio''"

definition IoAddr_String :: "IoAddr \<Rightarrow> string" where
  "IoAddr_String a = io_path a"

record IoConn =
  io_writer :: io_writer
  io_reader :: io_reader
  io_local :: IoAddr
  io_remote :: IoAddr
  io_close :: "gerror option option"

definition IoConn_Read :: "IoConn \<Rightarrow> nat \<Rightarrow> bytes result" where
  "IoConn_Read c n = io_reader c n"

definition IoConn_Write :: "IoConn \<Rightarrow> bytes \<Rightarrow> nat result" where
  "IoConn_Write c b = io_writer c b"

definition IoConn_Close :: "IoConn \<Rightarrow> gerror option" where
  "IoConn_Close c = (case io_close c of Some r \<Rightarrow> r | None \<Rightarrow> None)"

definition IoConn_LocalAddr :: "IoConn \<Rightarrow> IoAddr" where
  "IoConn_LocalAddr c = io_local c"

definition IoConn_RemoteAddr :: "IoConn \<Rightarrow> IoAddr" where
  "IoConn_RemoteAddr c = io_remote c"

definition IoConn_SetDeadline :: "IoConn \<Rightarrow> nat \<Rightarrow> IoConn \<times> gerror option" where
  "IoConn_SetDeadline c t = (c, None)"

definition IoConn_SetReadDeadline :: "IoConn \<Rightarrow> nat \<Rightarrow> IoConn \<times> gerror option" where
  "IoConn_SetReadDeadline c t = (c, None)"

definition IoConn_SetWriteDeadline :: "IoConn \<Rightarrow> nat \<Rightarrow> IoConn \<times> gerror option" where
  "IoConn_SetWriteDeadline c t = (c, None)"

definition GetStdioConn :: "io_reader \<Rightarrow> io_writer \<Rightarrow> nat \<Rightarrow> IoConn" where
  "GetStdioConn os_Stdin os_Stdout pid = \<lparr>io_writer = os_Stdout, io_reader = os_Stdin,
     io_local = \<lparr>io_path = itoa_nat pid\<rparr>, io_remote = \<lparr>io_path = ''remote''\<rparr>, io_close = None\<rparr>"

text \<open>The results of the pipes and of starting the program; the program's output is read, its input written, and closing kills it.\<close>

definition stdio_Dial :: "nat \<Rightarrow> io_writer result \<Rightarrow> io_reader result \<Rightarrow> nat result \<Rightarrow> gerror option \<Rightarrow> IoConn result" where
  "stdio_Dial pid stdinPipe stdoutPipe start kill =
     (case stdinPipe of
        Inl err \<Rightarrow> Inl err
      | Inr stdin \<Rightarrow>
          (case stdoutPipe of
             Inl err \<Rightarrow> Inl err
           | Inr stdout \<Rightarrow>
               (case start of
                  Inl err \<Rightarrow> Inl err
                | Inr child \<Rightarrow> Inr \<lparr>io_writer = stdin, io_reader = stdout, io_local = \<lparr>io_path = itoa_nat pid\<rparr>,
                    io_remote = \<lparr>io_path = itoa_nat child\<rparr>, io_close = Some kill\<rparr>)))"

text \<open>The two ends of a pair of pipes: what one process writes to the program it started, the program reads from its input.\<close>

lemma stdio_pair:
  assumes "stdio_Dial pid (Inr w) (Inr r) (Inr child) kill = Inr c" "GetStdioConn r' w' child = d"
  shows "IoConn_Write c = w \<and> IoConn_Read c = r \<and> IoConn_Read d = r' \<and> IoConn_Write d = w'
    \<and> IoAddr_String (IoConn_RemoteAddr c) = IoAddr_String (IoConn_LocalAddr d)"
  using assms by (auto simp: stdio_Dial_def GetStdioConn_def IoConn_Write_def IoConn_Read_def IoConn_RemoteAddr_def
      IoConn_LocalAddr_def IoAddr_String_def)

subsection \<open>Endpoints with a context identifier and a port\<close>

lemma list_all_digits_itoa: "list_all is_digit (itoa_nat n)"
  using itoa_nat_digits by (auto simp: list_all_iff is_digit_def)

lemma scheme_vsock: "scheme_ok ''vsock''"
  by code_simp

lemma path_plain_Nil: "path_plain []"
  by (simp add: path_plain_def)

definition vsock_url :: "nat \<Rightarrow> nat \<Rightarrow> string \<Rightarrow> string" where
  "vsock_url cid port path = ''vsock'' @ ''://'' @ (itoa_nat cid @ CHR '':'' # itoa_nat port) @ path"

lemma url_Parse_vsock:
  assumes "path_plain path"
  shows "\<exists>u. url_Parse (vsock_url cid port path) = Inr u \<and> Scheme u = ''vsock'' \<and> url_Path u = path
    \<and> Hostname u = itoa_nat cid \<and> url_Port u = itoa_nat port"
proof -
  let ?host = "itoa_nat cid @ CHR '':'' # itoa_nat port"
  let ?u = "empty_URL\<lparr>Scheme := ''vsock'', url_Host := ?host, url_Path := path\<rparr>"
  have "host_plain (itoa_nat cid)"
    using list_all_digits_itoa [of cid] by (auto simp: host_plain_def list_all_iff is_alnum_def)
  note host = this list_all_digits_itoa [of port]
  have "url_Parse (vsock_url cid port path) = Inr ?u"
    unfolding vsock_url_def
    by (rule url_Parse_host_port [OF scheme_vsock host assms])
  moreover have "Hostname ?u = itoa_nat cid \<and> url_Port ?u = itoa_nat port"
    by (rule url_host_port [OF host]) simp
  ultimately show ?thesis by (auto simp: empty_URL_def)
qed

lemma Dial_vsock:
  assumes "path_plain path" "cid < 2 ^ 63" "port < 2 ^ 63"
  shows "Dial_linux dial ks (vsock_url cid port path) = dial_to dial (DVsock (of_nat cid) (of_nat port)) path"
  using url_Parse_vsock [OF assms(1), of cid port] assms(2,3) by (auto simp: Dial_linux_def text_simps)

lemma Listen_vsock:
  assumes "cid < 2 ^ 63" "port < 2 ^ 63"
  shows "Listen Linux OS (vsock_url cid port []) = listen_on OS (LVsock (Some (of_nat cid)) (of_nat port))"
  using url_Parse_vsock [OF path_plain_Nil, of cid port] assms
  by (auto simp: Listen_def listenURL_def listenURL_linux_def text_simps)

lemma itoa_1024: "itoa_nat 1024 = ''1024''"
  by code_simp

lemma port_1024: "list_all is_digit ''1024''" "Atoi ''1024'' = Inr 1024"
  using list_all_digits_itoa [of 1024] Atoi_itoa [of 1024] by (simp_all add: itoa_1024)

lemma host_plain_null: "host_plain []" "host_plain ''null''" "path_plain ''/vm_directory''"
  by code_simp+

lemma parsed_defaults:
  "url_Parse DefaultURL_linux = Inr (empty_URL\<lparr>Scheme := ''vsock'', url_Host := '':1024'', url_Path := []\<rparr>)"
  "url_Parse DefaultURL_darwin = Inr (empty_URL\<lparr>Scheme := ''vsock'', url_Host := ''null:1024'', url_Path := ''/vm_directory''\<rparr>)"
  using url_Parse_host_port [OF scheme_vsock host_plain_null(1) port_1024(1) path_plain_Nil]
    url_Parse_host_port [OF scheme_vsock host_plain_null(2) port_1024(1) host_plain_null(3)]
  by (simp_all add: DefaultURL_linux_def DefaultURL_darwin_def)

lemma Listen_default_linux: "Listen Linux OS DefaultURL_linux = listen_on OS (LVsock None 1024)"
proof -
  let ?u = "empty_URL\<lparr>Scheme := ''vsock'', url_Host := '':1024'', url_Path := []\<rparr>"
  have "Hostname ?u = [] \<and> url_Port ?u = ''1024''"
    by (rule url_host_port [OF host_plain_null(1) port_1024(1)]) simp
  then show ?thesis
    by (simp add: Listen_def parsed_defaults listenURL_def listenURL_linux_def port_1024(2))
qed

lemma vm_directory_socket: "path_Join ''/vm_directory'' (''00000002.'' @ hex8 1024) = ''/vm_directory/00000002.00000400''"
  by code_simp

lemma Listen_default_darwin:
  assumes "os_Remove OS ''/vm_directory/00000002.00000400'' = None"
  shows "Listen Darwin OS DefaultURL_darwin = listen_on OS (LUnix ''/vm_directory/00000002.00000400'')"
proof -
  let ?u = "empty_URL\<lparr>Scheme := ''vsock'', url_Host := ''null:1024'', url_Path := ''/vm_directory''\<rparr>"
  have "Hostname ?u = ''null'' \<and> url_Port ?u = ''1024''"
    by (rule url_host_port [OF host_plain_null(2) port_1024(1)]) simp
  then show ?thesis
    using assms vm_directory_socket
    by (simp add: Listen_def parsed_defaults listenURL_def listenURL_darwin_def Let_def port_1024(2))
qed

lemma AcceptVfkit_accepts:
  assumes "AcceptVfkit_darwin datagram addr err (connectListeningUnixgramConn raw control sndbuf rcvbuf conn) = Inr c"
  shows "bytes_string (take 4 datagram) = ''VFKT'' \<and> addr = Some (remoteAddr c) \<and> UnixConn c = conn
    \<and> (\<forall>b. unixgram_Write c b = (the addr, b))"
  using assms
  by (auto simp: AcceptVfkit_darwin_def connectListeningUnixgramConn_def Let_def unixgram_Write_def vfkitMagic_def split: if_splits option.splits)

lemma setsockopt_errors_lost:
  "connectListeningUnixgramConn None None (Some e) rcvbuf conn addr = Inr \<lparr>UnixConn = conn, remoteAddr = addr\<rparr>"
  by (simp add: connectListeningUnixgramConn_def)

end
