(* ===== verification/Cidr.thy ===== *)
theory Cidr
  imports GoNet
begin

text \<open>
  The host numbering of the vendored package \<open>go-cidr\<close> (\<open>cidr.go\<close>, \<open>wrangling.go\<close>), which the
  address pool builds on. Addresses are big-endian numbers (\<open>ipToInt\<close>, \<open>intToIP\<close>); \<open>big.Int\<close>
  is \<open>int\<close> or, where it cannot be negative, \<open>nat\<close>.

  For a masked IPv4 network the lemmas say that masking rounds down to a multiple of the
  network size, that host \<open>i\<close> is the network address plus \<open>i\<close>, and that it lies in the network.
\<close>

subsection \<open>Big-endian numbers\<close>

fun be_val :: "bytes \<Rightarrow> nat" where
  "be_val [] = 0"
| "be_val (b # bs) = unat b * 256 ^ length bs + be_val bs"

fun be_bytes :: "nat \<Rightarrow> nat \<Rightarrow> bytes" where
  "be_bytes 0 n = []"
| "be_bytes (Suc k) n = of_nat (n div 256 ^ k) # be_bytes k (n mod 256 ^ k)"

definition ipToInt :: "ip \<Rightarrow> (nat \<times> nat) exec" where
  "ipToInt i = (if length i = 4 then Ret (be_val i, 32)
     else if length i = 16 then Ret (be_val i, 128) else Panic)"

text \<open>A number with more bytes than the address has makes the copy loop run out of range.\<close>

definition intToIP :: "nat \<Rightarrow> nat \<Rightarrow> ip exec" where
  "intToIP n bits = (if n < 2 ^ bits then Ret (be_bytes (bits div 8) n) else Panic)"

definition insertNumIntoIP :: "ip \<Rightarrow> nat \<Rightarrow> nat \<Rightarrow> ip exec" where
  "insertNumIntoIP i num prefixLen =
     bind_exec (ipToInt i) (\<lambda>(ipInt, totalBits).
       intToIP (ipInt OR push_bit (totalBits - prefixLen) num) totalBits)"

definition HostBig :: "ipnet \<Rightarrow> int \<Rightarrow> ip result exec" where
  "HostBig base num =
     (let (parentLen, addrLen) = Mask_Size (net_Mask base);
          maxHostNum = 2 ^ (addrLen - parentLen) - 1;
          (numUint64, num') =
            (if num < 0 then (- num - 1, maxHostNum - (- num - 1)) else (num, num))
      in if numUint64 > maxHostNum
         then Ret (Inl (''prefix of '' @ itoa_nat parentLen @ '' does not accommodate a host numbered '' @ Itoa num'))
         else bind_exec (insertNumIntoIP (net_IP base) (nat num') (if To4 (net_IP base) \<noteq> [] then 32 else 128))
           (\<lambda>i. Ret (Inr i)))"

definition Host :: "ipnet \<Rightarrow> int \<Rightarrow> ip result exec" where
  "Host base num = HostBig base num"

definition AddressCount :: "ipnet \<Rightarrow> 64 word" where
  "AddressCount network =
     (let (prefixLen, bits) = Mask_Size (net_Mask network) in push_bit (bits - prefixLen) 1)"

subsection \<open>Numbers and bytes\<close>

lemma unat_byte_less: "unat (b :: byte) < 256"
  using unsigned_less [of b, where ?'a = nat] by simp

lemma be_val_bound: "be_val b < 256 ^ length b"
proof (induction b)
  case (Cons x b)
  have "unat x * 256 ^ length b + be_val b < unat x * 256 ^ length b + 256 ^ length b"
    using Cons.IH by simp
  also have "\<dots> = (unat x + 1) * 256 ^ length b" by simp
  also have "\<dots> \<le> 256 * 256 ^ length b" using unat_byte_less [of x] by (intro mult_right_mono) simp_all
  finally show ?case by simp
qed simp

lemma be_bytes_4: "be_bytes 4 n = [of_nat (n div 2 ^ 24), of_nat (n mod 2 ^ 24 div 2 ^ 16),
    of_nat (n mod 2 ^ 24 mod 2 ^ 16 div 2 ^ 8), of_nat (n mod 2 ^ 24 mod 2 ^ 16 mod 2 ^ 8)]"
proof -
  have "be_bytes 4 n = be_bytes (Suc (Suc (Suc (Suc 0)))) n" by (simp only: numeral_Bit0 numeral_One add_Suc_right plus_1_eq_Suc add_0_right Suc_eq_plus1 [symmetric]) simp
  then show ?thesis by simp
qed

lemma length_be_bytes [simp]: "length (be_bytes k n) = k"
  by (induction k arbitrary: n) auto

lemma be_bytes_be_val [simp]: "be_bytes (length b) (be_val b) = b"
  by (induction b) (simp_all add: be_val_bound)

lemma be_val_be_bytes [simp]: "n < 256 ^ k \<Longrightarrow> be_val (be_bytes k n) = n"
proof (induction k arbitrary: n)
  case (Suc k)
  have "n div 256 ^ k < 256" using Suc.prems by (simp add: less_mult_imp_div_less)
  then have "unat (of_nat (n div 256 ^ k) :: byte) = n div 256 ^ k"
    by (simp add: unat_of_nat)
  then show ?case using Suc.IH [of "n mod 256 ^ k"] by (simp add: div_mult_mod_eq)
qed simp

lemma be_val_inj: "length a = length b \<Longrightarrow> be_val a = be_val b \<Longrightarrow> a = b"
  by (metis be_bytes_be_val)

subsection \<open>Masking\<close>

lemma byte_all_ones: "(255 :: byte) = - 1"
  by simp

lemma and_all_ones [simp]: "(x :: byte) AND 255 = x"
  unfolding byte_all_ones by simp

lemma byte_mask: "n \<le> 8 \<Longrightarrow> x AND NOT (drop_bit n 255) = push_bit (8 - n) (drop_bit (8 - n) (x :: byte))"
  unfolding byte_all_ones by (rule bit_word_eqI) (auto simp: bit_simps)

lemma unat_byte_mask:
  assumes "n \<le> 8"
  shows "unat (x AND NOT (drop_bit n 255) :: byte) = unat x div 2 ^ (8 - n) * 2 ^ (8 - n)"
proof -
  have "unat x div 2 ^ (8 - n) * 2 ^ (8 - n) < 256"
    using unat_byte_less [of x] div_times_less_eq_dividend [of "unat x" "2 ^ (8 - n)"] by linarith
  then show ?thesis
    unfolding byte_mask [OF assms] unsigned_push_bit_eq unat_drop_bit_eq
    by (simp add: push_bit_eq_mult drop_bit_eq_div take_bit_eq_mod)
qed

lemma mask_bytes_0: "mask_bytes k 0 = replicate k 0"
  by (induction k) simp_all

lemma length_mask_bytes [simp]: "length (mask_bytes k n) = k"
  by (induction k arbitrary: n) auto

lemma map2_and_zeros: "length b = k \<Longrightarrow> be_val (map2 (AND) b (replicate k 0)) = 0"
  by (induction b arbitrary: k) auto

text \<open>Masking with a prefix of \<open>n\<close> bits rounds the address down to a multiple of the network size.\<close>

lemma be_val_mask:
  "length b = k \<Longrightarrow> n \<le> 8 * k \<Longrightarrow>
    be_val (map2 (AND) b (mask_bytes k n)) = be_val b div 2 ^ (8 * k - n) * 2 ^ (8 * k - n)"
proof (induction k arbitrary: b n)
  case (Suc k)
  then obtain x bs where b: "b = x # bs" "length bs = k" by (cases b) auto
  have pk: "(256 :: nat) ^ k = 2 ^ (8 * k)" by (simp add: power_mult)
  show ?case
  proof (cases "n \<ge> 8")
    case True
    let ?m = "8 * k - (n - 8)"
    have m: "8 * Suc k - n = ?m" "?m \<le> 8 * k" using True Suc.prems by simp_all
    have "(256 :: nat) ^ k = 2 ^ (8 * k - ?m) * 2 ^ ?m" using m(2) by (simp add: pk flip: power_add)
    then have "(unat x * 256 ^ k + be_val bs) div 2 ^ ?m * 2 ^ ?m
        = unat x * 256 ^ k + be_val bs div 2 ^ ?m * 2 ^ ?m"
      by (simp add: mult.assoc [symmetric] add_mult_distrib)
    then show ?thesis
      using Suc.IH [of bs "n - 8"] b True Suc.prems(2) unfolding m(1) by simp
  next
    case False
    have "8 * Suc k - n = 8 * k + (8 - n)" using False by simp
    then have e: "(2 :: nat) ^ (8 * Suc k - n) = 256 ^ k * 2 ^ (8 - n)" by (simp only: power_add pk)
    have "(unat x * 256 ^ k + be_val bs) div 256 ^ k = unat x" using be_val_bound [of bs] b(2) by simp
    then have "be_val b div 2 ^ (8 * Suc k - n) = unat x div 2 ^ (8 - n)"
      unfolding e div_mult2_eq using b by simp
    moreover have "be_val (map2 (AND) b (mask_bytes (Suc k) n)) = unat x div 2 ^ (8 - n) * 2 ^ (8 - n) * 256 ^ k"
      using False b unat_byte_mask [of n x] by (simp add: mask_bytes_0 map2_and_zeros)
    ultimately show ?thesis unfolding e by simp
  qed
qed simp

subsection \<open>IPv4 networks\<close>

text \<open>A network as \<open>ParseCIDR\<close> returns it for IPv4: the address masked with a prefix of \<open>n\<close> bits.\<close>

definition v4net :: "bytes \<Rightarrow> nat \<Rightarrow> ipnet" where
  "v4net b n = \<lparr>net_IP = IP_Mask b (CIDRMask n 32), net_Mask = CIDRMask n 32\<rparr>"

definition is_v4net :: "ipnet \<Rightarrow> bool" where
  "is_v4net w \<longleftrightarrow> (\<exists>b n. length b = 4 \<and> n \<le> 32 \<and> w = v4net b n)"

definition net_bits :: "ipnet \<Rightarrow> nat" where
  "net_bits w = fst (Mask_Size (net_Mask w))"

definition net_size :: "ipnet \<Rightarrow> nat" where
  "net_size w = 2 ^ (32 - net_bits w)"

lemma Mask_Size_table: "list_all (\<lambda>n. Mask_Size (CIDRMask n 32) = (n, 32)) [0..<33]"
  by code_simp

lemma Mask_Size_CIDRMask [simp]: "n \<le> 32 \<Longrightarrow> Mask_Size (CIDRMask n 32) = (n, 32)"
  using Mask_Size_table by (simp add: list_all_iff)

lemma CIDRMask_32: "n \<le> 32 \<Longrightarrow> CIDRMask n 32 = mask_bytes 4 n"
  by (simp add: CIDRMask_def)

lemma IP_Mask_4: "length b = 4 \<Longrightarrow> n \<le> 32 \<Longrightarrow> IP_Mask b (CIDRMask n 32) = map2 (AND) b (mask_bytes 4 n)"
  by (simp add: IP_Mask_def CIDRMask_32 Let_def)

lemma v4net_simps:
  assumes "length b = 4" "n \<le> 32"
  shows "net_bits (v4net b n) = n" "net_Mask (v4net b n) = mask_bytes 4 n" "length (net_IP (v4net b n)) = 4"
    "be_val (net_IP (v4net b n)) = be_val b div 2 ^ (32 - n) * 2 ^ (32 - n)"
proof -
  show "net_bits (v4net b n) = n" using assms by (simp add: net_bits_def v4net_def)
  show "net_Mask (v4net b n) = mask_bytes 4 n" using assms by (simp add: v4net_def CIDRMask_32)
  have "net_IP (v4net b n) = map2 (AND) b (mask_bytes 4 n)" using assms by (simp add: v4net_def IP_Mask_4)
  then show "length (net_IP (v4net b n)) = 4"
    "be_val (net_IP (v4net b n)) = be_val b div 2 ^ (32 - n) * 2 ^ (32 - n)"
    using assms be_val_mask [of b 4 n] by simp_all
qed

lemma or_low_bits:
  assumes "(i :: nat) < 2 ^ m"
  shows "q * 2 ^ m OR i = q * 2 ^ m + i"
proof -
  have "bit (q * 2 ^ m) k \<Longrightarrow> m \<le> k" for k by (metis bit_push_bit_iff_nat push_bit_eq_mult)
  moreover have "bit i k \<Longrightarrow> k < m" for k
  proof (rule ccontr)
    assume "bit i k" "\<not> k < m"
    then have "(2 :: nat) ^ m \<le> 2 ^ k" by (intro power_increasing) simp_all
    then have "i < 2 ^ k" using assms by linarith
    then have "i div 2 ^ k = 0" by (rule div_less)
    then show False using \<open>bit i k\<close> by (simp add: bit_iff_odd)
  qed
  ultimately show ?thesis
    by (intro disjunctive_add_eq_or [symmetric]) (rule bit_eqI, auto simp: bit_and_iff dest: leD)
qed

text \<open>Host \<open>i\<close> of a network of the right size is the network address plus \<open>i\<close>.\<close>

definition host_addr :: "ipnet \<Rightarrow> nat \<Rightarrow> ip" where
  "host_addr w i = be_bytes 4 (be_val (net_IP w) + i)"

lemma v4net_fits:
  assumes "is_v4net w" "i < net_size w"
  shows "be_val (net_IP w) + i < 2 ^ 32"
proof -
  obtain b n where w: "length b = 4" "n \<le> 32" "w = v4net b n" using assms(1) by (auto simp: is_v4net_def)
  let ?D = "2 ^ (32 - n) :: nat"
  have e: "(2 :: nat) ^ 32 = 2 ^ n * ?D" using w(2) by (simp flip: power_add)
  have "be_val b < 2 ^ 32" using be_val_bound [of b] w(1) by simp
  then have "be_val b div ?D < 2 ^ n" unfolding e by (simp add: less_mult_imp_div_less)
  then have "be_val b div ?D * ?D + ?D \<le> 2 ^ n * ?D"
    by (metis Suc_leI add.commute mult_Suc mult_le_mono1)
  then have "be_val b div ?D * ?D + i < 2 ^ n * ?D"
    using assms(2) w by (simp add: v4net_simps net_size_def)
  then show ?thesis unfolding e using w by (simp add: v4net_simps)
qed

lemma Host_v4net:
  assumes "is_v4net w" "i < net_size w"
  shows "Host w (int i) = Ret (Inr (host_addr w i))"
proof -
  obtain b n where w: "length b = 4" "n \<le> 32" "w = v4net b n" using assms(1) by (auto simp: is_v4net_def)
  have s: "Mask_Size (net_Mask w) = (n, 32)" using w by (simp add: v4net_def)
  have i: "i < 2 ^ (32 - n)" using assms(2) w by (simp add: net_size_def v4net_simps)
  have l: "length (net_IP w) = 4" using w by (simp add: v4net_simps)
  then have t: "To4 (net_IP w) \<noteq> []" by (metis To4_4 list.size(3) zero_neq_numeral)
  have "int i < int (2 ^ (32 - n))" using i by (simp only: of_nat_less_iff)
  then have "int i < 2 ^ (32 - n)" by (simp only: of_nat_power of_nat_numeral)
  then have "\<not> 2 ^ (32 - n) - 1 < int i" by linarith
  moreover have "be_val (net_IP w) OR i = be_val (net_IP w) + i"
    using or_low_bits [OF i] w by (simp add: v4net_simps)
  ultimately show ?thesis
    using v4net_fits [OF assms] l t s
    by (simp add: Host_def HostBig_def insertNumIntoIP_def ipToInt_def intToIP_def host_addr_def)
qed

lemma AddressCount_v4net:
  assumes "is_v4net w"
  shows "unat (AddressCount w) = net_size w"
proof -
  obtain b n where w: "length b = 4" "n \<le> 32" "w = v4net b n" using assms(1) by (auto simp: is_v4net_def)
  have "(2 :: nat) ^ (32 - n) < 2 ^ 64" by (rule power_strict_increasing) simp_all
  then have "unat (of_nat (2 ^ (32 - n)) :: 64 word) = 2 ^ (32 - n)"
    unfolding unat_of_nat by (intro mod_less) simp
  then show ?thesis
    using w by (simp add: AddressCount_def net_size_def net_bits_def v4net_def)
qed

lemma length_host_addr [simp]: "length (host_addr w i) = 4"
  by (simp add: host_addr_def)

lemma be_val_host_addr:
  assumes "is_v4net w" "i < net_size w"
  shows "be_val (host_addr w i) = be_val (net_IP w) + i"
  unfolding host_addr_def by (rule be_val_be_bytes) (use v4net_fits [OF assms] in simp)

lemma host_addr_inj:
  assumes "is_v4net w" "i < net_size w" "j < net_size w" "host_addr w i = host_addr w j"
  shows "i = j"
  using be_val_host_addr [OF assms(1,2)] be_val_host_addr [OF assms(1,3)] unfolding assms(4) by linarith

lemma host_addr_contained:
  assumes "is_v4net w" "i < net_size w"
  shows "IPNet_Contains w (host_addr w i)"
proof -
  obtain b n where w: "length b = 4" "n \<le> 32" "w = v4net b n" using assms(1) by (auto simp: is_v4net_def)
  let ?D = "2 ^ (32 - n) :: nat" and ?h = "host_addr w i" and ?m = "mask_bytes 4 n"
  have "be_val ?h = be_val b div ?D * ?D + i"
    using be_val_host_addr [OF assms] w by (simp add: v4net_simps)
  moreover have "i < ?D" using assms(2) w by (simp add: net_size_def v4net_simps)
  ultimately have "be_val ?h div ?D = be_val b div ?D" by simp
  then have "be_val (map2 (AND) ?h ?m) = be_val (map2 (AND) (net_IP w) ?m)"
    using be_val_mask [of ?h 4 n] be_val_mask [of "net_IP w" 4 n] w by (simp add: v4net_simps)
  then have "map2 (AND) (net_IP w) ?m = map2 (AND) ?h ?m"
    by (intro be_val_inj) (use w in \<open>simp_all add: v4net_simps\<close>)
  then show ?thesis
    using w by (simp add: IPNet_Contains_def v4net_simps Let_def)
qed

subsection \<open>CIDR notation\<close>

lemma IndexByte_append: "c \<notin> set s \<Longrightarrow> IndexByte (s @ c # t) c = Some (length s)"
  by (induction s) auto

lemma dotted_chars: "length b = 4 \<Longrightarrow> c \<in> set (dotted b) \<Longrightarrow> digit_val c \<noteq> None \<or> c = CHR ''.''"
  using itoa_nat_digits by (auto simp: length_4_iff dotted_4)

lemma IP_Mask_mapped: "length b = 4 \<Longrightarrow> n \<le> 32 \<Longrightarrow> IP_Mask (v4InV6Prefix @ b) (CIDRMask n 32) = IP_Mask b (CIDRMask n 32)"
  by (simp add: IP_Mask_def CIDRMask_32 Let_def)

text \<open>The usual notation of a network is parsed into its address and the masked network.\<close>

lemma ParseCIDR_print:
  assumes "length b = 4" "n \<le> 32"
  shows "ParseCIDR (dotted b @ CHR ''/'' # itoa_nat n) = Inr (v4InV6Prefix @ b, v4net b n)"
proof -
  have "CHR ''/'' \<notin> set (dotted b)"
    using dotted_chars [OF assms(1), of "CHR ''/''"] by (auto simp: digit_val_def)
  then have "IndexByte (dotted b @ CHR ''/'' # itoa_nat n) (CHR ''/'') = Some (length (dotted b))"
    by (rule IndexByte_append)
  moreover have "dtoi (itoa_nat n) = Some (n, length (itoa_nat n))"
    using dtoi_itoa [of n "[]"] assms(2) by simp
  moreover have "parseIPv4 (dotted b) = v4InV6Prefix @ b" using parseIPv4_dotted [OF assms(1)] .
  moreover have "v4InV6Prefix \<noteq> []" by (simp add: v4InV6Prefix_def)
  ultimately show ?thesis
    using assms IP_Mask_mapped [OF assms] by (simp add: ParseCIDR_def v4net_def Let_def)
qed

end
