(* ===== verification/IPPool.thy ===== *)
theory IPPool
  imports Cidr
begin

text \<open>
  The address pool of \<open>pkg/tap/ip_pool.go\<close>, on the host numbering of \<open>Cidr\<close>.

  The loop over the leases visits them in an arbitrary order, which is the argument \<open>es\<close> of
  the operations; the lemmas assume only that it enumerates the table. The locale
  \<open>lease_store\<close> is what the DHCP server relies on: an answer is recorded, was not recorded
  for somebody else, and a client with a lease gets a lease of its own back. It gives that no
  two clients are ever told the same address; with one lease per client at the start
  (\<open>exclusive_store\<close>), that a client is always told the same one.
\<close>

subsection \<open>The pool\<close>

record IPPool =
  pool_base :: ipnet
  pool_count :: "64 word"
  leases :: "string \<rightharpoonup> string"

definition NewIPPool :: "ipnet \<Rightarrow> IPPool" where
  "NewIPPool base = \<lparr>pool_base = base, pool_count = AddressCount base, leases = Map.empty\<rparr>"

definition Leases :: "IPPool \<Rightarrow> (string \<rightharpoonup> string)" where
  "Leases p = leases p"

definition pool_Mask :: "IPPool \<Rightarrow> nat" where
  "pool_Mask p = fst (Mask_Size (net_Mask (pool_base p)))"

text \<open>The candidate loop; the first argument counts the iterations that are left.\<close>

fun assign_loop :: "ipnet \<Rightarrow> (string \<rightharpoonup> string) \<Rightarrow> nat \<Rightarrow> nat \<Rightarrow> ip option exec" where
  "assign_loop base ls 0 i = Ret None"
| "assign_loop base ls (Suc k) i =
     bind_exec (Host base (sint (of_nat i :: 64 word))) (\<lambda>r.
       case r of
         Inl _ \<Rightarrow> assign_loop base ls k (Suc i)
       | Inr candidate \<Rightarrow>
           if ls (IP_String candidate) = None then Ret (Some candidate)
           else assign_loop base ls k (Suc i))"

definition GetOrAssign ::
  "(string \<times> string) list \<Rightarrow> IPPool \<Rightarrow> string \<Rightarrow> (IPPool \<times> ip result) exec" where
  "GetOrAssign es p mac =
     (case find (\<lambda>(i, candidate). candidate = mac) es of
        Some (i, _) \<Rightarrow> Ret (p, Inr (ParseIP i))
      | None \<Rightarrow>
          bind_exec (assign_loop (pool_base p) (leases p) (unat (pool_count p) - 1) 1) (\<lambda>r.
            case r of
              Some candidate \<Rightarrow>
                Ret (p\<lparr>leases := (leases p)(IP_String candidate \<mapsto> mac)\<rparr>, Inr candidate)
            | None \<Rightarrow> Ret (p, Inl ''cannot find available IP'')))"

definition Reserve :: "IPPool \<Rightarrow> ip \<Rightarrow> string \<Rightarrow> IPPool" where
  "Reserve p i mac = p\<lparr>leases := (leases p)(IP_String i \<mapsto> mac)\<rparr>"

definition Release :: "(string \<times> string) list \<Rightarrow> IPPool \<Rightarrow> string \<Rightarrow> IPPool" where
  "Release es p given =
     (let found = (case find (\<lambda>(i, mac). mac = given) es of Some (i, _) \<Rightarrow> i | None \<Rightarrow> [])
      in if found \<noteq> [] then p\<lparr>leases := (leases p)(found := None)\<rparr> else p)"

subsection \<open>Well-formed pools\<close>

definition pool_wf :: "IPPool \<Rightarrow> bool" where
  "pool_wf p \<longleftrightarrow> is_v4net (pool_base p) \<and> pool_count p = AddressCount (pool_base p)
     \<and> (\<forall>k \<in> dom (leases p). \<exists>a. length a = 4 \<and> k = dotted a)"

text \<open>No client holds two addresses.\<close>

definition one_lease :: "IPPool \<Rightarrow> bool" where
  "one_lease p \<longleftrightarrow> (\<forall>k k' m. leases p k = Some m \<and> leases p k' = Some m \<longrightarrow> k = k')"

text \<open>Whether host number \<open>i\<close> is free, and the first free one.\<close>

definition host_free :: "IPPool \<Rightarrow> nat \<Rightarrow> bool" where
  "host_free p i \<longleftrightarrow> leases p (dotted (host_addr (pool_base p) i)) = None"

definition first_free :: "IPPool \<Rightarrow> nat option" where
  "first_free p = find (host_free p) [1..<net_size (pool_base p)]"

subsection \<open>The contract\<close>

inductive serve ::
  "('s \<Rightarrow> string \<rightharpoonup> string) \<Rightarrow> ((string \<times> string) list \<Rightarrow> 's \<Rightarrow> string \<Rightarrow> ('s \<times> ip result) exec)
     \<Rightarrow> 's \<Rightarrow> (string \<times> ip result) list \<Rightarrow> 's \<Rightarrow> bool" for table assign where
  serve_Nil: "serve table assign s [] s"
| serve_Cons: "enumerates es (table s) \<Longrightarrow> assign es s mac = Ret (s1, r)
    \<Longrightarrow> serve table assign s1 log s2 \<Longrightarrow> serve table assign s ((mac, r) # log) s2"

inductive_cases serve_ConsE: "serve table assign s (x # log) s'"

lemma serve_one:
  "enumerates es (table s) \<Longrightarrow> assign es s mac = Ret (s1, r) \<Longrightarrow> serve table assign s [(mac, r)] s1"
  by (rule serve_Cons) (auto intro: serve_Nil)

locale lease_store =
  fixes table :: "'s \<Rightarrow> string \<rightharpoonup> string"
    and ok :: "'s \<Rightarrow> bool"
    and assign :: "(string \<times> string) list \<Rightarrow> 's \<Rightarrow> string \<Rightarrow> ('s \<times> ip result) exec"
  assumes assign_returns: "ok s \<Longrightarrow> enumerates es (table s) \<Longrightarrow> \<exists>s' r. assign es s mac = Ret (s', r)"
    and assign_keeps: "ok s \<Longrightarrow> enumerates es (table s) \<Longrightarrow> assign es s mac = Ret (s', r) \<Longrightarrow> ok s'"
    and assign_records: "ok s \<Longrightarrow> enumerates es (table s) \<Longrightarrow> assign es s mac = Ret (s', Inr a) \<Longrightarrow>
      table s' = (table s)(IP_String a \<mapsto> mac) \<and> table s (IP_String a) \<in> {None, Some mac}"
    and assign_fails: "ok s \<Longrightarrow> enumerates es (table s) \<Longrightarrow> assign es s mac = Ret (s', Inl e) \<Longrightarrow>
      s' = s \<and> mac \<notin> ran (table s)"
begin

lemma assign_extends:
  assumes "ok s" "enumerates es (table s)" "assign es s mac = Ret (s', r)"
  shows "table s \<subseteq>\<^sub>m table s'"
proof (cases r)
  case (Inl e)
  then have "s' = s" using assign_fails [OF assms(1,2)] assms(3) by simp
  then show ?thesis by simp
next
  case (Inr a)
  then have "table s' = (table s)(IP_String a \<mapsto> mac)" "table s (IP_String a) \<in> {None, Some mac}"
    using assign_records assms by blast+
  then show ?thesis by (auto simp: map_le_def)
qed

lemma serve_extends:
  assumes "serve table assign s log s'" "ok s"
  shows "ok s' \<and> table s \<subseteq>\<^sub>m table s'"
  using assms
proof (induction rule: serve.induct)
  case (serve_Cons es s mac s1 r log s2)
  then have "ok s1" "table s \<subseteq>\<^sub>m table s1" using assign_keeps assign_extends by blast+
  then show ?case using serve_Cons.IH by (auto intro: map_le_trans)
qed simp

lemma serve_recorded:
  assumes "serve table assign s log s'" "ok s" "(mac, Inr a) \<in> set log"
  shows "table s' (IP_String a) = Some mac"
  using assms
proof (induction rule: serve.induct)
  case (serve_Cons es s m s1 r log s2)
  have s1: "ok s1" using serve_Cons assign_keeps by blast
  show ?case
  proof (cases "(mac, Inr a) \<in> set log")
    case False
    then have [simp]: "m = mac" "r = Inr a" using serve_Cons.prems(2) by auto
    have "table s1 (IP_String a) = Some mac"
      using assign_records [OF serve_Cons.prems(1) serve_Cons.hyps(1)] serve_Cons.hyps(2) by simp
    moreover have "table s1 \<subseteq>\<^sub>m table s2" using serve_extends [OF serve_Cons.hyps(3) s1] by blast
    ultimately show ?thesis by (metis domI map_le_def)
  qed (use serve_Cons s1 in blast)
qed simp

lemma serve_append:
  "serve table assign s l1 s1 \<Longrightarrow> serve table assign s1 l2 s2 \<Longrightarrow> serve table assign s (l1 @ l2) s2"
  by (induction rule: serve.induct) (auto intro: serve.intros)

lemma serve_no_conflict:
  assumes "serve table assign s log s'" "ok s"
    and "(m1, Inr a) \<in> set log" "(m2, Inr b) \<in> set log" "IP_String a = IP_String b"
  shows "m1 = m2"
  using serve_recorded [OF assms(1,2,3)] serve_recorded [OF assms(1,2,4)] assms(5) by simp

end

locale exclusive_store = lease_store +
  assumes exclusive: "ok s \<Longrightarrow> table s k = Some m \<Longrightarrow> table s k' = Some m \<Longrightarrow> k = k'"
begin

lemma serve_same_address:
  assumes "serve table assign s log s'" "ok s" "(m, Inr a) \<in> set log" "(m, Inr b) \<in> set log"
  shows "IP_String a = IP_String b"
  using assms serve_extends serve_recorded exclusive by blast

end

subsection \<open>The candidate loop\<close>

lemma sint_of_small_nat: "i < 2 ^ 63 \<Longrightarrow> sint (of_nat i :: 64 word) = int i"
  by (simp add: signed_of_nat signed_take_bit_int_eq_self)

lemma net_size_le: "net_size w \<le> 2 ^ 32"
  unfolding net_size_def by (rule power_increasing) simp_all

lemma assign_loop_find:
  assumes "is_v4net w" "i + k \<le> net_size w"
  shows "assign_loop w ls k i =
    Ret (map_option (host_addr w) (find (\<lambda>i. ls (dotted (host_addr w i)) = None) [i..<i + k]))"
  using assms(2)
proof (induction k arbitrary: i)
  case (Suc k)
  have "i < 2 ^ 63" using Suc.prems net_size_le [of w] by simp
  then have "Host w (sint (of_nat i :: 64 word)) = Ret (Inr (host_addr w i))"
    using Host_v4net [OF assms(1), of i] Suc.prems by (simp add: sint_of_small_nat)
  moreover have "[i..<i + Suc k] = i # [Suc i..<Suc i + k]" by (simp add: upt_conv_Cons)
  ultimately show ?case using Suc.IH [of "Suc i"] Suc.prems by simp
qed simp

lemma find_lease:
  assumes "enumerates es m" "find (\<lambda>(i, candidate). candidate = mac) es = r"
  shows "case r of None \<Rightarrow> mac \<notin> ran m | Some (i, c) \<Rightarrow> c = mac \<and> m i = Some mac"
proof (cases r)
  case None
  then have "\<forall>(i, c) \<in> set es. c \<noteq> mac" using assms(2) by (auto simp: find_None_iff)
  then show ?thesis using None assms(1) by (auto simp: ran_def enumerates_in_set [OF assms(1), symmetric])
next
  case (Some x)
  then have "x \<in> set es \<and> (case x of (i, c) \<Rightarrow> c = mac)" using assms(2) by (auto simp: find_Some_iff) (metis nth_mem)
  then show ?thesis using Some enumerates_in_set [OF assms(1)] by auto
qed

lemma GetOrAssign_known:
  assumes "pool_wf p" "enumerates es (leases p)" "mac \<in> ran (leases p)"
  shows "\<exists>a. length a = 4 \<and> leases p (dotted a) = Some mac \<and> GetOrAssign es p mac = Ret (p, Inr (v4InV6Prefix @ a))"
proof -
  obtain k c where x: "find (\<lambda>(i, candidate). candidate = mac) es = Some (k, c)"
    using find_lease [OF assms(2)] assms(3)
    by (cases "find (\<lambda>(i, candidate). candidate = mac) es") fastforce+
  have l: "leases p k = Some mac" using find_lease [OF assms(2) x] by simp
  then obtain a where a: "length a = 4" "k = dotted a" using assms(1) by (auto simp: pool_wf_def)
  have "GetOrAssign es p mac = Ret (p, Inr (v4InV6Prefix @ a))"
    using x a by (simp add: GetOrAssign_def)
  then show ?thesis using l a by auto
qed

lemma GetOrAssign_new:
  assumes "pool_wf p" "enumerates es (leases p)" "mac \<notin> ran (leases p)"
  shows "GetOrAssign es p mac = (case first_free p of
      Some i \<Rightarrow> Ret (p\<lparr>leases := (leases p)(dotted (host_addr (pool_base p) i) \<mapsto> mac)\<rparr>,
        Inr (host_addr (pool_base p) i))
    | None \<Rightarrow> Ret (p, Inl ''cannot find available IP''))"
proof -
  have "find (\<lambda>(i, candidate). candidate = mac) es = None"
    using find_lease [OF assms(2)] assms(3)
    by (cases "find (\<lambda>(i, candidate). candidate = mac) es") (fastforce dest: ranI)+
  moreover have "1 + (net_size (pool_base p) - 1) = net_size (pool_base p)" by (simp add: net_size_def)
  then have "assign_loop (pool_base p) (leases p) (unat (pool_count p) - 1) 1
      = Ret (map_option (host_addr (pool_base p)) (first_free p))"
    using assign_loop_find [of "pool_base p" 1 "net_size (pool_base p) - 1" "leases p"] assms(1)
    by (simp add: pool_wf_def AddressCount_v4net first_free_def host_free_def [abs_def])
  ultimately show ?thesis
    by (simp add: GetOrAssign_def split: option.split)
qed

lemma first_free_Some:
  "first_free p = Some i \<Longrightarrow> 0 < i \<and> i < net_size (pool_base p) \<and> host_free p i \<and> (\<forall>j. 0 < j \<and> j < i \<longrightarrow> \<not> host_free p j)"
proof -
  assume "first_free p = Some i"
  then obtain n where n: "n < length [1..<net_size (pool_base p)]" "host_free p ([1..<net_size (pool_base p)] ! n)"
      "i = [1..<net_size (pool_base p)] ! n" "\<forall>j<n. \<not> host_free p ([1..<net_size (pool_base p)] ! j)"
    unfolding first_free_def find_Some_iff by blast
  then have i: "i = Suc n" by simp
  have "\<not> host_free p j" if "0 < j" "j < i" for j
    using n(4) [rule_format, of "j - 1"] that n(1) i by simp
  then show ?thesis using n i by auto
qed

lemma first_free_None: "first_free p = None \<longleftrightarrow> (\<forall>i. 0 < i \<and> i < net_size (pool_base p) \<longrightarrow> \<not> host_free p i)"
  by (auto simp: first_free_def find_None_iff)

lemma pool_wf_record:
  "pool_wf p \<Longrightarrow> length a = 4 \<Longrightarrow> pool_wf (p\<lparr>leases := (leases p)(dotted a \<mapsto> mac)\<rparr>)"
  by (auto simp: pool_wf_def)

text \<open>The pool implements the contract, and the stronger one if no client starts with two leases.\<close>

lemma GetOrAssign_contract:
  assumes "pool_wf p" "enumerates es (leases p)"
  obtains r where "GetOrAssign es p mac = Ret (p, Inl r)" "mac \<notin> ran (leases p)"
  | a where "GetOrAssign es p mac = Ret (p\<lparr>leases := (leases p)(IP_String a \<mapsto> mac)\<rparr>, Inr a)"
      "length (To4 a) = 4"
      "leases p (IP_String a) = None \<and> mac \<notin> ran (leases p) \<or> leases p (IP_String a) = Some mac"
proof (cases "mac \<in> ran (leases p)")
  case True
  then obtain a where a: "length a = 4" "leases p (dotted a) = Some mac"
      "GetOrAssign es p mac = Ret (p, Inr (v4InV6Prefix @ a))"
    using GetOrAssign_known [OF assms] by blast
  then have "p\<lparr>leases := (leases p)(dotted a \<mapsto> mac)\<rparr> = p" by (simp add: map_upd_triv)
  then show ?thesis using that(2) [of "v4InV6Prefix @ a"] a by auto
next
  case False
  show ?thesis
  proof (cases "first_free p")
    case None
    then show ?thesis using GetOrAssign_new [OF assms False] that(1) False by simp
  next
    case (Some i)
    then have "host_free p i" using first_free_Some by blast
    then show ?thesis
      using GetOrAssign_new [OF assms False] Some False that(2) [of "host_addr (pool_base p) i"]
      by (auto simp: host_free_def)
  qed
qed

interpretation pool: lease_store leases pool_wf GetOrAssign
proof
  fix s es mac s' r assume w: "pool_wf s" "enumerates es (leases s)"
  then show "\<exists>s' r. GetOrAssign es s mac = Ret (s', r)" by (rule GetOrAssign_contract) blast+
  assume "GetOrAssign es s mac = Ret (s', r)"
  then show "pool_wf s'"
    by - (rule GetOrAssign_contract [OF w, of mac]; use w pool_wf_record in \<open>auto simp: IP_String_To4\<close>)
next
  fix s es mac s' a assume w: "pool_wf s" "enumerates es (leases s)" and r: "GetOrAssign es s mac = Ret (s', Inr a)"
  then show "leases s' = (leases s)(IP_String a \<mapsto> mac) \<and> leases s (IP_String a) \<in> {None, Some mac}"
    by - (rule GetOrAssign_contract [OF w, of mac]; auto)
next
  fix s es mac s' e assume w: "pool_wf s" "enumerates es (leases s)" and r: "GetOrAssign es s mac = Ret (s', Inl e)"
  then show "s' = s \<and> mac \<notin> ran (leases s)"
    by - (rule GetOrAssign_contract [OF w, of mac]; auto)
qed

lemma one_lease_GetOrAssign:
  assumes w: "pool_wf p" "enumerates es (leases p)" and "one_lease p" "GetOrAssign es p mac = Ret (p', r)"
  shows "one_lease p'"
proof (cases rule: GetOrAssign_contract [OF w, of mac])
  case (2 a)
  then have p': "leases p' = (leases p)(IP_String a \<mapsto> mac)" using assms(4) by simp
  show ?thesis
    using 2(3) assms(3) unfolding one_lease_def p' by (auto simp: ran_def)
qed (use assms in simp)

interpretation pool1: exclusive_store leases "\<lambda>p. pool_wf p \<and> one_lease p" GetOrAssign
proof
  fix s es mac assume "pool_wf s \<and> one_lease s" "enumerates es (leases s)"
  then show "\<exists>s' r. GetOrAssign es s mac = Ret (s', r)" using pool.assign_returns by blast
next
  fix s es mac s' r
  assume "pool_wf s \<and> one_lease s" "enumerates es (leases s)" "GetOrAssign es s mac = Ret (s', r)"
  then show "pool_wf s' \<and> one_lease s'" using pool.assign_keeps one_lease_GetOrAssign by blast
next
  fix s es mac s' a
  assume "pool_wf s \<and> one_lease s" "enumerates es (leases s)" "GetOrAssign es s mac = Ret (s', Inr a)"
  then show "leases s' = (leases s)(IP_String a \<mapsto> mac) \<and> leases s (IP_String a) \<in> {None, Some mac}"
    using pool.assign_records by blast
next
  fix s es mac s' e
  assume "pool_wf s \<and> one_lease s" "enumerates es (leases s)" "GetOrAssign es s mac = Ret (s', Inl e)"
  then show "s' = s \<and> mac \<notin> ran (leases s)" using pool.assign_fails by blast
next
  fix s k m k'
  assume "pool_wf s \<and> one_lease s" "leases s k = Some m" "leases s k' = Some m"
  then show "k = k'" unfolding one_lease_def by blast
qed

subsection \<open>Properties of the pool\<close>

text \<open>
  C21. The complete behaviour of \<open>GetOrAssign\<close>, for any order in which the leases are visited:
  a client with a lease gets a lease of its own; otherwise the first free host number gives
  the address, which is recorded; otherwise the error is returned and nothing changes.
\<close>

theorem GetOrAssign_spec:
  assumes "pool_wf p" "enumerates es (leases p)"
  shows "if mac \<in> ran (leases p)
    then \<exists>a. length a = 4 \<and> leases p (dotted a) = Some mac \<and> GetOrAssign es p mac = Ret (p, Inr (v4InV6Prefix @ a))
    else GetOrAssign es p mac = (case first_free p of
        Some i \<Rightarrow> Ret (p\<lparr>leases := (leases p)(dotted (host_addr (pool_base p) i) \<mapsto> mac)\<rparr>,
          Inr (host_addr (pool_base p) i))
      | None \<Rightarrow> Ret (p, Inl ''cannot find available IP''))"
  using GetOrAssign_known [OF assms] GetOrAssign_new [OF assms] by simp

text \<open>
  A new client is given an address of the configured network, never the network address
  itself and never one somebody holds; it is refused only when every address but the
  network address is held.
\<close>

lemma GetOrAssign_new_client:
  assumes "pool_wf p" "enumerates es (leases p)" "mac \<notin> ran (leases p)"
  shows "(\<exists>i. 0 < i \<and> i < net_size (pool_base p)
      \<and> GetOrAssign es p mac = Ret (Reserve p (host_addr (pool_base p) i) mac, Inr (host_addr (pool_base p) i))
      \<and> IPNet_Contains (pool_base p) (host_addr (pool_base p) i)
      \<and> host_addr (pool_base p) i \<noteq> host_addr (pool_base p) 0 \<and> host_free p i)
    \<or> GetOrAssign es p mac = Ret (p, Inl ''cannot find available IP'')
      \<and> (\<forall>i. 0 < i \<and> i < net_size (pool_base p) \<longrightarrow> \<not> host_free p i)"
proof (cases "first_free p")
  case None
  then have "\<forall>i. 0 < i \<and> i < net_size (pool_base p) \<longrightarrow> \<not> host_free p i"
    by (simp only: first_free_None)
  moreover have "GetOrAssign es p mac = Ret (p, Inl ''cannot find available IP'')"
    using GetOrAssign_new [OF assms] None by simp
  ultimately show ?thesis by blast
next
  case (Some i)
  have b: "is_v4net (pool_base p)" using assms(1) by (simp add: pool_wf_def)
  have i: "0 < i" "i < net_size (pool_base p)" "host_free p i" using first_free_Some [OF Some] by auto
  then have "host_addr (pool_base p) i \<noteq> host_addr (pool_base p) 0"
    using host_addr_inj [OF b, of i 0] by auto
  then show ?thesis
    using GetOrAssign_new [OF assms] Some i host_addr_contained [OF b] by (auto simp: Reserve_def)
qed

text \<open>
  No conflicts: in any sequence of requests, whatever the orders of the loops, two
  different clients are never told the same address.
\<close>

lemma pool_no_conflict:
  assumes "pool_wf p" "serve leases GetOrAssign p log p'"
    and "(m1, Inr a) \<in> set log" "(m2, Inr b) \<in> set log" "IP_String a = IP_String b"
  shows "m1 = m2"
  using pool.serve_no_conflict assms by blast

text \<open>
  Stable addresses: if no client starts with two leases, a client is told the same address
  every time it asks, in any sequence of requests.
\<close>

lemma pool_same_address:
  assumes "pool_wf p" "one_lease p" "serve leases GetOrAssign p log p'"
    and "(m, Inr a) \<in> set log" "(m, Inr b) \<in> set log"
  shows "IP_String a = IP_String b"
  using pool1.serve_same_address assms by blast

text \<open>
  The pool does not keep the broadcast address back: when only the last address of the
  network is free, the next new client is told that address.
\<close>

lemma pool_assigns_broadcast:
  assumes "pool_wf p" "enumerates es (leases p)" "mac \<notin> ran (leases p)" "1 < net_size (pool_base p)"
    and "\<forall>i. 0 < i \<and> i < net_size (pool_base p) - 1 \<longrightarrow> \<not> host_free p i"
    and "host_free p (net_size (pool_base p) - 1)"
  shows "\<exists>p'. GetOrAssign es p mac = Ret (p', Inr (host_addr (pool_base p) (net_size (pool_base p) - 1)))"
proof -
  obtain i where i: "first_free p = Some i"
    using assms(4,6) first_free_None [of p]
    by (cases "first_free p") auto
  then have "i = net_size (pool_base p) - 1"
    using first_free_Some [OF i] assms(5) by (cases "i < net_size (pool_base p) - 1") auto
  then show ?thesis using GetOrAssign_new [OF assms(1-3)] i by simp
qed

subsection \<open>A small pool\<close>

text \<open>\<open>10.0.0.0/30\<close> with the gateway at \<open>10.0.0.1\<close> and one client at \<open>10.0.0.2\<close>.\<close>

definition pool30 :: IPPool where
  "pool30 = \<lparr>pool_base = v4net [10, 0, 0, 0] 30, pool_count = AddressCount (v4net [10, 0, 0, 0] 30),
     leases = [''10.0.0.1'' \<mapsto> ''gw'', ''10.0.0.2'' \<mapsto> ''a'']\<rparr>"

definition leases30 :: "(string \<times> string) list" where
  "leases30 = [(''10.0.0.2'', ''a''), (''10.0.0.1'', ''gw'')]"

lemma pool30_simps [simp]:
  "pool_base pool30 = v4net [10, 0, 0, 0] 30" "net_size (v4net [10, 0, 0, 0] 30) = 4"
  by (simp_all add: pool30_def net_size_def v4net_simps)

lemma leases_pool30: "leases pool30 = [''10.0.0.1'' \<mapsto> ''gw'', ''10.0.0.2'' \<mapsto> ''a'']"
  by (simp add: pool30_def)

lemma dotted30:
  "dotted [10, 0, 0, 1] = ''10.0.0.1''" "dotted [10, 0, 0, 2] = ''10.0.0.2''" "dotted [10, 0, 0, 3] = ''10.0.0.3''"
  by code_simp+

lemma host_addr30:
  "host_addr (v4net [10, 0, 0, 0] 30) 1 = [10, 0, 0, 1]" "host_addr (v4net [10, 0, 0, 0] 30) 2 = [10, 0, 0, 2]"
  "host_addr (v4net [10, 0, 0, 0] 30) 3 = [10, 0, 0, 3]"
  by (simp_all add: host_addr_def v4net_simps be_bytes_4)

lemma host30: "\<not> host_free pool30 1" "\<not> host_free pool30 2" "host_free pool30 3"
  by (simp_all only: host_free_def pool30_simps host_addr30 dotted30) (simp_all add: leases_pool30)

lemma pool30_wf [simp]: "pool_wf pool30" "one_lease pool30" "enumerates leases30 (leases pool30)"
proof -
  have "\<exists>a. length a = 4 \<and> ''10.0.0.1'' = dotted a" "\<exists>a. length a = 4 \<and> ''10.0.0.2'' = dotted a"
    by (rule exI [of _ "[10, 0, 0, 1]"], simp add: dotted30)
      (rule exI [of _ "[10, 0, 0, 2]"], simp add: dotted30)
  then have "\<forall>k \<in> dom (leases pool30). \<exists>a. length a = 4 \<and> k = dotted a"
    by (auto simp: leases_pool30 split: if_splits)
  moreover have "is_v4net (pool_base pool30)"
    unfolding is_v4net_def by (rule exI [of _ "[10, 0, 0, 0]"], rule exI [of _ 30]) simp
  ultimately show "pool_wf pool30" by (simp add: pool_wf_def pool30_def)
  show "one_lease pool30" by (auto simp: one_lease_def leases_pool30 split: if_splits)
  show "enumerates leases30 (leases pool30)"
    by (auto simp: enumerates_def leases30_def leases_pool30 fun_eq_iff)
qed

text \<open>Client \<open>a\<close> asks, then a new client \<open>b\<close> asks twice.\<close>

definition log30 :: "(string \<times> ip result) list" where
  "log30 = [(''a'', Inr (v4InV6Prefix @ [10, 0, 0, 2])), (''b'', Inr [10, 0, 0, 3]),
     (''b'', Inr (v4InV6Prefix @ [10, 0, 0, 3]))]"

lemma new_client30: "''b'' \<notin> ran (leases pool30)"
  by (auto simp: ran_def leases_pool30 split: if_splits)

lemma serve30: "serve leases GetOrAssign pool30 log30 (Reserve pool30 [10, 0, 0, 3] ''b'')"
proof -
  let ?p = "Reserve pool30 [10, 0, 0, 3] ''b''" and ?es = "(''10.0.0.3'', ''b'') # leases30"
  have "enumerates ?es (leases ?p)"
    by (auto simp: enumerates_def leases30_def leases_pool30 Reserve_def dotted30 fun_eq_iff)
  moreover have "GetOrAssign ?es ?p ''b'' = Ret (?p, Inr (ParseIP (dotted [10, 0, 0, 3])))"
    by (simp add: GetOrAssign_def dotted30)
  ultimately have l: "serve leases GetOrAssign ?p [(''b'', Inr (ParseIP (dotted [10, 0, 0, 3])))] ?p"
    by (rule serve_Cons) (rule serve_Nil)
  have "[1..<4] = [1, 2, 3 :: nat]" by code_simp
  then have "first_free pool30 = Some 3"
    using host30 by (simp only: first_free_def pool30_simps find.simps if_True if_False simp_thms)
  then have "GetOrAssign leases30 pool30 ''b'' = Ret (?p, Inr [10, 0, 0, 3])"
    using GetOrAssign_new [OF pool30_wf(1,3) new_client30] by (simp add: Reserve_def host_addr30)
  note l = serve_Cons [OF pool30_wf(3) this l]
  have "GetOrAssign leases30 pool30 ''a'' = Ret (pool30, Inr (ParseIP (dotted [10, 0, 0, 2])))"
    by (simp add: GetOrAssign_def leases30_def dotted30)
  note l = serve_Cons [OF pool30_wf(3) this l]
  then show ?thesis by (simp add: log30_def)
qed

theorem GetOrAssign_spec_witness:
  "\<exists>a. leases pool30 (dotted a) = Some ''a'' \<and> GetOrAssign leases30 pool30 ''a'' = Ret (pool30, Inr (v4InV6Prefix @ a))"
proof -
  have "''a'' \<in> ran (leases pool30)" by (rule ranI [of _ "''10.0.0.2''"]) (simp add: leases_pool30)
  then show ?thesis
    using GetOrAssign_spec [of pool30 leases30 "''a''"] by (simp only: pool30_wf if_True) blast
qed

end
