(* ===== verification/DhcpCodec.thy ===== *)
theory DhcpCodec
  imports GoNet
begin

text \<open>
  DHCP messages as the vendored package \<open>insomniacslk/dhcp/dhcpv4\<close> builds, prints and parses
  them: the fixed header, the option map, \<open>NewReplyFromRequest\<close>, \<open>ToBytes\<close>, \<open>FromBytes\<close>, and
  the label encoding of \<open>rfc1035label\<close>.

  A nil and an empty option value are not told apart: the parser stores nil for an option of
  length zero, and both are read as absent by \<open>Get\<close>. The lemmas show that the parser
  inverts the printer, on the options (of any length, split into parts of at most 255 bytes)
  and on whole messages, padding included.
\<close>

subsection \<open>Messages\<close>

type_synonym Options = "byte \<rightharpoonup> bytes"

record DHCPv4 =
  OpCode :: byte
  HWType :: byte
  HopCount :: byte
  TransactionID :: bytes
  NumSeconds :: "16 word"
  Flags :: "16 word"
  ClientIPAddr :: ip
  YourIPAddr :: ip
  ServerIPAddr :: ip
  GatewayIPAddr :: ip
  ClientHWAddr :: bytes
  ServerHostName :: bytes
  BootFileName :: bytes
  dhcp_options :: Options

definition OpcodeBootRequest :: byte where "OpcodeBootRequest = 1"
definition OpcodeBootReply :: byte where "OpcodeBootReply = 2"

definition MessageTypeNone :: byte where "MessageTypeNone = 0"
definition MessageTypeDiscover :: byte where "MessageTypeDiscover = 1"
definition MessageTypeOffer :: byte where "MessageTypeOffer = 2"
definition MessageTypeRequest :: byte where "MessageTypeRequest = 3"
definition MessageTypeAck :: byte where "MessageTypeAck = 5"

definition OptionSubnetMask :: byte where "OptionSubnetMask = 1"
definition OptionRouter :: byte where "OptionRouter = 3"
definition OptionDomainNameServer :: byte where "OptionDomainNameServer = 6"
definition OptionInterfaceMTU :: byte where "OptionInterfaceMTU = 26"
definition OptionIPAddressLeaseTime :: byte where "OptionIPAddressLeaseTime = 51"
definition OptionDHCPMessageType :: byte where "OptionDHCPMessageType = 53"
definition OptionServerIdentifier :: byte where "OptionServerIdentifier = 54"
definition OptionClientIdentifier :: byte where "OptionClientIdentifier = 61"
definition OptionRelayAgentInformation :: byte where "OptionRelayAgentInformation = 82"
definition OptionDNSDomainSearchList :: byte where "OptionDNSDomainSearchList = 119"

lemmas option_codes = OptionSubnetMask_def OptionRouter_def OptionDomainNameServer_def
  OptionInterfaceMTU_def OptionIPAddressLeaseTime_def OptionDHCPMessageType_def
  OptionServerIdentifier_def OptionClientIdentifier_def OptionRelayAgentInformation_def
  OptionDNSDomainSearchList_def

definition opt_Get :: "Options \<Rightarrow> byte \<Rightarrow> bytes" where
  "opt_Get opts code = (case opts code of Some v \<Rightarrow> v | None \<Rightarrow> [])"

definition UpdateOption :: "DHCPv4 \<Rightarrow> byte \<Rightarrow> bytes \<Rightarrow> DHCPv4" where
  "UpdateOption d code v = d\<lparr>dhcp_options := (dhcp_options d)(code \<mapsto> v)\<rparr>"

definition MessageType :: "DHCPv4 \<Rightarrow> byte" where
  "MessageType d = (case opt_Get (dhcp_options d) OptionDHCPMessageType of [b] \<Rightarrow> b | _ \<Rightarrow> MessageTypeNone)"

subsection \<open>Replies\<close>

definition IPv4zero :: ip where
  "IPv4zero = v4InV6Prefix @ [0, 0, 0, 0]"

text \<open>\<open>New\<close> with a transaction number the random generator chose.\<close>

definition dhcp_New :: "bytes \<Rightarrow> DHCPv4" where
  "dhcp_New xid = \<lparr>OpCode = OpcodeBootRequest, HWType = 1, HopCount = 0, TransactionID = xid,
     NumSeconds = 0, Flags = 0, ClientIPAddr = IPv4zero, YourIPAddr = IPv4zero,
     ServerIPAddr = IPv4zero, GatewayIPAddr = IPv4zero, ClientHWAddr = replicate 6 0,
     ServerHostName = [], BootFileName = [], dhcp_options = Map.empty\<rparr>"

definition WithReply :: "DHCPv4 \<Rightarrow> DHCPv4 \<Rightarrow> DHCPv4" where
  "WithReply request d =
     d\<lparr>OpCode := (if OpCode request = OpcodeBootRequest then OpcodeBootReply else OpcodeBootRequest),
       HWType := HWType request, TransactionID := TransactionID request,
       ClientHWAddr := ClientHWAddr request, Flags := Flags request\<rparr>"

definition WithGatewayIP :: "ip \<Rightarrow> DHCPv4 \<Rightarrow> DHCPv4" where
  "WithGatewayIP i d = d\<lparr>GatewayIPAddr := i\<rparr>"

definition WithOptionCopied :: "DHCPv4 \<Rightarrow> byte \<Rightarrow> DHCPv4 \<Rightarrow> DHCPv4" where
  "WithOptionCopied request opt d =
     (let val = opt_Get (dhcp_options request) opt in if val \<noteq> [] then UpdateOption d opt val else d)"

text \<open>The random generator can fail; its result is the second argument.\<close>

definition NewReplyFromRequest :: "DHCPv4 \<Rightarrow> bytes result \<Rightarrow> DHCPv4 result" where
  "NewReplyFromRequest request xid =
     (case xid of
        Inl err \<Rightarrow> Inl err
      | Inr x \<Rightarrow> Inr
          (WithOptionCopied request OptionClientIdentifier
          (WithOptionCopied request OptionRelayAgentInformation
          (WithGatewayIP (GatewayIPAddr request) (WithReply request (dhcp_New x))))))"

subsection \<open>Option values\<close>

definition opt_IP_ToBytes :: "ip \<Rightarrow> bytes" where
  "opt_IP_ToBytes i = To4 i"

definition opt_IPs_ToBytes :: "ip list \<Rightarrow> bytes" where
  "opt_IPs_ToBytes is = concat (map To4 is)"

definition opt_Duration_ToBytes :: "nat \<Rightarrow> bytes" where
  "opt_Duration_ToBytes seconds = PutUint32_BE (of_nat seconds)"

definition opt_Uint16_ToBytes :: "16 word \<Rightarrow> bytes" where
  "opt_Uint16_ToBytes n = PutUint16_BE n"

definition string_bytes :: "string \<Rightarrow> bytes" where
  "string_bytes s = map (\<lambda>c. of_char c) s"

definition labelToBytes :: "string \<Rightarrow> bytes" where
  "labelToBytes label =
     (if label = [] then [0]
      else concat (map (\<lambda>part. of_nat (length part) # string_bytes part) (Split label (CHR ''.''))) @ [0])"

definition labelsToBytes :: "string list \<Rightarrow> bytes" where
  "labelsToBytes labels = concat (map labelToBytes labels)"

subsection \<open>Printing\<close>

function marshal_chunks :: "byte \<Rightarrow> bytes \<Rightarrow> bytes" where
  "marshal_chunks code data =
     (if data = [] then []
      else let n = min (length data) 255
        in code # of_nat n # take n data @ marshal_chunks code (drop n data))"
  by pat_completeness auto
termination by (relation "measure (\<lambda>(code, data). length data)") auto

declare marshal_chunks.simps [simp del]

definition marshal_option :: "byte \<Rightarrow> bytes \<Rightarrow> bytes" where
  "marshal_option code data = (if data = [] then [code, 0] else marshal_chunks code data)"

definition sortedKeys :: "Options \<Rightarrow> nat list" where
  "sortedKeys opts = filter (\<lambda>c. opts (of_nat c) \<noteq> None) [0..<256]"

definition opt_Marshal :: "Options \<Rightarrow> bytes" where
  "opt_Marshal opts =
     concat (map (\<lambda>c. if c = 255 \<or> c = 0 then [] else marshal_option (of_nat c) (opt_Get opts (of_nat c)))
       (sortedKeys opts))"

definition magicCookie :: bytes where
  "magicCookie = [99, 130, 83, 99]"

definition writeIP :: "ip \<Rightarrow> bytes exec" where
  "writeIP i = (if i = [] then Ret [0, 0, 0, 0] else if length (To4 i) = 4 then Ret (To4 i) else Panic)"

text \<open>\<open>copy\<close> into a zeroed array of \<open>n\<close> bytes.\<close>

definition pad_to :: "nat \<Rightarrow> bytes \<Rightarrow> bytes" where
  "pad_to n b = take n b @ replicate (n - length b) 0"

definition dhcp_ToBytes :: "DHCPv4 \<Rightarrow> bytes exec" where
  "dhcp_ToBytes d =
     bind_exec (writeIP (ClientIPAddr d)) (\<lambda>ci.
     bind_exec (writeIP (YourIPAddr d)) (\<lambda>yi.
     bind_exec (writeIP (ServerIPAddr d)) (\<lambda>si.
     bind_exec (writeIP (GatewayIPAddr d)) (\<lambda>gi.
       let b = [OpCode d, HWType d, of_nat (length (ClientHWAddr d)), HopCount d] @ TransactionID d
             @ PutUint16_BE (NumSeconds d) @ PutUint16_BE (Flags d) @ ci @ yi @ si @ gi
             @ pad_to 16 (ClientHWAddr d)
             @ pad_to 63 (ServerHostName d) @ [0] @ pad_to 127 (BootFileName d) @ [0]
             @ magicCookie @ opt_Marshal (dhcp_options d) @ [255]
       in Ret (b @ replicate (300 - length b) 0)))))"

subsection \<open>Parsing\<close>

definition too_short :: "nat \<Rightarrow> nat \<Rightarrow> nat \<Rightarrow> gerror" where
  "too_short pos have want = ''buffer too short at position '' @ itoa_nat pos @ '': have ''
     @ itoa_nat have @ '' bytes, want '' @ itoa_nat want @ '' bytes''"

text \<open>The error of the first read that fails, for the sizes of the reads.\<close>

fun lex_error :: "nat list \<Rightarrow> nat \<Rightarrow> nat \<Rightarrow> gerror option" where
  "lex_error [] pos len = None"
| "lex_error (n # ns) pos len =
     (if n \<le> len then lex_error ns (pos + n) (len - n) else Some (too_short pos len n))"

definition header_reads :: "nat list" where
  "header_reads = [1, 1, 1, 1, 4, 2, 2, 4, 4, 4, 4, 16, 64, 128, 4]"

function parse_opts :: "nat \<Rightarrow> Options \<Rightarrow> bytes \<Rightarrow> (Options \<times> bool \<times> bytes) result" where
  "parse_opts pos opts [] = Inr (opts, False, [])"
| "parse_opts pos opts (c # r) =
     (if c = 0 then parse_opts (pos + 1) opts r
      else if c = 255 then Inr (opts, True, r)
      else (case r of
          [] \<Rightarrow> Inr (opts(c \<mapsto> opt_Get opts c), False, [])
        | l # r' \<Rightarrow>
            if unat l \<le> length r'
            then parse_opts (pos + 2 + unat l) (opts(c \<mapsto> opt_Get opts c @ take (unat l) r')) (drop (unat l) r')
            else Inl (''error collecting options: '' @ too_short (pos + 2) (length r') (unat l))))"
  by pat_completeness auto
termination by (relation "measure (\<lambda>(pos, opts, data). length data)") auto

definition fromBytesCheckEnd :: "bool \<Rightarrow> bytes \<Rightarrow> Options result" where
  "fromBytesCheckEnd checkEnd data =
     (case parse_opts 0 Map.empty data of
        Inl err \<Rightarrow> Inl err
      | Inr (opts, finished, rest) \<Rightarrow>
          if data \<noteq> [] \<and> \<not> finished \<and> checkEnd then Inl ''unexpected EOF''
          else if list_all (\<lambda>b. b = 0 \<or> b = 255) rest then Inr opts
          else Inl ''invalid options data'')"

definition until_nul :: "bytes \<Rightarrow> bytes" where
  "until_nul b = takeWhile (\<lambda>x. x \<noteq> 0) b"

definition bytes_list_String :: "bytes \<Rightarrow> string" where
  "bytes_list_String b = ''['' @ join '' '' (map (\<lambda>x. itoa_nat (unat x)) b) @ '']''"

definition dhcp_FromBytes :: "bytes \<Rightarrow> DHCPv4 result" where
  "dhcp_FromBytes q =
     (case lex_error header_reads 0 (length q) of
        Some err \<Rightarrow> Inl err
      | None \<Rightarrow>
          if take 4 (drop 236 q) \<noteq> magicCookie
          then Inl (''malformed DHCP packet: got magic cookie '' @ bytes_list_String (take 4 (drop 236 q))
            @ '', want '' @ bytes_list_String magicCookie)
          else (case fromBytesCheckEnd True (drop 240 q) of
              Inl err \<Rightarrow> Inl err
            | Inr opts \<Rightarrow> Inr \<lparr>OpCode = q ! 0, HWType = q ! 1, HopCount = q ! 3,
                TransactionID = take 4 (drop 4 q), NumSeconds = Uint16_BE (drop 8 q),
                Flags = Uint16_BE (drop 10 q), ClientIPAddr = take 4 (drop 12 q),
                YourIPAddr = take 4 (drop 16 q), ServerIPAddr = take 4 (drop 20 q),
                GatewayIPAddr = take 4 (drop 24 q),
                ClientHWAddr = take (min 16 (unat (q ! 2))) (take 16 (drop 28 q)),
                ServerHostName = until_nul (take 64 (drop 44 q)),
                BootFileName = until_nul (take 128 (drop 108 q)), dhcp_options = opts\<rparr>))"

subsection \<open>Options: parsing inverts printing\<close>

lemma of_nat_byte_unat [simp]: "n < 256 \<Longrightarrow> unat (of_nat n :: byte) = n"
  by (simp add: unat_of_nat)

declare parse_opts.simps(2) [simp del]

lemma parse_opt1:
  assumes "c \<noteq> 0" "c \<noteq> 255" "length d < 256"
  shows "parse_opts pos opts (c # of_nat (length d) # d @ rest) =
    parse_opts (pos + 2 + length d) (opts(c \<mapsto> opt_Get opts c @ d)) rest"
  using assms by (simp add: parse_opts.simps(2))

lemma parse_chunks:
  "c \<noteq> 0 \<Longrightarrow> c \<noteq> 255 \<Longrightarrow> \<exists>pos'. parse_opts pos opts (marshal_chunks c data @ rest) =
    parse_opts pos' (if data = [] then opts else opts(c \<mapsto> opt_Get opts c @ data)) rest"
proof (induction c data arbitrary: pos opts rule: marshal_chunks.induct)
  case (1 c data)
  show ?case
  proof (cases "data = []")
    case True
    then show ?thesis by (auto simp: marshal_chunks.simps)
  next
    case False
    let ?n = "min (length data) 255"
    let ?o = "opts(c \<mapsto> opt_Get opts c @ take ?n data)"
    have "marshal_chunks c data = c # of_nat (length (take ?n data)) # take ?n data @ marshal_chunks c (drop ?n data)"
      using False by (subst marshal_chunks.simps) (simp add: Let_def)
    then have "parse_opts pos opts (marshal_chunks c data @ rest) =
        parse_opts (pos + 2 + length (take ?n data)) ?o (marshal_chunks c (drop ?n data) @ rest)"
      using parse_opt1 [OF "1.prems", of "take ?n data" pos opts "marshal_chunks c (drop ?n data) @ rest"] by simp
    moreover obtain pos' where "parse_opts (pos + 2 + length (take ?n data)) ?o (marshal_chunks c (drop ?n data) @ rest) =
        parse_opts pos' (if drop ?n data = [] then ?o else ?o(c \<mapsto> opt_Get ?o c @ drop ?n data)) rest"
      using "1.IH" [OF False refl "1.prems"] by blast
    moreover have "(if drop ?n data = [] then ?o else ?o(c \<mapsto> opt_Get ?o c @ drop ?n data))
        = opts(c \<mapsto> opt_Get opts c @ data)"
      by (auto simp: opt_Get_def)
    ultimately have "parse_opts pos opts (marshal_chunks c data @ rest) =
        parse_opts pos' (opts(c \<mapsto> opt_Get opts c @ data)) rest" by (simp only:)
    then show ?thesis using False by (intro exI [of _ pos']) (simp only: if_False)
  qed
qed

lemma parse_option:
  assumes "c \<noteq> 0" "c \<noteq> 255"
  shows "\<exists>pos'. parse_opts pos opts (marshal_option c data @ rest) =
    parse_opts pos' (opts(c \<mapsto> opt_Get opts c @ data)) rest"
proof (cases "data = []")
  case True
  then show ?thesis
    using parse_opt1 [OF assms, of "[]" pos opts rest] by (auto simp: marshal_option_def)
next
  case False
  then show ?thesis using parse_chunks [OF assms, of pos opts data rest] by (simp add: marshal_option_def)
qed

lemma byte_of_nat_eq: "n < 256 \<Longrightarrow> m < 256 \<Longrightarrow> (of_nat n :: byte) = of_nat m \<longleftrightarrow> n = m"
  by (metis of_nat_byte_unat)

lemma parse_options:
  assumes "distinct cs" "\<forall>c \<in> set cs. c < 256 \<and> c \<noteq> 0 \<and> c \<noteq> 255 \<and> opts (of_nat c) = None"
  shows "\<exists>pos'. parse_opts pos opts (concat (map (\<lambda>c. marshal_option (of_nat c) (g c)) cs) @ rest) =
    parse_opts pos' (\<lambda>k. if unat k \<in> set cs then Some (g (unat k)) else opts k) rest"
  using assms
proof (induction cs arbitrary: pos opts)
  case (Cons c cs)
  let ?k = "of_nat c :: byte" and ?rest = "concat (map (\<lambda>c. marshal_option (of_nat c) (g c)) cs) @ rest"
  have c: "unat ?k = c" "c \<noteq> 0" "c \<noteq> 255" "c < 256" "opts ?k = None" using Cons.prems by simp_all
  have k: "?k \<noteq> 0" "?k \<noteq> 255" using c(2-4) byte_of_nat_eq [of c 0] byte_of_nat_eq [of c 255] by simp_all
  obtain pos1 where p1: "parse_opts pos opts (marshal_option ?k (g c) @ ?rest) =
      parse_opts pos1 (opts(?k \<mapsto> g c)) ?rest"
    using parse_option [OF k, of pos opts "g c" ?rest] c(5) by (simp add: opt_Get_def) blast
  have "\<forall>d \<in> set cs. d < 256 \<and> d \<noteq> 0 \<and> d \<noteq> 255 \<and> (opts(?k \<mapsto> g c)) (of_nat d) = None"
    using Cons.prems c(4) by (auto simp: byte_of_nat_eq)
  then obtain pos2 where p2: "parse_opts pos1 (opts(?k \<mapsto> g c)) ?rest =
      parse_opts pos2 (\<lambda>j. if unat j \<in> set cs then Some (g (unat j)) else (opts(?k \<mapsto> g c)) j) rest"
    using Cons.IH [of "opts(?k \<mapsto> g c)" pos1] Cons.prems(1) by (simp only: distinct.simps) blast
  have m: "(\<lambda>j. if unat j \<in> set cs then Some (g (unat j)) else (opts(?k \<mapsto> g c)) j)
      = (\<lambda>j. if unat j \<in> set (c # cs) then Some (g (unat j)) else opts j)"
    using c(1,4) Cons.prems(1) by (auto simp: fun_eq_iff)
  show ?case
    by (rule exI [of _ pos2]) (simp only: list.map concat.simps append_assoc p1 p2 m)
qed auto

definition plain_options :: "Options \<Rightarrow> Options" where
  "plain_options opts = (\<lambda>k. if k = 0 \<or> k = 255 then None else opts k)"

lemma concat_map_skip: "concat (map (\<lambda>c. if P c then [] else f c) xs) = concat (map f (filter (\<lambda>c. \<not> P c) xs))"
  by (induction xs) auto

text \<open>All options but the two markers come back, and padding after the end marker is ignored.\<close>

lemma options_roundtrip:
  "fromBytesCheckEnd True (opt_Marshal opts @ 255 # replicate n 0) = Inr (plain_options opts)"
proof -
  let ?cs = "filter (\<lambda>c. \<not> (c = 255 \<or> c = 0)) (sortedKeys opts)"
  let ?g = "\<lambda>c. opt_Get opts (of_nat c)"
  have m: "opt_Marshal opts = concat (map (\<lambda>c. marshal_option (of_nat c) (?g c)) ?cs)"
    unfolding opt_Marshal_def by (rule concat_map_skip)
  have "distinct ?cs" "\<forall>c \<in> set ?cs. c < 256 \<and> c \<noteq> 0 \<and> c \<noteq> 255 \<and> (Map.empty :: Options) (of_nat c) = None"
    by (auto simp: sortedKeys_def)
  then obtain pos where "parse_opts 0 Map.empty (opt_Marshal opts @ 255 # replicate n 0) =
      parse_opts pos (\<lambda>k. if unat k \<in> set ?cs then Some (?g (unat k)) else None) (255 # replicate n 0)"
    unfolding m using parse_options [of ?cs Map.empty 0 ?g "255 # replicate n 0"] by blast
  moreover have "(\<lambda>k. if unat k \<in> set ?cs then Some (?g (unat k)) else None) = plain_options opts"
  proof
    fix k :: byte
    have "unat k < 256" using unsigned_less [of k, where ?'a = nat] by simp
    moreover have "unat k = 255 \<longleftrightarrow> k = 255" "unat k = 0 \<longleftrightarrow> k = 0"
      using byte_of_nat_eq [of "unat k" 255] byte_of_nat_eq [of "unat k" 0] calculation by simp_all
    ultimately show "(if unat k \<in> set ?cs then Some (?g (unat k)) else None) = plain_options opts k"
      by (auto simp: plain_options_def sortedKeys_def opt_Get_def split: option.splits)
  qed
  ultimately show ?thesis
    by (simp add: fromBytesCheckEnd_def parse_opts.simps(2) list_all_iff)
qed

text \<open>
  A message whose fields fit their places comes back as it was, the addresses in their
  four-byte form.
\<close>

definition message_fits :: "DHCPv4 \<Rightarrow> bool" where
  "message_fits d \<longleftrightarrow> length (TransactionID d) = 4 \<and> length (ClientHWAddr d) \<le> 16
     \<and> ServerHostName d = [] \<and> BootFileName d = [] \<and> dhcp_options d 0 = None \<and> dhcp_options d 255 = None"

lemma lex_error_None: "lex_error ns pos n = None \<longleftrightarrow> sum_list ns \<le> n"
  by (induction ns arbitrary: pos n) auto

lemma header_reads_ok: "240 \<le> n \<Longrightarrow> lex_error header_reads 0 n = None"
  unfolding lex_error_None header_reads_def by simp

lemma until_nul_zeros [simp]: "until_nul (replicate n 0 @ b) = (if n = 0 then until_nul b else [])"
  by (cases n) (simp_all add: until_nul_def)

lemma writeIP_length: "writeIP i = Ret b \<Longrightarrow> length b = 4"
  by (auto simp: writeIP_def split: if_splits)

lemma message_roundtrip:
  assumes "message_fits d" "writeIP (ClientIPAddr d) = Ret ci" "writeIP (YourIPAddr d) = Ret yi"
    and "writeIP (ServerIPAddr d) = Ret si" "writeIP (GatewayIPAddr d) = Ret gi"
  shows "\<exists>b. dhcp_ToBytes d = Ret b \<and> 300 \<le> length b \<and> dhcp_FromBytes b =
    Inr (d\<lparr>ClientIPAddr := ci, YourIPAddr := yi, ServerIPAddr := si, GatewayIPAddr := gi\<rparr>)"
proof -
  let ?hw = "ClientHWAddr d"
  define h where "h = [OpCode d, HWType d, of_nat (length ?hw), HopCount d] @ TransactionID d
      @ PutUint16_BE (NumSeconds d) @ PutUint16_BE (Flags d) @ ci @ yi @ si @ gi"
  define t where "t = opt_Marshal (dhcp_options d) @ [255]"
  define b where "b = h @ pad_to 16 ?hw @ replicate 192 0 @ magicCookie @ t"
  have l: "length ci = 4" "length yi = 4" "length si = 4" "length gi = 4" "length (TransactionID d) = 4"
    "length ?hw \<le> 16" using assms by (simp_all add: message_fits_def writeIP_length)
  have hl: "length h = 28" using l by (simp add: h_def)
  have pl: "length (pad_to 16 ?hw) = 16" using l by (simp add: pad_to_def)
  define n where "n = 300 - length b"
  have z: "replicate 63 0 @ 0 # replicate 127 0 @ [0 :: byte] = replicate 192 0" by code_simp
  have "dhcp_ToBytes d = Ret (b @ replicate n 0)"
    using assms by (simp add: dhcp_ToBytes_def b_def h_def t_def n_def message_fits_def pad_to_def [of 63]
        pad_to_def [of 127] Let_def z [symmetric])
  moreover have "dhcp_FromBytes (b @ replicate n 0) =
    Inr (d\<lparr>ClientIPAddr := ci, YourIPAddr := yi, ServerIPAddr := si, GatewayIPAddr := gi\<rparr>)"
  proof -
    let ?q = "b @ replicate n 0"
    have q: "?q = h @ pad_to 16 ?hw @ replicate 192 0 @ magicCookie @ t @ replicate n 0" by (simp add: b_def)
    have "lex_error header_reads 0 (length ?q) = None"
      using hl pl by (intro header_reads_ok) (simp add: q magicCookie_def)
    moreover have "drop 236 ?q = magicCookie @ t @ replicate n 0" "drop 240 ?q = t @ replicate n 0"
      "take 16 (drop 28 ?q) = pad_to 16 ?hw" "take 64 (drop 44 ?q) = replicate 64 0"
      "take 128 (drop 108 ?q) = replicate 128 0"
      unfolding q using hl pl by (simp_all add: magicCookie_def)
    moreover have "?q ! 0 = OpCode d" "?q ! 1 = HWType d" "unat (?q ! 2) = length ?hw" "?q ! 3 = HopCount d"
      using l unfolding q h_def by simp_all
    moreover have "take 4 (drop 4 ?q) = TransactionID d" "Uint16_BE (drop 8 ?q) = NumSeconds d"
      "Uint16_BE (drop 10 ?q) = Flags d" "take 4 (drop 12 ?q) = ci" "take 4 (drop 16 ?q) = yi"
      "take 4 (drop 20 ?q) = si" "take 4 (drop 24 ?q) = gi"
      using l unfolding q h_def by (simp_all add: codec_simps)
    moreover have "take (min 16 (length ?hw)) (pad_to 16 ?hw) = ?hw" using l by (simp add: pad_to_def)
    moreover have "plain_options (dhcp_options d) = dhcp_options d"
      using assms(1) by (auto simp: plain_options_def message_fits_def)
    moreover have "until_nul (replicate 64 0) = []" "until_nul (replicate 128 0) = []"
      by (simp_all add: until_nul_def)
    moreover have "take 4 (magicCookie @ t @ replicate n 0) = magicCookie" by (simp add: magicCookie_def)
    ultimately show ?thesis
      using assms(1) options_roundtrip [of "dhcp_options d" n]
      by (simp add: dhcp_FromBytes_def t_def message_fits_def)
  qed
  ultimately show ?thesis by (auto simp: n_def)
qed

end
