(* ===== verification/Dhcp.thy ===== *)
theory Dhcp
  imports Types IPPool DhcpCodec
begin

text \<open>
  The DHCP server of \<open>pkg/services/dhcp/dhcp.go\<close>: the handler that answers a message from the
  address pool, and the receive step of the vendored \<open>server4\<close> loop in front of it.

  The order in which the pool visits its leases and the number of the random generator are
  arguments. A run of the server is a list of requests and what was sent back; the lemmas
  reduce it to a run of the pool's contract, so that no two clients are sent the same address.
\<close>

subsection \<open>The handler\<close>

definition serverPort :: nat where
  "serverPort = 67"

text \<open>The options of a reply that do not depend on the request, in the order they are set.\<close>

definition set_reply_options :: "Configuration \<Rightarrow> ipnet \<Rightarrow> DHCPv4 \<Rightarrow> DHCPv4" where
  "set_reply_options cfg parsedSubnet r0 =
     (let gw = ParseIP (cfg_GatewayIP cfg);
          r1 = UpdateOption r0 OptionServerIdentifier (opt_IP_ToBytes gw);
          r2 = UpdateOption r1 OptionIPAddressLeaseTime (opt_Duration_ToBytes 3600);
          r3 = UpdateOption r2 OptionSubnetMask (opt_IP_ToBytes (net_Mask parsedSubnet));
          r4 = UpdateOption r3 OptionRouter (opt_IP_ToBytes gw);
          r5 = UpdateOption r4 OptionDomainNameServer (opt_IPs_ToBytes [gw]);
          r6 = UpdateOption r5 OptionInterfaceMTU (opt_Uint16_ToBytes (of_int (cfg_MTU cfg)))
      in UpdateOption r6 OptionDNSDomainSearchList (labelsToBytes (cfg_DNSSearchDomains cfg)))"

text \<open>
  The handler returns the pool and the bytes it writes to the peer, if it does. A failed write
  is only logged.
\<close>

definition handler ::
  "Configuration \<Rightarrow> (string \<times> string) list \<Rightarrow> bytes result \<Rightarrow> IPPool \<Rightarrow> DHCPv4 \<Rightarrow> (IPPool \<times> bytes option) exec" where
  "handler cfg es xid ipPool m =
     (case NewReplyFromRequest m xid of
        Inl err \<Rightarrow> Ret (ipPool, None)
      | Inr reply \<Rightarrow>
          bind_exec (GetOrAssign es ipPool (MAC_String (ClientHWAddr m))) (\<lambda>(pool', r).
            case r of
              Inl err \<Rightarrow> Ret (pool', None)
            | Inr i \<Rightarrow>
                (case ParseCIDR (cfg_Subnet cfg) of
                   Inl err \<Rightarrow> Ret (pool', None)
                 | Inr (_, parsedSubnet) \<Rightarrow>
                     (let reply1 = set_reply_options cfg parsedSubnet (reply\<lparr>YourIPAddr := i\<rparr>);
                          mt = MessageType m
                      in if mt = MessageTypeDiscover
                         then bind_exec (dhcp_ToBytes (UpdateOption reply1 OptionDHCPMessageType [MessageTypeOffer]))
                           (\<lambda>b. Ret (pool', Some b))
                         else if mt = MessageTypeRequest
                         then bind_exec (dhcp_ToBytes (UpdateOption reply1 OptionDHCPMessageType [MessageTypeAck]))
                           (\<lambda>b. Ret (pool', Some b))
                         else Ret (pool', None)))))"

subsection \<open>The server loop\<close>

definition IPv4bcast :: ip where
  "IPv4bcast = v4InV6Prefix @ [255, 255, 255, 255]"

text \<open>
  One datagram of the loop: what does not parse is skipped, and a client without an address
  is answered by broadcast. The result is the pool, the address answered to, and the bytes.
\<close>

definition serve_datagram ::
  "Configuration \<Rightarrow> (string \<times> string) list \<Rightarrow> bytes result \<Rightarrow> IPPool \<Rightarrow> ip \<Rightarrow> bytes
     \<Rightarrow> (IPPool \<times> (ip \<times> bytes) option) exec" where
  "serve_datagram cfg es xid ipPool peer datagram =
     (case dhcp_FromBytes (take 4096 datagram) of
        Inl err \<Rightarrow> Ret (ipPool, None)
      | Inr m \<Rightarrow>
          (let upeer = (if peer = [] \<or> IP_Equal (To4 peer) IPv4zero then IPv4bcast else peer)
           in bind_exec (handler cfg es xid ipPool m)
             (\<lambda>(pool', out). Ret (pool', map_option (\<lambda>b. (upeer, b)) out))))"

text \<open>
  \<open>Serve\<close> on the datagrams that arrive before reading fails, with the error of that read as its
  result. A handler runs in a goroutine of its own; what handlers share is the pool, whose
  operations are serialised by its lock, so they are taken in the order of their turns there.
  The argument \<open>order\<close> is the order in which the map of leases is visited in each state.
\<close>

fun dhcp_Serve ::
  "Configuration \<Rightarrow> (IPPool \<Rightarrow> (string \<times> string) list) \<Rightarrow> IPPool \<Rightarrow> (ip \<times> bytes result \<times> bytes) list \<Rightarrow> gerror
     \<Rightarrow> (IPPool \<times> (ip \<times> bytes) list \<times> gerror) exec" where
  "dhcp_Serve cfg order ipPool [] err = Ret (ipPool, [], err)"
| "dhcp_Serve cfg order ipPool ((peer, xid, datagram) # ds) err =
     bind_exec (serve_datagram cfg (order ipPool) xid ipPool peer datagram) (\<lambda>(pool', out).
       bind_exec (dhcp_Serve cfg order pool' ds err) (\<lambda>(pool'', outs, e).
         Ret (pool'', (case out of None \<Rightarrow> outs | Some b \<Rightarrow> b # outs), e)))"

definition dhcp_Mux_leases :: "IPPool \<Rightarrow> (string \<rightharpoonup> string)" where
  "dhcp_Mux_leases ipPool = Leases ipPool"

subsection \<open>The reply\<close>

text \<open>Requests as the parser produces them.\<close>

definition request_ok :: "DHCPv4 \<Rightarrow> bool" where
  "request_ok m \<longleftrightarrow> length (TransactionID m) = 4 \<and> length (ClientHWAddr m) \<le> 16
     \<and> length (GatewayIPAddr m) = 4"

lemma request_ok_FromBytes: "dhcp_FromBytes q = Inr m \<Longrightarrow> request_ok m"
proof -
  assume a: "dhcp_FromBytes q = Inr m"
  then have "sum_list header_reads \<le> length q"
    unfolding lex_error_None [symmetric, of _ _ 0] by (auto simp: dhcp_FromBytes_def split: option.splits)
  then have "240 \<le> length q" by (simp add: header_reads_def)
  moreover have "TransactionID m = take 4 (drop 4 q)" "GatewayIPAddr m = take 4 (drop 24 q)"
    "ClientHWAddr m = take (min 16 (unat (q ! 2))) (take 16 (drop 28 q))"
    using a by (auto simp: dhcp_FromBytes_def split: option.splits if_splits sum.splits)
  ultimately show ?thesis by (simp add: request_ok_def)
qed

lemma UpdateOption_sel [simp]:
  "OpCode (UpdateOption d c v) = OpCode d" "ClientIPAddr (UpdateOption d c v) = ClientIPAddr d"
  "YourIPAddr (UpdateOption d c v) = YourIPAddr d" "ServerIPAddr (UpdateOption d c v) = ServerIPAddr d"
  "GatewayIPAddr (UpdateOption d c v) = GatewayIPAddr d" "ClientHWAddr (UpdateOption d c v) = ClientHWAddr d"
  "TransactionID (UpdateOption d c v) = TransactionID d" "ServerHostName (UpdateOption d c v) = ServerHostName d"
  "BootFileName (UpdateOption d c v) = BootFileName d"
  "dhcp_options (UpdateOption d c v) = (dhcp_options d)(c \<mapsto> v)"
  by (simp_all add: UpdateOption_def)

lemma WithOptionCopied_sel [simp]:
  "OpCode (WithOptionCopied r c d) = OpCode d" "ClientIPAddr (WithOptionCopied r c d) = ClientIPAddr d"
  "YourIPAddr (WithOptionCopied r c d) = YourIPAddr d" "ServerIPAddr (WithOptionCopied r c d) = ServerIPAddr d"
  "GatewayIPAddr (WithOptionCopied r c d) = GatewayIPAddr d" "ClientHWAddr (WithOptionCopied r c d) = ClientHWAddr d"
  "TransactionID (WithOptionCopied r c d) = TransactionID d" "ServerHostName (WithOptionCopied r c d) = ServerHostName d"
  "BootFileName (WithOptionCopied r c d) = BootFileName d"
  "k \<noteq> c \<Longrightarrow> dhcp_options (WithOptionCopied r c d) k = dhcp_options d k"
  by (simp_all add: WithOptionCopied_def Let_def)

text \<open>What a client reads out of a reply.\<close>

definition reply_for :: "Configuration \<Rightarrow> DHCPv4 \<Rightarrow> ipnet \<Rightarrow> bytes \<Rightarrow> byte \<Rightarrow> DHCPv4 \<Rightarrow> bool" where
  "reply_for cfg m w a mt d \<longleftrightarrow>
     YourIPAddr d = a \<and> TransactionID d = TransactionID m \<and> ClientHWAddr d = ClientHWAddr m
     \<and> MessageType d = mt
     \<and> opt_Get (dhcp_options d) OptionSubnetMask = To4 (net_Mask w)
     \<and> opt_Get (dhcp_options d) OptionRouter = To4 (ParseIP (cfg_GatewayIP cfg))
     \<and> opt_Get (dhcp_options d) OptionDomainNameServer = To4 (ParseIP (cfg_GatewayIP cfg))
     \<and> opt_Get (dhcp_options d) OptionServerIdentifier = To4 (ParseIP (cfg_GatewayIP cfg))
     \<and> opt_Get (dhcp_options d) OptionIPAddressLeaseTime = PutUint32_BE 3600
     \<and> opt_Get (dhcp_options d) OptionInterfaceMTU = PutUint16_BE (of_int (cfg_MTU cfg))"

definition answer_type :: "byte \<Rightarrow> byte option" where
  "answer_type mt = (if mt = MessageTypeDiscover then Some MessageTypeOffer
     else if mt = MessageTypeRequest then Some MessageTypeAck else None)"

lemma reply_parses:
  assumes "request_ok m" "NewReplyFromRequest m (Inr x) = Inr r0" "length (To4 i) = 4"
  shows "\<exists>b d. dhcp_ToBytes (UpdateOption (set_reply_options cfg w (r0\<lparr>YourIPAddr := i\<rparr>)) OptionDHCPMessageType [mt]) = Ret b
    \<and> 300 \<le> length b \<and> dhcp_FromBytes b = Inr d \<and> reply_for cfg m w (To4 i) mt d"
proof -
  let ?r = "UpdateOption (set_reply_options cfg w (r0\<lparr>YourIPAddr := i\<rparr>)) OptionDHCPMessageType [mt]"
  note r0 = assms(2) [unfolded NewReplyFromRequest_def, simplified, symmetric]
  have gw: "length (To4 (GatewayIPAddr m)) = 4" using assms(1) by (simp add: request_ok_def)
  have "message_fits ?r"
    using assms(1) unfolding r0
    by (simp add: message_fits_def set_reply_options_def request_ok_def option_codes Let_def
        WithReply_def WithGatewayIP_def dhcp_New_def)
  moreover have "writeIP (ClientIPAddr ?r) = Ret [0, 0, 0, 0]" "writeIP (ServerIPAddr ?r) = Ret [0, 0, 0, 0]"
    "writeIP (YourIPAddr ?r) = Ret (To4 i)" "writeIP (GatewayIPAddr ?r) = Ret (To4 (GatewayIPAddr m))"
    using assms(3) gw assms(1) unfolding r0
    by (auto simp: set_reply_options_def Let_def WithReply_def WithGatewayIP_def dhcp_New_def writeIP_def IPv4zero_def
        request_ok_def)
  ultimately obtain b where b: "dhcp_ToBytes ?r = Ret b" "300 \<le> length b" "dhcp_FromBytes b =
      Inr (?r\<lparr>ClientIPAddr := [0, 0, 0, 0], YourIPAddr := To4 i, ServerIPAddr := [0, 0, 0, 0],
        GatewayIPAddr := To4 (GatewayIPAddr m)\<rparr>)"
    using message_roundtrip by blast
  then show ?thesis
    unfolding r0
    by (simp add: reply_for_def set_reply_options_def Let_def MessageType_def opt_Get_def option_codes
        opt_IP_ToBytes_def opt_IPs_ToBytes_def opt_Duration_ToBytes_def opt_Uint16_ToBytes_def
        WithReply_def WithGatewayIP_def dhcp_New_def)
qed

subsection \<open>Answers\<close>

lemma handler_cases:
  assumes "pool_wf p" "enumerates es (leases p)" "request_ok m" "ParseCIDR (cfg_Subnet cfg) = Inr (z, w)"
  obtains r where "GetOrAssign es p (MAC_String (ClientHWAddr m)) = Ret (p, Inl r)"
      "handler cfg es (Inr x) p m = Ret (p, None)" "MAC_String (ClientHWAddr m) \<notin> ran (leases p)"
  | p' i where "GetOrAssign es p (MAC_String (ClientHWAddr m)) = Ret (p', Inr i)" "length (To4 i) = 4"
      "p' = p\<lparr>leases := (leases p)(dotted (To4 i) \<mapsto> MAC_String (ClientHWAddr m))\<rparr>"
      "leases p (dotted (To4 i)) \<in> {None, Some (MAC_String (ClientHWAddr m))}"
      "case answer_type (MessageType m) of
         None \<Rightarrow> handler cfg es (Inr x) p m = Ret (p', None)
       | Some mt \<Rightarrow> \<exists>b d. handler cfg es (Inr x) p m = Ret (p', Some b) \<and> 300 \<le> length b
           \<and> dhcp_FromBytes b = Inr d \<and> reply_for cfg m w (To4 i) mt d"
proof (cases rule: GetOrAssign_contract [OF assms(1,2), of "MAC_String (ClientHWAddr m)"])
  case (1 r)
  then show thesis using that(1) by (simp add: handler_def NewReplyFromRequest_def)
next
  case (2 i)
  let ?p = "p\<lparr>leases := (leases p)(IP_String i \<mapsto> MAC_String (ClientHWAddr m))\<rparr>"
  obtain r0 where r0: "NewReplyFromRequest m (Inr x) = Inr r0" by (simp add: NewReplyFromRequest_def)
  have "case answer_type (MessageType m) of
         None \<Rightarrow> handler cfg es (Inr x) p m = Ret (?p, None)
       | Some mt \<Rightarrow> \<exists>b d. handler cfg es (Inr x) p m = Ret (?p, Some b) \<and> 300 \<le> length b
           \<and> dhcp_FromBytes b = Inr d \<and> reply_for cfg m w (To4 i) mt d"
    using 2(1) r0 assms(4) reply_parses [OF assms(3) r0 2(2), of cfg w MessageTypeOffer]
      reply_parses [OF assms(3) r0 2(2), of cfg w MessageTypeAck]
    by (auto simp: handler_def answer_type_def Let_def MessageTypeDiscover_def MessageTypeRequest_def)
  then show thesis using that(2) [OF 2(1,2)] 2(2,3) by (auto simp: IP_String_To4)
qed


text \<open>
  Messages of other types are never answered, but they still take an address out of the
  pool: after a decline, release or inform from an unknown client the client has a lease.
\<close>

lemma handler_unhandled_type:
  assumes "pool_wf p" "enumerates es (leases p)" "request_ok m" "ParseCIDR (cfg_Subnet cfg) = Inr (z, w)"
    and "answer_type (MessageType m) = None"
  shows "\<exists>p'. handler cfg es (Inr x) p m = Ret (p', None)
    \<and> (first_free p \<noteq> None \<longrightarrow> MAC_String (ClientHWAddr m) \<in> ran (leases p'))"
proof (cases rule: handler_cases [OF assms(1-4), of x])
  case (1 r)
  then have "first_free p = None"
    using GetOrAssign_new [OF assms(1,2) 1(3)] by (auto split: option.splits)
  then show ?thesis using 1 by blast
next
  case (2 p' i)
  then have "leases p' (dotted (To4 i)) = Some (MAC_String (ClientHWAddr m))" by simp
  then show ?thesis using 2(5) assms(5) by (auto intro: ranI)
qed

subsection \<open>Runs of the server\<close>

inductive dhcp_run :: "Configuration \<Rightarrow> IPPool \<Rightarrow> (DHCPv4 \<times> bytes option) list \<Rightarrow> IPPool \<Rightarrow> bool" for cfg where
  run_Nil: "dhcp_run cfg p [] p"
| run_Cons: "request_ok m \<Longrightarrow> enumerates es (leases p) \<Longrightarrow> handler cfg es (Inr x) p m = Ret (p1, out)
    \<Longrightarrow> dhcp_run cfg p1 log p2 \<Longrightarrow> dhcp_run cfg p ((m, out) # log) p2"

text \<open>The message \<open>b\<close> tells its reader the address \<open>i\<close>.\<close>

definition tells :: "bytes \<Rightarrow> ip \<Rightarrow> bool" where
  "tells b i \<longleftrightarrow> length (To4 i) = 4 \<and> (\<exists>d. dhcp_FromBytes b = Inr d \<and> YourIPAddr d = To4 i)"

lemma handler_serves:
  assumes "pool_wf p" "enumerates es (leases p)" "request_ok m" "ParseCIDR (cfg_Subnet cfg) = Inr (z, w)"
    and "handler cfg es (Inr x) p m = Ret (p1, out)"
  shows "\<exists>r. serve leases GetOrAssign p [(MAC_String (ClientHWAddr m), r)] p1
    \<and> (\<forall>b. out = Some b \<longrightarrow> (\<exists>i. r = Inr i \<and> tells b i))"
proof (cases rule: handler_cases [OF assms(1-4), of x])
  case (1 r)
  then have "p1 = p" "out = None" using assms(5) by auto
  moreover have "serve leases GetOrAssign p [(MAC_String (ClientHWAddr m), Inl r)] p"
    by (rule serve_one [where table = leases and assign = GetOrAssign, OF assms(2) 1(1)])
  ultimately show ?thesis by blast
next
  case (2 p' i)
  have s: "serve leases GetOrAssign p [(MAC_String (ClientHWAddr m), Inr i)] p'"
    by (rule serve_one [where table = leases and assign = GetOrAssign, OF assms(2) 2(1)])
  have "p1 = p'" "\<forall>b. out = Some b \<longrightarrow> tells b i"
    using 2(2,5) assms(5) by (auto simp: reply_for_def tells_def split: option.splits)
  then show ?thesis using s by blast
qed

lemma dhcp_run_serves:
  assumes "dhcp_run cfg p log p'" "pool_wf p" "ParseCIDR (cfg_Subnet cfg) = Inr (z, w)"
  shows "\<exists>l. serve leases GetOrAssign p l p' \<and> (\<forall>m b. (m, Some b) \<in> set log \<longrightarrow>
    (\<exists>i. (MAC_String (ClientHWAddr m), Inr i) \<in> set l \<and> tells b i))"
  using assms(1,2)
proof (induction rule: dhcp_run.induct)
  case (run_Nil p)
  then show ?case using serve_Nil by (intro exI [of _ "[]"]) auto
next
  case (run_Cons m es p x p1 out log p2)
  let ?mac = "MAC_String (ClientHWAddr m)"
  obtain r where r: "serve leases GetOrAssign p [(?mac, r)] p1"
      "\<And>b. out = Some b \<Longrightarrow> \<exists>i. r = Inr i \<and> tells b i"
    using handler_serves [OF run_Cons.prems run_Cons.hyps(2,1) assms(3) run_Cons.hyps(3)] by auto
  have "pool_wf p1" using pool.serve_extends [OF r(1) run_Cons.prems] by simp
  then obtain l where l: "serve leases GetOrAssign p1 l p2" "\<And>m b. (m, Some b) \<in> set log \<Longrightarrow>
    \<exists>i. (MAC_String (ClientHWAddr m), Inr i) \<in> set l \<and> tells b i"
    using run_Cons.IH by auto
  have "\<exists>i. (MAC_String (ClientHWAddr m'), Inr i) \<in> set ((?mac, r) # l) \<and> tells b i"
    if "(m', Some b) \<in> set ((m, out) # log)" for m' b
    using that r(2) [of b] l(2) [of m' b] by auto
  then show ?case using pool.serve_append [OF r(1) l(1)] by (intro exI [of _ "[(?mac, r)] @ l"]) simp
qed

text \<open>
  C23. Two clients are never sent the same address: in any run of the server, if two answers
  carry the same address, they went to the same hardware address.
\<close>

theorem dhcp_no_conflict:
  assumes "pool_wf p" "ParseCIDR (cfg_Subnet cfg) = Inr (z, w)" "dhcp_run cfg p log p'"
    and "(m1, Some b1) \<in> set log" "(m2, Some b2) \<in> set log"
    and "length (ClientHWAddr m1) = 6" "length (ClientHWAddr m2) = 6"
    and "dhcp_FromBytes b1 = Inr d1" "dhcp_FromBytes b2 = Inr d2" "YourIPAddr d1 = YourIPAddr d2"
  shows "ClientHWAddr m1 = ClientHWAddr m2"
proof -
  obtain l where l: "serve leases GetOrAssign p l p'" "\<And>m b. (m, Some b) \<in> set log \<Longrightarrow>
    \<exists>i. (MAC_String (ClientHWAddr m), Inr i) \<in> set l \<and> tells b i"
    using dhcp_run_serves [OF assms(3,1,2)] by auto
  obtain i1 where i1: "(MAC_String (ClientHWAddr m1), Inr i1) \<in> set l" "length (To4 i1) = 4" "YourIPAddr d1 = To4 i1"
    using l(2) [OF assms(4)] assms(8) by (auto simp: tells_def)
  obtain i2 where i2: "(MAC_String (ClientHWAddr m2), Inr i2) \<in> set l" "length (To4 i2) = 4" "YourIPAddr d2 = To4 i2"
    using l(2) [OF assms(5)] assms(9) by (auto simp: tells_def)
  have "IP_String i1 = IP_String i2" using i1 i2 assms(10) by (simp add: IP_String_To4)
  then have "MAC_String (ClientHWAddr m1) = MAC_String (ClientHWAddr m2)"
    using pool.serve_no_conflict [OF l(1) assms(1) i1(1) i2(1)] by blast
  then show ?thesis using MAC_String_inj assms(6,7) by blast
qed

text \<open>
  A static lease for an IPv6 address is accepted when the network is set up, but the
  first discover of that client panics while the reply is written.
\<close>

lemma dhcp_ipv6_lease_panics:
  assumes "find (\<lambda>(k, mac). mac = MAC_String (ClientHWAddr m)) es = Some (k, MAC_String (ClientHWAddr m))"
    and "ParseIP k \<noteq> []" "To4 (ParseIP k) = []" "ParseCIDR (cfg_Subnet cfg) = Inr (z, w)"
    and "MessageType m = MessageTypeDiscover"
  shows "handler cfg es (Inr x) p m = Panic"
proof -
  have "writeIP (ParseIP k) = Panic" using assms(2,3) by (simp add: writeIP_def)
  then show ?thesis
    using assms by (simp add: handler_def NewReplyFromRequest_def GetOrAssign_def Let_def dhcp_ToBytes_def
        set_reply_options_def bind_exec_def writeIP_def split: exec.splits)
qed

subsection \<open>A small network\<close>

definition sample_cfg :: Configuration where
  "sample_cfg = \<lparr>cfg_Debug = False, cfg_CaptureFile = [], cfg_MTU = 1500,
     cfg_Subnet = dotted [10, 0, 0, 0] @ CHR ''/'' # itoa_nat 30, cfg_GatewayIP = ''10.0.0.1'',
     cfg_GatewayMacAddress = ''5a:94:ef:e4:0c:dd'', cfg_DNS = [], cfg_DNSSearchDomains = [''test''],
     cfg_Forwards = Map.empty, cfg_NAT = Map.empty, cfg_GatewayVirtualIPs = [],
     cfg_DHCPStaticLeases = Map.empty, cfg_VpnKitUUIDMacAddresses = Map.empty, cfg_Protocol = HyperKitProtocol\<rparr>"

definition sample_request :: "bytes \<Rightarrow> byte \<Rightarrow> DHCPv4" where
  "sample_request hw mt = \<lparr>OpCode = OpcodeBootRequest, HWType = 1, HopCount = 0, TransactionID = [1, 2, 3, 4],
     NumSeconds = 0, Flags = 0, ClientIPAddr = [0, 0, 0, 0], YourIPAddr = [0, 0, 0, 0],
     ServerIPAddr = [0, 0, 0, 0], GatewayIPAddr = [0, 0, 0, 0], ClientHWAddr = hw,
     ServerHostName = [], BootFileName = [], dhcp_options = [OptionDHCPMessageType \<mapsto> [mt]]\<rparr>"

lemma sample_cfg_subnet: "ParseCIDR (cfg_Subnet sample_cfg) = Inr (v4InV6Prefix @ [10, 0, 0, 0], v4net [10, 0, 0, 0] 30)"
  using ParseCIDR_print [of "[10, 0, 0, 0]" 30] by (simp add: sample_cfg_def)

lemma sample_request_simps [simp]:
  "length hw \<le> 16 \<Longrightarrow> request_ok (sample_request hw mt)" "MessageType (sample_request hw mt) = mt"
  "ClientHWAddr (sample_request hw mt) = hw"
  by (simp_all add: sample_request_def request_ok_def MessageType_def opt_Get_def)

lemma answer_types [simp]:
  "answer_type MessageTypeDiscover = Some MessageTypeOffer" "answer_type 7 = None"
  by (simp_all add: answer_type_def MessageTypeDiscover_def MessageTypeRequest_def)

lemma sample_free: "first_free pool30 \<noteq> None"
  using host30(3) unfolding first_free_None by (intro notI) (drule spec [of _ 3], simp)

lemma sample_mac_free: "MAC_String [2, 0, 0, 0, 0, 1] \<notin> ran (leases pool30)"
proof -
  have "length (MAC_String [2, 0, 0, 0, 0, 1]) = 17"
    using length_MAC_String [of "[2, 0, 0, 0, 0, 1]"] by simp
  moreover have "length (m :: string) \<le> 2" if "m \<in> ran (leases pool30)" for m
    using that by (auto simp: ran_def leases_pool30 split: if_splits)
  ultimately show ?thesis by fastforce
qed

lemma sample_answered:
  "\<exists>p' b d. handler sample_cfg leases30 (Inr [9, 9, 9, 9]) pool30 (sample_request [2, 0, 0, 0, 0, 1] MessageTypeDiscover)
     = Ret (p', Some b) \<and> dhcp_FromBytes b = Inr d"
proof (cases rule: handler_cases [OF pool30_wf(1,3) _ sample_cfg_subnet,
    of "sample_request [2, 0, 0, 0, 0, 1] MessageTypeDiscover" "[9, 9, 9, 9]"])
  case (2 r)
  then show ?thesis
    using sample_free GetOrAssign_new [OF pool30_wf(1,3) sample_mac_free] by (auto split: option.splits)
qed auto


theorem dhcp_no_conflict_witness:
  "\<exists>p' b d. dhcp_run sample_cfg pool30 [(sample_request [2, 0, 0, 0, 0, 1] MessageTypeDiscover, Some b)] p'
    \<and> dhcp_FromBytes b = Inr d \<and> ClientHWAddr (sample_request [2, 0, 0, 0, 0, 1] MessageTypeDiscover) = [2, 0, 0, 0, 0, 1]"
proof -
  let ?m = "sample_request [2, 0, 0, 0, 0, 1] MessageTypeDiscover"
  obtain p' b d where h: "handler sample_cfg leases30 (Inr [9, 9, 9, 9]) pool30 ?m = Ret (p', Some b)" "dhcp_FromBytes b = Inr d"
    using sample_answered by blast
  have r: "dhcp_run sample_cfg pool30 [(?m, Some b)] p'"
    by (rule run_Cons [OF _ pool30_wf(3) h(1) run_Nil]) simp
  have "ClientHWAddr ?m = ClientHWAddr ?m"
    by (rule dhcp_no_conflict [OF pool30_wf(1) sample_cfg_subnet r]) (use h in auto)
  then show ?thesis using r h by auto
qed

end
