(* ===== verification/GoHttp.thy ===== *)
theory GoHttp
  imports GoStrings
begin

text \<open>
  What the HTTP handlers of the repository use of \<open>net/http\<close>: methods, responses,
  \<open>http.Error\<close>, the selection of a handler by \<open>ServeMux\<close> and \<open>http.StripPrefix\<close>.
  Request bodies reach the models decoded, as the result of \<open>json.Decoder.Decode\<close>.
\<close>

datatype http_method = GET | POST | OtherMethod

record http_response =
  status :: nat
  resp_body :: string

definition StatusOK :: nat where "StatusOK = 200"
definition StatusBadRequest :: nat where "StatusBadRequest = 400"
definition StatusNotFound :: nat where "StatusNotFound = 404"
definition StatusInternalServerError :: nat where "StatusInternalServerError = 500"

text \<open>\<open>http.Error\<close> prints the message and a newline.\<close>

definition http_Error :: "string \<Rightarrow> nat \<Rightarrow> http_response" where
  "http_Error msg code = \<lparr>status = code, resp_body = msg @ [CHR 0x0A]\<rparr>"

definition http_OK :: http_response where
  "http_OK = \<lparr>status = StatusOK, resp_body = []\<rparr>"

lemma status_simps [simp]:
  "status (http_Error m c) = c" "status http_OK = 200"
  "StatusOK = 200" "StatusBadRequest = 400" "StatusNotFound = 404" "StatusInternalServerError = 500"
  by (simp_all add: http_Error_def http_OK_def StatusOK_def StatusBadRequest_def StatusNotFound_def
      StatusInternalServerError_def)

subsection \<open>ServeMux\<close>

text \<open>
  \<open>ServeMux.match\<close>: a pattern equal to the path wins; otherwise the longest registered pattern
  that ends in a slash and is a prefix of the path. Patterns are registered without a host.
\<close>

fun longest_prefix :: "(string \<times> 'h) list \<Rightarrow> string \<Rightarrow> (string \<times> 'h) option" where
  "longest_prefix [] path = None"
| "longest_prefix ((pat, h) # ps) path =
     (let rest = longest_prefix ps path
      in if HasSuffix pat ''/'' \<and> HasPrefix path pat
         then (case rest of None \<Rightarrow> Some (pat, h) | Some (q, h') \<Rightarrow> if length pat < length q then rest else Some (pat, h))
         else rest)"

definition mux_match :: "(string \<times> 'h) list \<Rightarrow> string \<Rightarrow> 'h option" where
  "mux_match ps path =
     (case map_of ps path of Some h \<Rightarrow> Some h | None \<Rightarrow> map_option snd (longest_prefix ps path))"

text \<open>\<open>http.StripPrefix\<close>: the path without the prefix; a path without it is not found.\<close>

definition StripPrefix :: "string \<Rightarrow> string \<Rightarrow> string option" where
  "StripPrefix prefix path = (if HasPrefix path prefix then Some (drop (length prefix) path) else None)"

lemma mux_match_exact: "map_of ps path = Some h \<Longrightarrow> mux_match ps path = Some h"
  by (simp add: mux_match_def)

lemma longest_prefix_sound:
  "longest_prefix ps path = Some (pat, h) \<Longrightarrow> (pat, h) \<in> set ps \<and> HasSuffix pat ''/'' \<and> HasPrefix path pat"
  by (induction ps path arbitrary: pat h rule: longest_prefix.induct) (auto simp: Let_def split: if_splits option.splits)

lemma longest_prefix_longest:
  "(pat, h) \<in> set ps \<Longrightarrow> HasSuffix pat ''/'' \<Longrightarrow> HasPrefix path pat \<Longrightarrow>
   \<exists>q h'. longest_prefix ps path = Some (q, h') \<and> length pat \<le> length q"
proof (induction ps path arbitrary: pat h rule: longest_prefix.induct)
  case (2 p k ps path)
  then show ?case by (fastforce simp: Let_def split: option.splits)
qed simp

end
