(* ===== verification/Dns.thy ===== *)
theory Dns
  imports Types GoHttp
begin

text \<open>
  The DNS server of \<open>pkg/services/dns/dns.go\<close>: answers from the configured zones, forwarding to
  the resolver of the host, the message handlers for UDP and TCP, and the HTTP endpoints that
  list and add zones. \<open>SetReply\<close>, \<open>IsEdns0\<close> and \<open>Truncate\<close> are those of the vendored \<open>miekg/dns\<close>.

  Parameters: the resolver of the host (\<open>resolver\<close>), a compiled regular expression (its match
  function, in \<open>Record\<close>), the wire length of messages and records (\<open>wire_len\<close>, with the
  compression map as its state), and the JSON decoder of the HTTP request.
\<close>

subsection \<open>Messages\<close>

definition TypeA :: "16 word" where "TypeA = 1"
definition TypeNS :: "16 word" where "TypeNS = 2"
definition TypeCNAME :: "16 word" where "TypeCNAME = 5"
definition TypeMX :: "16 word" where "TypeMX = 15"
definition TypeTXT :: "16 word" where "TypeTXT = 16"
definition TypeSRV :: "16 word" where "TypeSRV = 33"
definition TypeOPT :: "16 word" where "TypeOPT = 41"

lemmas type_codes = TypeA_def TypeNS_def TypeCNAME_def TypeMX_def TypeTXT_def TypeSRV_def TypeOPT_def

definition ClassINET :: "16 word" where "ClassINET = 1"

definition RcodeSuccess :: nat where "RcodeSuccess = 0"
definition RcodeNameError :: nat where "RcodeNameError = 3"

definition MinMsgSize :: nat where "MinMsgSize = 512"
definition MaxMsgSize :: nat where "MaxMsgSize = 65535"

record Question =
  q_Name :: string
  Qtype :: "16 word"
  Qclass :: "16 word"

record RR_Header =
  hdr_Name :: string
  Rrtype :: "16 word"
  hdr_Class :: "16 word"
  Ttl :: "32 word"

datatype rdata =
    rA ip
  | rCNAME string
  | rMX string "16 word"
  | rNS string
  | rSRV "16 word" "16 word" string "16 word"
  | rTXT "string list"
  | rOther bytes

record RR =
  Hdr :: RR_Header
  Rdata :: rdata

record Msg =
  msg_Id :: "16 word"
  Response :: bool
  Opcode :: nat
  Authoritative :: bool
  RecursionDesired :: bool
  RecursionAvailable :: bool
  msg_Zero :: bool
  AuthenticatedData :: bool
  CheckingDisabled :: bool
  Truncated :: bool
  Compress :: bool
  Rcode :: nat
  msg_Question :: "Question list"
  Answer :: "RR list"
  Ns :: "RR list"
  Extra :: "RR list"

definition new_Msg :: Msg where
  "new_Msg = \<lparr>msg_Id = 0, Response = False, Opcode = 0, Authoritative = False, RecursionDesired = False,
     RecursionAvailable = False, msg_Zero = False, AuthenticatedData = False, CheckingDisabled = False, Truncated = False, Compress = False, Rcode = 0, msg_Question = [],
     Answer = [], Ns = [], Extra = []\<rparr>"

definition SetReply :: "Msg \<Rightarrow> Msg \<Rightarrow> Msg" where
  "SetReply m request =
     (let m1 = m\<lparr>msg_Id := msg_Id request, Response := True, Opcode := Opcode request\<rparr>;
          m2 = (if Opcode m1 = 0
            then m1\<lparr>RecursionDesired := RecursionDesired request, CheckingDisabled := CheckingDisabled request\<rparr>
            else m1);
          m3 = m2\<lparr>Rcode := RcodeSuccess\<rparr>
      in if msg_Question request \<noteq> [] then m3\<lparr>msg_Question := [hd (msg_Question request)]\<rparr> else m3)"

definition IsEdns0 :: "Msg \<Rightarrow> RR option" where
  "IsEdns0 m = find (\<lambda>rr. Rrtype (Hdr rr) = TypeOPT) (rev (Extra m))"

definition UDPSize :: "RR \<Rightarrow> 16 word" where
  "UDPSize rr = hdr_Class (Hdr rr)"

subsection \<open>Truncation\<close>

record 'c wire_len =
  msg_len :: "Msg \<Rightarrow> nat"
  opt_len :: "RR \<Rightarrow> nat"
  question_len :: "Question \<Rightarrow> nat \<Rightarrow> 'c \<Rightarrow> nat \<times> 'c"
  rr_len :: "RR \<Rightarrow> nat \<Rightarrow> 'c \<Rightarrow> nat \<times> 'c"
  no_compression :: 'c

text \<open>\<open>truncateLoop\<close>: the length used up, the number of records kept, and the compression map.\<close>

fun truncateLoop :: "'c wire_len \<Rightarrow> int \<Rightarrow> nat \<Rightarrow> nat \<Rightarrow> 'c \<Rightarrow> RR list \<Rightarrow> int \<times> nat \<times> 'c" where
  "truncateLoop W n l i c [] = (int l, i, c)"
| "truncateLoop W n l i c (r # rs) =
     (case rr_len W r l c of (k, c') \<Rightarrow>
       if int (l + k) > n then (n, i, c')
       else if int (l + k) = n then (n, Suc i, c')
       else truncateLoop W n (l + k) (Suc i) c' rs)"

fun question_lens :: "'c wire_len \<Rightarrow> nat \<Rightarrow> 'c \<Rightarrow> Question list \<Rightarrow> nat \<times> 'c" where
  "question_lens W l c [] = (l, c)"
| "question_lens W l c (q # qs) = (case question_len W q l c of (k, c') \<Rightarrow> question_lens W (l + k) c' qs)"

definition popEdns0 :: "Msg \<Rightarrow> RR option \<times> Msg" where
  "popEdns0 m =
     (case find (\<lambda>i. Rrtype (Hdr (Extra m ! i)) = TypeOPT) (rev [0..<length (Extra m)]) of
        None \<Rightarrow> (None, m)
      | Some i \<Rightarrow> (Some (Extra m ! i), m\<lparr>Extra := take i (Extra m) @ drop (Suc i) (Extra m)\<rparr>))"

text \<open>\<open>Truncate\<close> of a message without a TSIG record, which the server never adds.\<close>

definition Truncate :: "'c wire_len \<Rightarrow> int \<Rightarrow> Msg \<Rightarrow> Msg" where
  "Truncate W size0 m =
     (let n = (if size0 < int MinMsgSize then int MinMsgSize else size0)
      in if int (msg_len W m) \<le> n then m\<lparr>Compress := False\<rparr>
         else let (edns0, m1) = popEdns0 (m\<lparr>Compress := True\<rparr>);
                  n1 = (case edns0 of None \<Rightarrow> n | Some rr \<Rightarrow> n - int (opt_len W rr));
                  (l0, c0) = question_lens W 12 (no_compression W) (msg_Question m1);
                  (l1, numAnswer, c1) =
                    (if int l0 < n1 then truncateLoop W n1 l0 0 c0 (Answer m1) else (int l0, 0, c0));
                  (l2, numNS, c2) =
                    (if l1 < n1 then truncateLoop W n1 (nat l1) 0 c1 (Ns m1) else (l1, 0, c1));
                  numExtra =
                    (if l2 < n1 then fst (snd (truncateLoop W n1 (nat l2) 0 c2 (Extra m1))) else 0);
                  m2 = m1\<lparr>Truncated := Truncated m1 \<or> length (Answer m1) > numAnswer
                      \<or> length (Ns m1) > numNS \<or> length (Extra m1) > numExtra,
                    Answer := take numAnswer (Answer m1), Ns := take numNS (Ns m1),
                    Extra := take numExtra (Extra m1)\<rparr>
              in (case edns0 of None \<Rightarrow> m2 | Some rr \<Rightarrow> m2\<lparr>Extra := Extra m2 @ [rr]\<rparr>))"

subsection \<open>Answers\<close>

record resolver =
  LookupIPAddr :: "string \<Rightarrow> ip list result"
  LookupCNAME :: "string \<Rightarrow> string result"
  LookupMX :: "string \<Rightarrow> (string \<times> 16 word) list result"
  LookupNS :: "string \<Rightarrow> string list result"
  LookupSRV :: "string \<Rightarrow> (string \<times> 16 word \<times> 16 word \<times> 16 word) list result"
  LookupTXT :: "string \<Rightarrow> string list result"

definition mk_rr :: "string \<Rightarrow> 16 word \<Rightarrow> rdata \<Rightarrow> RR" where
  "mk_rr name ty d = \<lparr>Hdr = \<lparr>hdr_Name = name, Rrtype = ty, hdr_Class = ClassINET, Ttl = 0\<rparr>, Rdata = d\<rparr>"

definition add_rrs :: "Msg \<Rightarrow> RR list \<Rightarrow> Msg" where
  "add_rrs m rrs = m\<lparr>Answer := Answer m @ rrs\<rparr>"

definition zoneSuffix :: "Zone \<Rightarrow> string" where
  "zoneSuffix zone = CHR ''.'' # zone_Name zone"

definition record_matches :: "string \<Rightarrow> Record \<Rightarrow> bool" where
  "record_matches withoutZone r \<longleftrightarrow>
     rec_Name r \<noteq> [] \<and> rec_Name r = withoutZone
     \<or> (case rec_Regexp r of None \<Rightarrow> False | Some MatchString \<Rightarrow> MatchString withoutZone)"

text \<open>The answer of the first zone whose suffix fits; the message is finished then.\<close>

definition zone_answer :: "Zone \<Rightarrow> Question \<Rightarrow> Msg \<Rightarrow> Msg" where
  "zone_answer zone q m =
     (if Qtype q \<noteq> TypeA then m
      else (case find (record_matches (TrimSuffix (q_Name q) (zoneSuffix zone))) (zone_Records zone) of
          Some r \<Rightarrow> add_rrs m [mk_rr (q_Name q) TypeA (rA (rec_IP r))]
        | None \<Rightarrow>
            if \<not> IP_Equal (zone_DefaultIP zone) []
            then add_rrs m [mk_rr (q_Name q) TypeA (rA (zone_DefaultIP zone))]
            else m\<lparr>Rcode := RcodeNameError\<rparr>))"

text \<open>The answer of the host's resolver, or the message with the error code.\<close>

definition resolver_answer :: "resolver \<Rightarrow> Question \<Rightarrow> Msg \<Rightarrow> Msg + Msg" where
  "resolver_answer R q m =
     (let nx = Inl (m\<lparr>Rcode := RcodeNameError\<rparr>); name = q_Name q in
      if Qtype q = TypeA then
        (case LookupIPAddr R name of Inl _ \<Rightarrow> nx
         | Inr ips \<Rightarrow> Inr (add_rrs m (map (\<lambda>i. mk_rr name TypeA (rA (To4 i))) (filter (\<lambda>i. length (To4 i) = 4) ips))))
      else if Qtype q = TypeCNAME then
        (case LookupCNAME R name of Inl _ \<Rightarrow> nx | Inr cname \<Rightarrow> Inr (add_rrs m [mk_rr name TypeCNAME (rCNAME cname)]))
      else if Qtype q = TypeMX then
        (case LookupMX R name of Inl _ \<Rightarrow> nx
         | Inr rs \<Rightarrow> Inr (add_rrs m (map (\<lambda>(host, pref). mk_rr name TypeMX (rMX host pref)) rs)))
      else if Qtype q = TypeNS then
        (case LookupNS R name of Inl _ \<Rightarrow> nx
         | Inr rs \<Rightarrow> Inr (add_rrs m (map (\<lambda>host. mk_rr name TypeNS (rNS host)) rs)))
      else if Qtype q = TypeSRV then
        (case LookupSRV R name of Inl _ \<Rightarrow> nx
         | Inr rs \<Rightarrow> Inr (add_rrs m
             (map (\<lambda>(target, port, prio, weight). mk_rr name TypeSRV (rSRV prio weight target port)) rs)))
      else if Qtype q = TypeTXT then
        (case LookupTXT R name of Inl _ \<Rightarrow> nx | Inr rs \<Rightarrow> Inr (add_rrs m [mk_rr name TypeTXT (rTXT rs)]))
      else Inr m)"

fun add_answers :: "resolver \<Rightarrow> Zone list \<Rightarrow> Question list \<Rightarrow> Msg \<Rightarrow> Msg" where
  "add_answers R zones [] m = m"
| "add_answers R zones (q # qs) m =
     (case find (\<lambda>zone. HasSuffix (q_Name q) (zoneSuffix zone)) zones of
        Some zone \<Rightarrow> zone_answer zone q m
      | None \<Rightarrow> (case resolver_answer R q m of Inl m' \<Rightarrow> m' | Inr m' \<Rightarrow> add_answers R zones qs m'))"

definition addAnswers :: "resolver \<Rightarrow> Zone list \<Rightarrow> Msg \<Rightarrow> Msg" where
  "addAnswers R zones m = add_answers R zones (msg_Question m) m"

definition dns_handle :: "'c wire_len \<Rightarrow> resolver \<Rightarrow> Zone list \<Rightarrow> Msg \<Rightarrow> nat \<Rightarrow> Msg" where
  "dns_handle W R zones r responseMessageSize =
     (let m = addAnswers R zones ((SetReply new_Msg r)\<lparr>RecursionAvailable := True\<rparr>);
          n = (case IsEdns0 r of None \<Rightarrow> responseMessageSize | Some edns0 \<Rightarrow> unat (UDPSize edns0))
      in Truncate W (int n) m)"

definition handleTCP :: "'c wire_len \<Rightarrow> resolver \<Rightarrow> Zone list \<Rightarrow> Msg \<Rightarrow> Msg" where
  "handleTCP W R zones r = dns_handle W R zones r MaxMsgSize"

definition handleUDP :: "'c wire_len \<Rightarrow> resolver \<Rightarrow> Zone list \<Rightarrow> Msg \<Rightarrow> Msg" where
  "handleUDP W R zones r = dns_handle W R zones r MinMsgSize"

subsection \<open>Zones\<close>

definition dns_New :: "Zone list \<Rightarrow> Zone list" where
  "dns_New zones = zones"

fun addZone :: "Zone list \<Rightarrow> Zone \<Rightarrow> Zone list" where
  "addZone [] req = [req]"
| "addZone (zone # zones) req =
     (if zone_Name zone = zone_Name req
      then req\<lparr>zone_Records := zone_Records req @ zone_Records zone\<rparr> # zones
      else zone # addZone zones req)"

definition dns_Mux_add :: "http_method \<Rightarrow> Zone result \<Rightarrow> Zone list \<Rightarrow> http_response \<times> Zone list" where
  "dns_Mux_add mth body zones =
     (if mth \<noteq> POST then (http_Error ''post only'' StatusBadRequest, zones)
      else (case body of
          Inl err \<Rightarrow> (http_Error err StatusBadRequest, zones)
        | Inr req \<Rightarrow> (http_OK, addZone zones req)))"

definition dns_Mux_all :: "Zone list \<Rightarrow> Zone list" where
  "dns_Mux_all zones = zones"

subsection \<open>The reply before truncation\<close>

definition dns_reply :: "resolver \<Rightarrow> Zone list \<Rightarrow> Msg \<Rightarrow> Msg" where
  "dns_reply R zones r = addAnswers R zones ((SetReply new_Msg r)\<lparr>RecursionAvailable := True\<rparr>)"

lemma IP_Equal_Nil [simp]: "IP_Equal i [] \<longleftrightarrow> i = []"
  by (auto simp: IP_Equal_def)

lemma SetReply_simps [simp]:
  "Answer (SetReply m r) = Answer m" "Rcode (SetReply m r) = 0" "Extra (SetReply m r) = Extra m" "Ns (SetReply m r) = Ns m"
  "Truncated (SetReply m r) = Truncated m" "msg_Id (SetReply m r) = msg_Id r" "Response (SetReply m r)"
  "msg_Question (SetReply new_Msg r) = take 1 (msg_Question r)"
  by (simp_all add: SetReply_def Let_def RcodeSuccess_def new_Msg_def take_Suc hd_conv_nth split: list.split)

lemma new_Msg_simps [simp]:
  "Answer new_Msg = []" "Extra new_Msg = []" "Ns new_Msg = []" "\<not> Truncated new_Msg"
  by (simp_all add: new_Msg_def)

text \<open>What a zone says about a name: the first record that matches, else its default.\<close>

definition zone_lookup :: "Zone \<Rightarrow> string \<Rightarrow> ip option" where
  "zone_lookup z name =
     (case find (record_matches (TrimSuffix name (zoneSuffix z))) (zone_Records z) of
        Some r \<Rightarrow> Some (rec_IP r)
      | None \<Rightarrow> if zone_DefaultIP z \<noteq> [] then Some (zone_DefaultIP z) else None)"

definition find_zone :: "Zone list \<Rightarrow> string \<Rightarrow> Zone option" where
  "find_zone zones name = find (\<lambda>z. HasSuffix name (zoneSuffix z)) zones"

lemma add_rrs_simps [simp]:
  "Answer (add_rrs m rrs) = Answer m @ rrs" "Rcode (add_rrs m rrs) = Rcode m" "Extra (add_rrs m rrs) = Extra m"
  "Ns (add_rrs m rrs) = Ns m" "msg_Id (add_rrs m rrs) = msg_Id m" "Truncated (add_rrs m rrs) = Truncated m"
  "msg_Question (add_rrs m rrs) = msg_Question m" "Response (add_rrs m rrs) = Response m"
  by (simp_all add: add_rrs_def)

lemma zone_answer_A:
  "Qtype q = TypeA \<Longrightarrow> zone_answer z q m = (case zone_lookup z (q_Name q) of
     Some i \<Rightarrow> add_rrs m [mk_rr (q_Name q) TypeA (rA i)] | None \<Rightarrow> m\<lparr>Rcode := RcodeNameError\<rparr>)"
  by (auto simp: zone_answer_def zone_lookup_def split: option.splits)

lemma dns_reply_zone:
  assumes "msg_Question r = q # qs" "find_zone zones (q_Name q) = Some z"
  shows "dns_reply R zones r = zone_answer z q ((SetReply new_Msg r)\<lparr>RecursionAvailable := True\<rparr>)"
  using assms by (simp add: dns_reply_def addAnswers_def find_zone_def)

text \<open>
  Names of a configured zone are answered from the zone alone: an address query for a
  name with the suffix of a zone (the first such zone counts) gets exactly one answer, the
  address of the first record whose name or pattern fits, or the zone's default address, and
  the name error if there is neither.
\<close>

lemma dns_zone_answer:
  assumes "msg_Question r = q # qs" "Qtype q = TypeA" "find_zone zones (q_Name q) = Some z"
  shows "Answer (dns_reply R zones r) = (case zone_lookup z (q_Name q) of
      Some i \<Rightarrow> [mk_rr (q_Name q) TypeA (rA i)] | None \<Rightarrow> [])
    \<and> Rcode (dns_reply R zones r) = (if zone_lookup z (q_Name q) = None then RcodeNameError else RcodeSuccess)"
  using assms by (simp add: dns_reply_zone zone_answer_A RcodeSuccess_def split: option.split)

text \<open>
  Queries for names of a configured zone, of any type, never reach the resolver of the
  host: the reply is the same whatever the resolver would say.
\<close>

lemma dns_zone_private:
  assumes "msg_Question r = q # qs" "find_zone zones (q_Name q) = Some z"
  shows "dns_reply R zones r = dns_reply R' zones r"
  using assms by (simp add: dns_reply_zone)

text \<open>The records a reply may hold: about the name and type that were asked, for the internet class, not cached.\<close>

definition rr_for :: "Question \<Rightarrow> RR \<Rightarrow> bool" where
  "rr_for q rr \<longleftrightarrow> hdr_Name (Hdr rr) = q_Name q \<and> Rrtype (Hdr rr) = Qtype q
     \<and> hdr_Class (Hdr rr) = ClassINET \<and> Ttl (Hdr rr) = 0"

lemma rr_for_mk_rr [simp]: "rr_for q (mk_rr name ty d) \<longleftrightarrow> name = q_Name q \<and> ty = Qtype q"
  by (auto simp: rr_for_def mk_rr_def)

lemma resolver_answer_rrs:
  assumes "resolver_answer R q m = Inr m' \<or> resolver_answer R q m = Inl m'" "\<forall>rr \<in> set (Answer m). rr_for q rr"
  shows "(\<forall>rr \<in> set (Answer m'). rr_for q rr) \<and> msg_Id m' = msg_Id m \<and> msg_Question m' = msg_Question m
    \<and> Response m' = Response m"
  using assms by (auto simp: resolver_answer_def Let_def split: if_splits sum.splits)

lemma zone_answer_rrs:
  assumes "\<forall>rr \<in> set (Answer m). rr_for q rr"
  shows "(\<forall>rr \<in> set (Answer (zone_answer z q m)). rr_for q rr) \<and> msg_Id (zone_answer z q m) = msg_Id m
    \<and> msg_Question (zone_answer z q m) = msg_Question m \<and> Response (zone_answer z q m) = Response m"
  using assms by (auto simp: zone_answer_def split: option.splits)

text \<open>
  Every reply is a response to its query: it has the query's number, repeats its first
  question only, and all its answers are records about the name and type of that question.
\<close>

lemma dns_reply_answers_question:
  "msg_Id (dns_reply R zones r) = msg_Id r \<and> Response (dns_reply R zones r)
   \<and> msg_Question (dns_reply R zones r) = take 1 (msg_Question r)
   \<and> list_all (rr_for (hd (msg_Question r))) (Answer (dns_reply R zones r))"
proof (cases "msg_Question r")
  case Nil
  then show ?thesis by (simp add: dns_reply_def addAnswers_def)
next
  case (Cons q qs)
  let ?m = "(SetReply new_Msg r)\<lparr>RecursionAvailable := True\<rparr>"
  have m: "\<forall>rr \<in> set (Answer ?m). rr_for q rr" by simp
  show ?thesis
  proof (cases "find_zone zones (q_Name q)")
    case None
    then have "resolver_answer R q ?m = Inl (dns_reply R zones r) \<or> resolver_answer R q ?m = Inr (dns_reply R zones r)"
      using Cons by (auto simp: dns_reply_def addAnswers_def find_zone_def split: sum.splits)
    then show ?thesis using resolver_answer_rrs [OF _ m] Cons by (auto simp: list_all_iff)
  next
    case (Some z)
    then show ?thesis using zone_answer_rrs [OF m] Cons dns_reply_zone by (simp add: list_all_iff)
  qed
qed

subsection \<open>Truncated replies\<close>

lemma dns_reply_sections: "Extra (dns_reply R zones r) = []" "Ns (dns_reply R zones r) = []" "\<not> Truncated (dns_reply R zones r)"
proof -
  let ?m = "(SetReply new_Msg r)\<lparr>RecursionAvailable := True\<rparr>"
  have z: "Extra (zone_answer z q m) = Extra m \<and> Ns (zone_answer z q m) = Ns m \<and> Truncated (zone_answer z q m) = Truncated m"
    for z q and m :: Msg
    by (auto simp: zone_answer_def split: option.splits)
  have v: "resolver_answer R q m = Inr m' \<or> resolver_answer R q m = Inl m' \<Longrightarrow>
      Extra m' = Extra m \<and> Ns m' = Ns m \<and> Truncated m' = Truncated m" for q m and m' :: Msg
    by (auto simp: resolver_answer_def Let_def split: if_splits sum.splits)
  have "Extra (add_answers R zones qs m) = Extra m \<and> Ns (add_answers R zones qs m) = Ns m
      \<and> Truncated (add_answers R zones qs m) = Truncated m" for qs m
  proof (induction qs arbitrary: m)
    case (Cons q qs)
    show ?case
    proof (cases "find (\<lambda>zone. HasSuffix (q_Name q) (zoneSuffix zone)) zones")
      case None
      then show ?thesis
        using v [of q m] Cons.IH by (cases "resolver_answer R q m") simp_all
    qed (simp add: z)
  qed simp
  then show "Extra (dns_reply R zones r) = []" "Ns (dns_reply R zones r) = []" "\<not> Truncated (dns_reply R zones r)"
    by (simp_all add: dns_reply_def addAnswers_def)
qed

lemma truncateLoop_count: "truncateLoop W n l i c rs = (l', k, c') \<Longrightarrow> i \<le> k \<and> k \<le> i + length rs"
proof (induction rs arbitrary: l i c)
  case (Cons r rs)
  obtain j d where j: "rr_len W r l c = (j, d)" by force
  show ?case
  proof (cases "int (l + j) \<ge> n")
    case True
    then show ?thesis using Cons.prems j by (auto split: if_splits)
  next
    case False
    then have "truncateLoop W n (l + j) (Suc i) d rs = (l', k, c')" using Cons.prems j by simp
    then show ?thesis using Cons.IH by force
  qed
qed simp

lemma Truncate_min: "Truncate W n m = Truncate W (max 512 n) m"
proof -
  have "(if n < int MinMsgSize then int MinMsgSize else n)
      = (if max 512 n < int MinMsgSize then int MinMsgSize else max 512 n)"
    by (simp add: MinMsgSize_def)
  then show ?thesis unfolding Truncate_def by (simp only:)
qed

lemma Truncate_fits: "512 \<le> n \<Longrightarrow> int (msg_len W m) \<le> n \<Longrightarrow> Truncate W n m = m\<lparr>Compress := False\<rparr>"
  by (simp add: Truncate_def MinMsgSize_def)

lemma Truncate_cuts:
  assumes "512 \<le> n" "\<not> int (msg_len W m) \<le> n" "Extra m = []" "Ns m = []" "\<not> Truncated m"
  shows "\<exists>k \<le> length (Answer m). Answer (Truncate W n m) = take k (Answer m)
    \<and> Truncated (Truncate W n m) = (k < length (Answer m))"
proof -
  have p: "popEdns0 (m\<lparr>Compress := True\<rparr>) = (None, m\<lparr>Compress := True\<rparr>)"
    by (simp add: popEdns0_def assms(3))
  obtain l0 c0 where q: "question_lens W 12 (no_compression W) (msg_Question m) = (l0, c0)" by force
  obtain l1 k c1 where t: "truncateLoop W n l0 0 c0 (Answer m) = (l1, k, c1)" by (metis prod_cases3)
  have k: "k \<le> length (Answer m)" using truncateLoop_count [OF t] by simp
  show ?thesis
  proof (cases "int l0 < n")
    case True
    then have "Answer (Truncate W n m) = take k (Answer m) \<and> Truncated (Truncate W n m) = (k < length (Answer m))"
      using assms p q t by (simp add: Truncate_def MinMsgSize_def Let_def)
    then show ?thesis using k by blast
  next
    case False
    then have "Answer (Truncate W n m) = [] \<and> Truncated (Truncate W n m) = (0 < length (Answer m))"
      using assms p q by (simp add: Truncate_def MinMsgSize_def Let_def)
    then show ?thesis by (intro exI [of _ 0]) simp
  qed
qed


text \<open>
  A query with an EDNS record is treated the same over TCP and over UDP: the size a client
  gives for UDP datagrams also cuts the reply over TCP, where it should not apply, so the
  repetition over TCP that a truncated reply asks for is truncated again.
\<close>

lemma dns_edns_limits_tcp:
  assumes "IsEdns0 r \<noteq> None"
  shows "handleTCP W R zones r = handleUDP W R zones r"
  using assms by (auto simp: handleTCP_def handleUDP_def dns_handle_def)

subsection \<open>Adding zones\<close>

text \<open>What a zone becomes when \<open>req\<close> is added.\<close>

definition merge_zone :: "Zone \<Rightarrow> Zone \<Rightarrow> Zone" where
  "merge_zone req z = (if zone_Name z = zone_Name req
     then req\<lparr>zone_Records := zone_Records req @ zone_Records z\<rparr> else z)"

lemma zoneSuffix_merge [simp]: "zoneSuffix (merge_zone req z) = zoneSuffix z"
  by (simp add: merge_zone_def zoneSuffix_def)

lemma zoneSuffix_name: "zone_Name z = zone_Name z' \<Longrightarrow> zoneSuffix z = zoneSuffix z'"
  by (simp add: zoneSuffix_def)

lemma find_zone_suffix: "find_zone zones name = Some z \<Longrightarrow> HasSuffix name (zoneSuffix z)"
  by (auto simp: find_zone_def find_Some_iff)

lemma find_zone_addZone:
  "find_zone (addZone zones req) name = (case find_zone zones name of
     Some z \<Rightarrow> Some (merge_zone req z)
   | None \<Rightarrow> if HasSuffix name (zoneSuffix req) \<and> zone_Name req \<notin> zone_Name ` set zones then Some req else None)"
proof (induction zones)
  case Nil
  then show ?case by (simp add: find_zone_def)
next
  case (Cons z zones)
  show ?case
  proof (cases "zone_Name z = zone_Name req")
    case True
    have "merge_zone req z' = z'" if "find_zone zones name = Some z'" "\<not> HasSuffix name (zoneSuffix z)" for z'
      using that True find_zone_suffix [OF that(1)] zoneSuffix_name [of z' z] by (auto simp: merge_zone_def)
    then show ?thesis
      using True
      by (cases "HasSuffix name (zoneSuffix z)")
        (auto simp: find_zone_def merge_zone_def zoneSuffix_def split: option.splits)
  next
    case False
    then show ?thesis using Cons.IH by (auto simp: find_zone_def merge_zone_def split: option.splits)
  qed
qed

lemma find_append: "find P (xs @ ys) = (case find P xs of None \<Rightarrow> find P ys | Some x \<Rightarrow> Some x)"
  by (induction xs) auto

text \<open>
  Adding a zone: names that no zone covered are answered by the new zone; names of an
  existing zone of the same name are answered by the new records first and the old records
  after them; every other answer is unchanged. The default address of an existing zone is
  replaced by that of the request, even if the request has none.
\<close>

lemma addZone_lookup:
  "(case find_zone (addZone zones req) name of None \<Rightarrow> None | Some z \<Rightarrow> Some (zone_lookup z name)) =
   (case find_zone zones name of
      None \<Rightarrow> if HasSuffix name (zoneSuffix req) \<and> zone_Name req \<notin> zone_Name ` set zones
        then Some (zone_lookup req name) else None
    | Some z \<Rightarrow>
        if zone_Name z \<noteq> zone_Name req then Some (zone_lookup z name)
        else Some (case zone_lookup (req\<lparr>zone_DefaultIP := []\<rparr>) name of
            Some i \<Rightarrow> Some i
          | None \<Rightarrow> zone_lookup (z\<lparr>zone_DefaultIP := zone_DefaultIP req\<rparr>) name))"
proof -
  have "zone_lookup (req\<lparr>zone_Records := zone_Records req @ zone_Records z\<rparr>) name =
      (case zone_lookup (req\<lparr>zone_DefaultIP := []\<rparr>) name of
            Some i \<Rightarrow> Some i
          | None \<Rightarrow> zone_lookup (z\<lparr>zone_DefaultIP := zone_DefaultIP req\<rparr>) name)"
    if "zone_Name z = zone_Name req" for z
    using that by (simp add: zone_lookup_def zoneSuffix_def find_append split: option.split)
  then show ?thesis by (simp add: find_zone_addZone merge_zone_def split: option.split)
qed

text \<open>
  The HTTP endpoint changes zones only by a POST with a body that parses; everything else is
  answered with status 400 and has no effect.
\<close>

lemma dns_Mux_add_guarded:
  "(\<exists>req. mth = POST \<and> body = Inr req \<and> dns_Mux_add mth body zones = (http_OK, addZone zones req))
   \<or> (\<exists>err. dns_Mux_add mth body zones = (http_Error err 400, zones))"
  by (cases body; cases mth) (auto simp: dns_Mux_add_def)

subsection \<open>A sample zone\<close>

definition sample_zone :: Zone where
  "sample_zone = \<lparr>zone_Name = ''internal.'', zone_Records =
     [\<lparr>rec_Name = ''gateway'', rec_IP = [192, 168, 127, 1], rec_Regexp = None\<rparr>], zone_DefaultIP = []\<rparr>"

definition sample_query :: "RR list \<Rightarrow> Msg" where
  "sample_query ex = new_Msg\<lparr>msg_Id := 7, msg_Question :=
     [\<lparr>q_Name = ''gateway.internal.'', Qtype = TypeA, Qclass = ClassINET\<rparr>], Extra := ex\<rparr>"

definition no_resolver :: resolver where
  "no_resolver = \<lparr>LookupIPAddr = (\<lambda>_. Inl ''no such host''), LookupCNAME = (\<lambda>_. Inl ''no such host''),
     LookupMX = (\<lambda>_. Inl ''no such host''), LookupNS = (\<lambda>_. Inl ''no such host''),
     LookupSRV = (\<lambda>_. Inl ''no such host''), LookupTXT = (\<lambda>_. Inl ''no such host'')\<rparr>"

lemma sample_zone_found: "find_zone [sample_zone] ''gateway.internal.'' = Some sample_zone"
  by (simp add: find_zone_def sample_zone_def zoneSuffix_def HasSuffix_def)

lemma sample_zone_lookup: "zone_lookup sample_zone ''gateway.internal.'' = Some [192, 168, 127, 1]"
  by (simp add: zone_lookup_def sample_zone_def zoneSuffix_def TrimSuffix_def HasSuffix_def record_matches_def)

end
