(* ===== verification/UdpProxy.thy ===== *)
theory UdpProxy
  imports GoNet
begin

text \<open>
  The UDP proxy of \<open>pkg/services/forwarder/udp_proxy.go\<close>: one backend connection per client
  address, kept in a table, with a goroutine per connection that sends the backend's replies
  back to the client.

  The environment \<open>udp_env\<close> decides what a dial and a write return; it may depend on the events
  so far. A read that times out is one of the ways a reply goroutine can end; the listener that
  stops a proxy after a time without traffic is in \<open>UdpFlow\<close>. The write loops run until everything is written, so they are partial
  functions; a writer that keeps to the contract of \<open>net.Conn\<close> makes them return.
\<close>

subsection \<open>Connection keys\<close>

definition UDPBufSize :: nat where
  "UDPBufSize = 65507"

record udp_addr =
  ua_IP :: ip
  ua_Port :: int

record connTrackKey =
  IPHigh :: "64 word"
  IPLow :: "64 word"
  key_Port :: int

definition newConnTrackKey :: "udp_addr \<Rightarrow> connTrackKey exec" where
  "newConnTrackKey addr =
     (if length (ua_IP addr) = 4
      then Ret \<lparr>IPHigh = 0, IPLow = ucast (Uint32_BE (ua_IP addr)), key_Port = ua_Port addr\<rparr>
      else if length (ua_IP addr) < 16 then Panic
      else Ret \<lparr>IPHigh = Uint64_BE (take 8 (ua_IP addr)), IPLow = Uint64_BE (drop 8 (ua_IP addr)),
        key_Port = ua_Port addr\<rparr>)"

subsection \<open>The proxy\<close>

datatype udp_io =
    Forwarded nat bytes
  | ForwardFailed nat
  | Replied udp_addr bytes
  | ReplyFailed udp_addr
  | DialFailed
  | ClosedConn nat
  | ListenerClosed

record udp_env =
  udp_write :: "udp_io list \<Rightarrow> nat \<Rightarrow> bytes \<Rightarrow> nat result"
  udp_writeTo :: "udp_io list \<Rightarrow> udp_addr \<Rightarrow> bytes \<Rightarrow> nat result"
  udp_dial :: "udp_io list \<Rightarrow> nat result"

text \<open>\<open>repliers\<close> are the running \<open>replyLoop\<close> goroutines with their arguments.\<close>

record UDPProxy =
  connTrackTable :: "connTrackKey \<rightharpoonup> nat"
  repliers :: "(nat \<times> udp_addr \<times> connTrackKey) list"
  proxy_trace :: "udp_io list"

definition NewUDPProxy :: UDPProxy where
  "NewUDPProxy = \<lparr>connTrackTable = Map.empty, repliers = [], proxy_trace = []\<rparr>"

partial_function (option) forward_loop :: "udp_env \<Rightarrow> nat \<Rightarrow> udp_io list \<Rightarrow> bytes \<Rightarrow> udp_io list option" where
  "forward_loop E c tr buf =
     (if buf = [] then Some tr
      else (case udp_write E tr c buf of
          Inl err \<Rightarrow> Some (tr @ [ForwardFailed c])
        | Inr written \<Rightarrow> forward_loop E c (tr @ [Forwarded c (take written buf)]) (drop written buf)))"

text \<open>The inner loop of \<open>replyLoop\<close>; the second component says whether the outer loop goes on.\<close>

partial_function (option) reply_write ::
  "udp_env \<Rightarrow> udp_addr \<Rightarrow> udp_io list \<Rightarrow> bytes \<Rightarrow> (udp_io list \<times> bool) option" where
  "reply_write E addr tr buf =
     (if buf = [] then Some (tr, True)
      else (case udp_writeTo E tr addr buf of
          Inl err \<Rightarrow> Some (tr @ [ReplyFailed addr], False)
        | Inr written \<Rightarrow> reply_write E addr (tr @ [Replied addr (take written buf)]) (drop written buf)))"

text \<open>The part of \<open>Run\<close> under the lock: the connection for a datagram, if there is one.\<close>

definition track :: "udp_env \<Rightarrow> UDPProxy \<Rightarrow> udp_addr \<Rightarrow> (UDPProxy \<times> nat option) exec" where
  "track E p frm =
     bind_exec (newConnTrackKey frm) (\<lambda>fromKey.
       case connTrackTable p fromKey of
         Some proxyConn \<Rightarrow> Ret (p, Some proxyConn)
       | None \<Rightarrow>
           (case udp_dial E (proxy_trace p) of
              Inl err \<Rightarrow> Ret (p\<lparr>proxy_trace := proxy_trace p @ [DialFailed]\<rparr>, None)
            | Inr proxyConn \<Rightarrow>
                Ret (p\<lparr>connTrackTable := (connTrackTable p)(fromKey \<mapsto> proxyConn),
                       repliers := repliers p @ [(proxyConn, frm, fromKey)]\<rparr>, Some proxyConn)))"

text \<open>The deferred function of \<open>replyLoop\<close>, when the goroutine ends.\<close>

definition end_reply :: "UDPProxy \<Rightarrow> nat \<times> udp_addr \<times> connTrackKey \<Rightarrow> UDPProxy" where
  "end_reply p g = (case g of (proxyConn, clientAddr, clientKey) \<Rightarrow>
     p\<lparr>connTrackTable := (connTrackTable p)(clientKey := None), repliers := remove1 g (repliers p),
       proxy_trace := proxy_trace p @ [ClosedConn proxyConn]\<rparr>)"

definition udp_Close :: "(connTrackKey \<times> nat) list \<Rightarrow> UDPProxy \<Rightarrow> UDPProxy" where
  "udp_Close es p = p\<lparr>proxy_trace := proxy_trace p @ [ListenerClosed] @ map (\<lambda>(k, c). ClosedConn c) es\<rparr>"

definition isClosedError :: "gerror \<Rightarrow> bool" where
  "isClosedError err = HasSuffix err ''use of closed network connection''"

subsection \<open>Interleavings\<close>

text \<open>
  \<open>Run\<close> is one goroutine: it either waits for a datagram or writes one to a connection it has
  looked up. A dial returns a connection that no running goroutine holds.
\<close>

type_synonym udp_config = "UDPProxy \<times> (nat \<times> bytes) option"

inductive udp_step :: "udp_env \<Rightarrow> udp_config \<Rightarrow> udp_config \<Rightarrow> bool" for E where
  tracked: "track E p frm = Ret (p', r) \<Longrightarrow>
    (\<forall>c. p' \<noteq> p \<and> r = Some c \<longrightarrow> c \<notin> fst ` set (repliers p)) \<Longrightarrow>
    udp_step E (p, None) (p', map_option (\<lambda>c. (c, d)) r)"
| forwarded: "forward_loop E c (proxy_trace p) d = Some tr \<Longrightarrow>
    udp_step E (p, Some (c, d)) (p\<lparr>proxy_trace := tr\<rparr>, None)"
| replied: "(c, addr, k) \<in> set (repliers p) \<Longrightarrow> reply_write E addr (proxy_trace p) d = Some (tr, True) \<Longrightarrow>
    udp_step E (p, w) (p\<lparr>proxy_trace := tr\<rparr>, w)"
| reply_failed: "(c, addr, k) \<in> set (repliers p) \<Longrightarrow> reply_write E addr (proxy_trace p) d = Some (tr, False) \<Longrightarrow>
    udp_step E (p, w) (end_reply (p\<lparr>proxy_trace := tr\<rparr>) (c, addr, k), w)"
| read_failed: "(c, addr, k) \<in> set (repliers p) \<Longrightarrow> udp_step E (p, w) (end_reply p (c, addr, k), w)"
| closed: "enumerates es (connTrackTable p) \<Longrightarrow> udp_step E (p, w) (udp_Close es p, w)"

inductive_cases udp_stepE: "udp_step E (p, w) (p', w')"

inductive udp_reach :: "udp_env \<Rightarrow> udp_config \<Rightarrow> bool" for E where
  udp_init: "udp_reach E (NewUDPProxy, None)"
| udp_next: "udp_reach E x \<Longrightarrow> udp_step E x y \<Longrightarrow> udp_reach E y"

text \<open>The table and the goroutines agree, and keys and connections identify goroutines.\<close>

definition udp_inv :: "UDPProxy \<Rightarrow> bool" where
  "udp_inv p \<longleftrightarrow> distinct (map fst (repliers p)) \<and> distinct (map (snd \<circ> snd) (repliers p))
     \<and> (\<forall>k c. connTrackTable p k = Some c \<longleftrightarrow> (\<exists>addr. (c, addr, k) \<in> set (repliers p)))
     \<and> (\<forall>(c, addr, k) \<in> set (repliers p). newConnTrackKey addr = Ret k)"

subsection \<open>The table and the goroutines\<close>

lemma udp_inv_trace [simp]: "udp_inv (p\<lparr>proxy_trace := tr\<rparr>) = udp_inv p"
  by (simp add: udp_inv_def)

lemma udp_inv_lookup: "udp_inv p \<Longrightarrow> (c, addr, k) \<in> set (repliers p) \<Longrightarrow> connTrackTable p k = Some c"
  unfolding udp_inv_def by blast

lemma udp_inv_key: "udp_inv p \<Longrightarrow> (c, addr, k) \<in> set (repliers p) \<Longrightarrow> newConnTrackKey addr = Ret k"
  unfolding udp_inv_def by blast

lemma distinct_map_unique: "distinct (map f xs) \<Longrightarrow> x \<in> set xs \<Longrightarrow> y \<in> set xs \<Longrightarrow> f x = f y \<Longrightarrow> x = y"
  by (metis distinct_map inj_on_def)

lemma udp_inv_end_reply:
  assumes "udp_inv p" "(c, addr, k) \<in> set (repliers p)"
  shows "udp_inv (end_reply p (c, addr, k))"
proof -
  let ?g = "(c, addr, k)"
  have d: "distinct (map fst (repliers p))" "distinct (map (snd \<circ> snd) (repliers p))" "distinct (repliers p)"
    using assms(1) by (simp_all add: udp_inv_def distinct_map)
  have s: "set (remove1 ?g (repliers p)) = set (repliers p) - {?g}" using d(3) by (rule set_remove1_eq)
  have k: "g \<in> set (repliers p) \<Longrightarrow> snd (snd g) = k \<Longrightarrow> g = ?g" for g
    using distinct_map_unique [OF d(2) _ assms(2)] by simp
  have "((connTrackTable p)(k := None)) k' = Some c' \<longleftrightarrow> (\<exists>a. (c', a, k') \<in> set (repliers p) - {?g})" for k' c'
    using assms k [of "(c', _, k)"] by (auto simp: udp_inv_def)
  moreover have "distinct (map fst (remove1 ?g (repliers p)))" "distinct (map (snd \<circ> snd) (remove1 ?g (repliers p)))"
    using d(1,2) by (simp_all add: distinct_map distinct_remove1 inj_on_def set_remove1_eq [OF d(3)])
  ultimately show ?thesis
    using assms(1) by (auto simp: udp_inv_def end_reply_def s)
qed

lemma udp_inv_track:
  assumes "udp_inv p" "track E p frm = Ret (p', r)"
    and "\<forall>c. p' \<noteq> p \<and> r = Some c \<longrightarrow> c \<notin> fst ` set (repliers p)"
  shows "udp_inv p' \<and> (\<forall>c. r = Some c \<longrightarrow> (\<exists>addr k. (c, addr, k) \<in> set (repliers p')
      \<and> newConnTrackKey addr = newConnTrackKey frm))"
proof -
  obtain k where k: "newConnTrackKey frm = Ret k"
    using assms(2) by (auto simp: track_def bind_exec_eq_Ret)
  show ?thesis
  proof (cases "connTrackTable p k")
    case None
    show ?thesis
    proof (cases "udp_dial E (proxy_trace p)")
      case (Inl e)
      then show ?thesis using assms(1,2) k None by (auto simp: track_def)
    next
      case (Inr c)
      let ?p = "p\<lparr>connTrackTable := (connTrackTable p)(k \<mapsto> c), repliers := repliers p @ [(c, frm, k)]\<rparr>"
      have r: "p' = ?p" "r = Some c" using assms(2) k None Inr by (auto simp: track_def)
      then have "c \<notin> fst ` set (repliers p)" using assms(3) by (metis None UDPProxy.select_convs(1) UDPProxy.surjective
            UDPProxy.update_convs(1) UDPProxy.update_convs(2) fun_upd_same option.distinct(1))
      moreover have n: "(c', a, k) \<notin> set (repliers p)" for c' a
        using udp_inv_lookup [OF assms(1)] None by fastforce
      then have "k \<notin> (snd \<circ> snd) ` set (repliers p)" by fastforce
      ultimately have "udp_inv ?p"
        using assms(1) k n by (auto simp: udp_inv_def)
      then show ?thesis using r k by auto
    qed
  next
    case (Some c)
    then have "p' = p" "r = Some c" using assms(2) k by (auto simp: track_def)
    moreover obtain addr where "(c, addr, k) \<in> set (repliers p)" using assms(1) Some by (auto simp: udp_inv_def)
    ultimately show ?thesis using assms(1) k udp_inv_key [OF assms(1)] by fastforce
  qed
qed

lemma udp_inv_step: "udp_step E x y \<Longrightarrow> udp_inv (fst x) \<Longrightarrow> udp_inv (fst y)"
proof (induction rule: udp_step.induct)
  case (tracked p frm p' r d)
  then show ?case using udp_inv_track by simp
next
  case (reply_failed c addr k p d tr w)
  then show ?case using udp_inv_end_reply [of "p\<lparr>proxy_trace := tr\<rparr>" c addr k] by simp
next
  case (read_failed c addr k p w)
  then show ?case using udp_inv_end_reply by simp
qed (simp_all add: udp_Close_def)

lemma udp_inv_reach: "udp_reach E x \<Longrightarrow> udp_inv (fst x)"
proof (induction rule: udp_reach.induct)
  case udp_init
  show ?case by (simp add: udp_inv_def NewUDPProxy_def)
next
  case (udp_next x y)
  then show ?case using udp_inv_step by blast
qed

text \<open>
  C25. Sessions stay apart: in every interleaving, the table maps a key to a connection exactly
  if one goroutine serves that connection under that key; no connection and no key is
  shared; and the address a goroutine replies to has the key under which its connection is
  found, so replies go back to the client whose datagrams use the connection.
\<close>

theorem udp_sessions:
  assumes "udp_reach E (p, w)"
  shows "(connTrackTable p k = Some c) = (\<exists>addr. (c, addr, k) \<in> set (repliers p) \<and> newConnTrackKey addr = Ret k)
    \<and> distinct (map fst (repliers p)) \<and> distinct (map (snd \<circ> snd) (repliers p))"
proof -
  have inv: "udp_inv p" using udp_inv_reach [OF assms] by simp
  then have "(connTrackTable p k = Some c) = (\<exists>addr. (c, addr, k) \<in> set (repliers p))" by (simp add: udp_inv_def)
  also have "\<dots> = (\<exists>addr. (c, addr, k) \<in> set (repliers p) \<and> newConnTrackKey addr = Ret k)"
    using udp_inv_key [OF inv] by blast
  finally show ?thesis using inv by (simp add: udp_inv_def)
qed

subsection \<open>Keys\<close>

lemma byte_bit_high [simp]: "8 \<le> n \<Longrightarrow> \<not> bit (b :: byte) n"
  using bit_imp_le_length [of b n] by auto

lemma Uint64_BE_bits:
  assumes "m < 8"
  shows "bit (Uint64_BE b) (56 + m) = bit (b ! 0) m" "bit (Uint64_BE b) (48 + m) = bit (b ! 1) m"
    "bit (Uint64_BE b) (40 + m) = bit (b ! 2) m" "bit (Uint64_BE b) (32 + m) = bit (b ! 3) m"
    "bit (Uint64_BE b) (24 + m) = bit (b ! 4) m" "bit (Uint64_BE b) (16 + m) = bit (b ! 5) m"
    "bit (Uint64_BE b) (8 + m) = bit (b ! 6) m" "bit (Uint64_BE b) m = bit (b ! 7) m"
  using assms by (simp_all add: Uint64_BE_def bit_simps)

lemma Uint32_BE_bits:
  assumes "m < 8"
  shows "bit (Uint32_BE b) (24 + m) = bit (b ! 0) m" "bit (Uint32_BE b) (16 + m) = bit (b ! 1) m"
    "bit (Uint32_BE b) (8 + m) = bit (b ! 2) m" "bit (Uint32_BE b) m = bit (b ! 3) m"
  using assms by (simp_all add: Uint32_BE_def bit_simps)

lemma Uint64_BE_nth:
  assumes "Uint64_BE a = Uint64_BE b"
  shows "a ! 0 = b ! 0 \<and> a ! 1 = b ! 1 \<and> a ! 2 = b ! 2 \<and> a ! 3 = b ! 3
    \<and> a ! 4 = b ! 4 \<and> a ! 5 = b ! 5 \<and> a ! 6 = b ! 6 \<and> a ! 7 = b ! 7"
  using Uint64_BE_bits [of _ a] Uint64_BE_bits [of _ b] assms
  by (intro conjI bit_word_eqI) simp_all

lemma Uint32_BE_nth:
  assumes "Uint32_BE a = Uint32_BE b"
  shows "a ! 0 = b ! 0 \<and> a ! 1 = b ! 1 \<and> a ! 2 = b ! 2 \<and> a ! 3 = b ! 3"
  using Uint32_BE_bits [of _ a] Uint32_BE_bits [of _ b] assms
  by (intro conjI bit_word_eqI) simp_all

lemma Uint64_BE_inj: "length a = 8 \<Longrightarrow> length b = 8 \<Longrightarrow> Uint64_BE a = Uint64_BE b \<Longrightarrow> a = b"
  using Uint64_BE_nth [of a b]
  by (auto simp: list_eq_iff_nth_eq less_Suc_eq numeral_eq_Suc)

lemma Uint32_BE_inj: "length a = 4 \<Longrightarrow> length b = 4 \<Longrightarrow> Uint32_BE a = Uint32_BE b \<Longrightarrow> a = b"
  using Uint32_BE_nth [of a b]
  by (auto simp: list_eq_iff_nth_eq less_Suc_eq numeral_eq_Suc)

text \<open>
  Keys identify clients of one address family: two addresses of the same length (four or
  sixteen bytes) with the same key are the same address and port.
\<close>

lemma newConnTrackKey_inj:
  assumes "newConnTrackKey a = newConnTrackKey b" "length (ua_IP a) = length (ua_IP b)"
    and "length (ua_IP a) = 4 \<or> length (ua_IP a) = 16"
  shows "a = b"
proof (cases "length (ua_IP a) = 4")
  case True
  then have "(ucast (Uint32_BE (ua_IP a)) :: 64 word) = ucast (Uint32_BE (ua_IP b))" "ua_Port a = ua_Port b"
    using assms(1,2) by (simp_all add: newConnTrackKey_def)
  note e = this
  have "Uint32_BE (ua_IP a) = Uint32_BE (ua_IP b)"
  proof (rule bit_word_eqI)
    fix n assume "n < LENGTH(32)"
    then show "bit (Uint32_BE (ua_IP a)) n = bit (Uint32_BE (ua_IP b)) n"
      using arg_cong [OF e(1), of "\<lambda>w. bit w n"] by (simp add: bit_simps)
  qed
  then have "ua_IP a = ua_IP b" using True assms(2) Uint32_BE_inj by simp
  then show ?thesis using e(2) by simp
next
  case False
  then have l: "length (ua_IP a) = 16" "length (ua_IP b) = 16" using assms(2,3) by auto
  then have e: "Uint64_BE (take 8 (ua_IP a)) = Uint64_BE (take 8 (ua_IP b))"
      "Uint64_BE (drop 8 (ua_IP a)) = Uint64_BE (drop 8 (ua_IP b))" "ua_Port a = ua_Port b"
    using assms(1) by (simp_all add: newConnTrackKey_def)
  then have "take 8 (ua_IP a) = take 8 (ua_IP b)" "drop 8 (ua_IP a) = drop 8 (ua_IP b)"
    using l Uint64_BE_inj by simp_all
  then have "ua_IP a = ua_IP b" by (metis append_take_drop_id)
  then show ?thesis using e(3) by simp
qed

text \<open>
  Across families they do not: an IPv4 client and an IPv6 client can have the same key, so
  they share one backend connection and the second one's replies go to the first.
\<close>

lemma newConnTrackKey_collision:
  "newConnTrackKey \<lparr>ua_IP = [a, b, c, d], ua_Port = port\<rparr> =
   newConnTrackKey \<lparr>ua_IP = replicate 12 0 @ [a, b, c, d], ua_Port = port\<rparr>"
proof -
  have z: "Uint64_BE (replicate 8 0) = 0" by (simp add: Uint64_BE_def numeral_eq_Suc)
  have "Uint64_BE [0, 0, 0, 0, a, b, c, d] = ucast (Uint32_BE [a, b, c, d])"
  proof (rule bit_word_eqI)
    fix n assume n: "n < LENGTH(64)"
    consider "n < 8" | "8 \<le> n" "n < 16" | "16 \<le> n" "n < 24" | "24 \<le> n" "n < 32" | "32 \<le> n" by linarith
    then show "bit (Uint64_BE [0, 0, 0, 0, a, b, c, d]) n = bit (ucast (Uint32_BE [a, b, c, d]) :: 64 word) n"
      using n by cases (auto simp: Uint64_BE_def Uint32_BE_def bit_simps dest: bit_imp_le_length)
  qed
  moreover have "take 8 (replicate 12 (0 :: byte) @ [a, b, c, d]) = replicate 8 0"
    "drop 8 (replicate 12 0 @ [a, b, c, d]) = [0, 0, 0, 0, a, b, c, d]"
    by (simp_all add: numeral_eq_Suc)
  ultimately show ?thesis using z by (simp add: newConnTrackKey_def)
qed

subsection \<open>Writing a datagram\<close>

text \<open>The contract of \<open>Write\<close>: without an error, between one and all bytes of a non-empty buffer.\<close>

definition write_contract :: "udp_env \<Rightarrow> bool" where
  "write_contract E \<longleftrightarrow> (\<forall>tr c b n. b \<noteq> [] \<and> udp_write E tr c b = Inr n \<longrightarrow> 0 < n \<and> n \<le> length b)"

fun sent_data :: "udp_io list \<Rightarrow> bytes" where
  "sent_data [] = []"
| "sent_data (Forwarded c d # es) = d @ sent_data es"
| "sent_data (_ # es) = sent_data es"

text \<open>
  The write loop returns, for every writer that keeps the contract: it sends the bytes of
  the datagram in order, all of them unless a write fails, and then it gives up.
\<close>

lemma forward_loop_returns:
  assumes "write_contract E"
  shows "\<exists>evs rest. forward_loop E c tr buf = Some (tr @ evs) \<and> buf = sent_data evs @ rest
    \<and> (rest = [] \<or> (evs \<noteq> [] \<and> last evs = ForwardFailed c))"
proof (induction buf arbitrary: tr rule: length_induct)
  case (1 buf)
  show ?case
  proof (cases "buf = []")
    case True
    then show ?thesis by (intro exI [of _ "[]"]) (simp add: forward_loop.simps)
  next
    case False
    show ?thesis
    proof (cases "udp_write E tr c buf")
      case (Inl err)
      then show ?thesis
        using False by (intro exI [of _ "[ForwardFailed c]"] exI [of _ buf]) (simp add: forward_loop.simps)
    next
      case (Inr n)
      let ?ev = "Forwarded c (take n buf)"
      have "length (drop n buf) < length buf"
        using False Inr assms by (auto simp: write_contract_def)
      then obtain evs rest where r: "forward_loop E c (tr @ [?ev]) (drop n buf) = Some ((tr @ [?ev]) @ evs)"
          "drop n buf = sent_data evs @ rest" "rest = [] \<or> (evs \<noteq> [] \<and> last evs = ForwardFailed c)"
        using "1.IH" by blast
      have "forward_loop E c tr buf = Some (tr @ ?ev # evs)"
        using False Inr r(1) by (subst forward_loop.simps) simp
      moreover have "buf = sent_data (?ev # evs) @ rest" using r(2) append_take_drop_id [of n buf] by simp
      ultimately show ?thesis using r(3) by (intro exI [of _ "?ev # evs"] exI [of _ rest]) auto
    qed
  qed
qed

text \<open>
  A datagram arrives at the backend as one datagram, if the connection writes datagrams
  whole; but an empty datagram is not forwarded at all.
\<close>

lemma forward_datagram:
  assumes "\<forall>tr b. udp_write E tr c b = Inr (length b)"
  shows "forward_loop E c tr buf = Some (if buf = [] then tr else tr @ [Forwarded c buf])"
  using assms by (simp add: forward_loop.simps [of E c tr buf] forward_loop.simps [of E c "tr @ [Forwarded c buf]" "[]"])

subsection \<open>A sample run\<close>

definition whole_env :: udp_env where
  "whole_env = \<lparr>udp_write = (\<lambda>tr c b. Inr (length b)), udp_writeTo = (\<lambda>tr a b. Inr (length b)), udp_dial = (\<lambda>tr. Inr 3)\<rparr>"

definition client :: udp_addr where
  "client = \<lparr>ua_IP = [10, 0, 0, 2], ua_Port = 4000\<rparr>"

lemma whole_env_contract: "write_contract whole_env"
  by (simp add: write_contract_def whole_env_def)

lemma sample_track:
  "\<exists>k. newConnTrackKey client = Ret k \<and> track whole_env NewUDPProxy client =
     Ret (\<lparr>connTrackTable = [k \<mapsto> 3], repliers = [(3, client, k)], proxy_trace = []\<rparr>, Some 3)"
  by (simp add: newConnTrackKey_def client_def track_def NewUDPProxy_def whole_env_def)

theorem udp_sessions_witness:
  "\<exists>p k. udp_reach whole_env (p, Some (3, [1])) \<and> connTrackTable p k = Some 3
    \<and> (\<exists>addr. (3, addr, k) \<in> set (repliers p) \<and> newConnTrackKey addr = Ret k)"
proof -
  obtain k where k: "newConnTrackKey client = Ret k" and t: "track whole_env NewUDPProxy client =
      Ret (\<lparr>connTrackTable = [k \<mapsto> 3], repliers = [(3, client, k)], proxy_trace = []\<rparr>, Some 3)"
    using sample_track by blast
  let ?p = "\<lparr>connTrackTable = [k \<mapsto> 3], repliers = [(3, client, k)], proxy_trace = []\<rparr>"
  have "udp_step whole_env (NewUDPProxy, None) (?p, map_option (\<lambda>c. (c, [1])) (Some 3))"
    by (rule tracked [OF t]) (simp add: NewUDPProxy_def)
  then have r: "udp_reach whole_env (?p, Some (3, [1]))" using udp_next [OF udp_init] by simp
  then show ?thesis using udp_sessions [OF r, of k 3] by (intro exI [of _ ?p] exI [of _ k]) simp
qed

end
