(* ===== verification/Forwarder.thy ===== *)
theory Forwarder
  imports Cidr Ethernet UdpProxy
begin

text \<open>
  The outgoing forwarders of \<open>pkg/services/forwarder/tcp.go\<close> and \<open>udp.go\<close>: connections that
  the VM opens to any address are dialled from the host, after address translation; link-local
  addresses (the metadata service of a cloud) and, for UDP, the broadcast address are not.

  A handler is the list of what it does. Whether a dial and the creation of an endpoint
  succeed are arguments; copying between the two connections is that of \<open>tcpproxy\<close>.
\<close>

subsection \<open>Link-local addresses\<close>

definition linkLocalSubnet :: string where
  "linkLocalSubnet = ''169.254.0.0/16''"

text \<open>Both errors are ignored by the code; the lemma below shows that they do not occur.\<close>

definition linkLocal :: subnet where
  "linkLocal =
     (case ParseCIDR linkLocalSubnet of
        Inr (_, parsedSubnet) \<Rightarrow>
          (case NewSubnet (AddrFromSlice (net_IP parsedSubnet)) (net_Mask parsedSubnet) of
             Inr s \<Rightarrow> s
           | Inl _ \<Rightarrow> \<lparr>sn_address = [], sn_mask = []\<rparr>)
      | Inl _ \<Rightarrow> \<lparr>sn_address = [], sn_mask = []\<rparr>)"

definition IPv4Broadcast :: Address where
  "IPv4Broadcast = [255, 255, 255, 255]"

subsection \<open>The handlers\<close>

datatype fwd_event =
    Dial string
  | DialError
  | Complete bool
  | EndpointError
  | Proxy string
  | StartUDPProxy string

definition translate :: "(Address \<rightharpoonup> Address) \<Rightarrow> Address \<Rightarrow> Address" where
  "translate nats localAddress = (case nats localAddress of Some replaced \<Rightarrow> replaced | None \<Rightarrow> localAddress)"

definition dial_string :: "Address \<Rightarrow> 16 word \<Rightarrow> string" where
  "dial_string addr port = Address_String addr @ CHR '':'' # itoa_nat (unat port)"

definition TCP_forward ::
  "(Address \<rightharpoonup> Address) \<Rightarrow> (string \<Rightarrow> gerror option) \<Rightarrow> gerror option \<Rightarrow> Address \<Rightarrow> 16 word \<Rightarrow> fwd_event list" where
  "TCP_forward nats dial createEndpoint localAddress localPort =
     (if Subnet_Contains linkLocal localAddress then [Complete True]
      else let target = dial_string (translate nats localAddress) localPort in
        (case dial target of
           Some err \<Rightarrow> [Dial target, DialError, Complete True]
         | None \<Rightarrow>
             (case createEndpoint of
                Some tcpErr \<Rightarrow> [Dial target, Complete False, EndpointError]
              | None \<Rightarrow> [Dial target, Complete False, Proxy target])))"

definition UDP_forward ::
  "(Address \<rightharpoonup> Address) \<Rightarrow> gerror option \<Rightarrow> Address \<Rightarrow> 16 word \<Rightarrow> fwd_event list" where
  "UDP_forward nats createEndpoint localAddress localPort =
     (if Subnet_Contains linkLocal localAddress \<or> localAddress = IPv4Broadcast then []
      else (case createEndpoint of
          Some tcpErr \<Rightarrow> [EndpointError]
        | None \<Rightarrow> [StartUDPProxy (dial_string (translate nats localAddress) localPort)]))"

subsection \<open>What is dialled\<close>

lemma linkLocalSubnet_print: "linkLocalSubnet = dotted [169, 254, 0, 0] @ CHR ''/'' # itoa_nat 16"
  by code_simp

lemma linkLocal_eq: "linkLocal = \<lparr>sn_address = [169, 254, 0, 0], sn_mask = [255, 255, 0, 0]\<rparr>"
proof -
  have "v4net [169, 254, 0, 0] 16 = \<lparr>net_IP = [169, 254, 0, 0], net_Mask = [255, 255, 0, 0]\<rparr>" by code_simp
  then show ?thesis
    using ParseCIDR_print [of "[169, 254, 0, 0]" 16]
    by (simp add: linkLocal_def linkLocalSubnet_print NewSubnet_def AddrFromSlice_def)
qed

lemma linkLocal_Contains: "Subnet_Contains linkLocal [a, b, c, d] \<longleftrightarrow> a = 169 \<and> b = 254"
  by (simp add: linkLocal_eq Subnet_Contains_def)

lemma linkLocal_Contains_4: "length addr = 4 \<Longrightarrow> Subnet_Contains linkLocal addr \<longleftrightarrow> take 2 addr = [169, 254]"
  by (auto simp: length_4_iff linkLocal_Contains)

definition dialled :: "fwd_event list \<Rightarrow> string set" where
  "dialled es = {t. Dial t \<in> set es \<or> StartUDPProxy t \<in> set es}"


text \<open>
  The request of the VM is always completed exactly once by the TCP forwarder, with a reset
  if and only if nothing could be dialled. (When the endpoint cannot be created, the
  connection that was dialled is dropped without being closed.)
\<close>

lemma TCP_forward_completes:
  "\<exists>reset. filter (\<lambda>e. \<exists>b. e = Complete b) (TCP_forward nats dial ep addr port) = [Complete reset]
    \<and> reset = (Subnet_Contains linkLocal addr \<or> DialError \<in> set (TCP_forward nats dial ep addr port))"
  by (auto simp: TCP_forward_def Let_def split: option.split)


end
