(* ===== verification/Ports.thy ===== *)
theory Ports
  imports Forwarder GoURL GoHttp Types "HOL-Library.Multiset" "HOL-Library.Char_ord" "HOL-Library.List_Lexorder" "HOL-Library.Product_Lexorder"
begin

text \<open>
  Port forwarding, \<open>pkg/services/forwarder/ports.go\<close>, on the vendored \<open>inet.af/tcpproxy\<close>:
  exposing and unexposing an address of the host, the HTTP handlers, and the addresses that
  accepted connections are connected to.

  The state is the table of proxies together with what the operating system holds for it: the
  open listeners (numbered, each with its network, its address and the target its connections
  are dialled to) and the listeners whose SSH client has been created. What listening and
  removing a socket file return is decided by a \<open>ports_env\<close>, which sees the open listeners.
\<close>

subsection \<open>Addresses\<close>

record FullAddress =
  fa_NIC :: nat
  fa_Addr :: Address
  fa_Port :: "16 word"

definition tcpipAddress :: "nat \<Rightarrow> string \<Rightarrow> FullAddress result exec" where
  "tcpipAddress nicID remote =
     (let split = Split remote (CHR '':'')
      in if length split \<noteq> 2 then Ret (Inl ''invalid remote addr'')
         else (case Atoi (split ! 1) of
             Inl err \<Rightarrow> Ret (Inl err)
           | Inr port \<Rightarrow>
               bind_exec (AddrFrom4Slice (To4 (ParseIP (split ! 0)))) (\<lambda>a.
                 Ret (Inr \<lparr>fa_NIC = nicID, fa_Addr = a, fa_Port = word_of_int port\<rparr>))))"

text \<open>\<open>DialContextTCP\<close> of the dialer for SSH servers in the virtual network; \<open>dialTCP\<close> dials on the stack.\<close>

definition gonetDialer_DialContextTCP :: "(FullAddress \<Rightarrow> 'c result) \<Rightarrow> string \<Rightarrow> 'c result exec" where
  "gonetDialer_DialContextTCP dialTCP addr =
     bind_exec (tcpipAddress 1 addr) (\<lambda>r. case r of Inl err \<Rightarrow> Ret (Inl err) | Inr address \<Rightarrow> Ret (dialTCP address))"

definition firstValueOrEmpty :: "string list \<Rightarrow> string" where
  "firstValueOrEmpty x = (case x of v # _ \<Rightarrow> v | [] \<Rightarrow> [])"

definition remote :: "ExposeRequest \<Rightarrow> string \<Rightarrow> string result" where
  "remote req ip =
     (case SplitHostPort (ex_Remote req) of
        Inl err \<Rightarrow> Inl err
      | Inr (remoteIP, _) \<Rightarrow>
          if remoteIP = [] then
            (case SplitHostPort ip of
               Inl err \<Rightarrow> Inl err
             | Inr (host, _) \<Rightarrow> Inr (host @ ex_Remote req))
          else Inr (ex_Remote req))"

subsection \<open>State and environment\<close>

datatype dial_fn =
    DialTCP FullAddress
  | DialUDP FullAddress
  | DialSSH URL string string

datatype closer =
    CloseProxy "nat list"
  | CloseUDP nat
  | CloseWrapper bool "nat list"

record proxy =
  proxy_Local :: string
  proxy_Remote :: string
  proxy_Protocol :: string
  underlying :: closer

record PortsForwarder =
  proxies :: "string \<rightharpoonup> proxy"
  sockets :: "nat \<rightharpoonup> string \<times> string \<times> dial_fn"
  ssh_clients :: "nat set"
  fresh_sock :: nat

definition NewPortsForwarder :: PortsForwarder where
  "NewPortsForwarder = \<lparr>proxies = Map.empty, sockets = Map.empty, ssh_clients = {}, fresh_sock = 0\<rparr>"

datatype remove_result = Removed | NotExist | RemoveError gerror

record ports_env =
  env_listen :: "(nat \<rightharpoonup> string \<times> string \<times> dial_fn) \<Rightarrow> string \<Rightarrow> string \<Rightarrow> gerror option"
  env_remove :: "string \<Rightarrow> remove_result"
  env_resolveUDP :: "string \<Rightarrow> string result"
  env_createSSH :: "URL \<Rightarrow> string \<Rightarrow> string \<Rightarrow> gerror option"
  env_dial :: "dial_fn \<Rightarrow> gerror option"

definition net_Listen ::
  "ports_env \<Rightarrow> PortsForwarder \<Rightarrow> string \<Rightarrow> string \<Rightarrow> dial_fn \<Rightarrow> (gerror + nat) \<times> PortsForwarder" where
  "net_Listen E st network addr t =
     (case env_listen E (sockets st) network addr of
        Some err \<Rightarrow> (Inl err, st)
      | None \<Rightarrow> (Inr (fresh_sock st),
          st\<lparr>sockets := (sockets st)(fresh_sock st \<mapsto> (network, addr, t)), fresh_sock := Suc (fresh_sock st)\<rparr>))"

definition close_socket :: "nat \<Rightarrow> PortsForwarder \<Rightarrow> PortsForwarder" where
  "close_socket n st = st\<lparr>sockets := (sockets st)(n := None)\<rparr>"

subsection \<open>tcpproxy\<close>

text \<open>The listen functions a proxy is given, and \<open>ListenNpipe\<close> of a platform without pipes.\<close>

datatype listen_fn = ListenUNIX | ListenNPIPE

definition ListenNpipe :: "URL \<Rightarrow> 'a result" where
  "ListenNpipe u = Inl ''named pipes are not supported by this platform''"

record DialProxy =
  dp_Addr :: string
  dp_DialContext :: dial_fn

record tcp_proxy =
  configs :: "(string \<times> DialProxy list) list"
  lns :: "nat list"
  started :: bool
  ListenFunc :: "listen_fn option"

definition new_tcp_proxy :: tcp_proxy where
  "new_tcp_proxy = \<lparr>configs = [], lns = [], started = False, ListenFunc = None\<rparr>"

fun add_config :: "(string \<times> DialProxy list) list \<Rightarrow> string \<Rightarrow> DialProxy \<Rightarrow> (string \<times> DialProxy list) list" where
  "add_config [] ipPort r = [(ipPort, [r])]"
| "add_config ((a, rs) # cs) ipPort r = (if a = ipPort then (a, rs @ [r]) # cs else (a, rs) # add_config cs ipPort r)"

definition AddRoute :: "tcp_proxy \<Rightarrow> string \<Rightarrow> DialProxy \<Rightarrow> tcp_proxy" where
  "AddRoute p ipPort dest = p\<lparr>configs := add_config (configs p) ipPort dest\<rparr>"

text \<open>A route always matches, so the first one of a listener gets its connections.\<close>

definition netListen ::
  "ports_env \<Rightarrow> listen_fn option \<Rightarrow> PortsForwarder \<Rightarrow> string \<Rightarrow> dial_fn \<Rightarrow> (gerror + nat) \<times> PortsForwarder" where
  "netListen E lf st laddr t =
     (case lf of
        None \<Rightarrow> net_Listen E st ''tcp'' laddr t
      | Some ListenUNIX \<Rightarrow>
          (case env_remove E laddr of
             RemoveError err \<Rightarrow> (Inl err, st)
           | _ \<Rightarrow> net_Listen E st ''unix'' laddr t)
      | Some ListenNPIPE \<Rightarrow>
          (case url_Parse laddr of
             Inl err \<Rightarrow> (Inl err, st)
           | Inr npipeURI \<Rightarrow> (ListenNpipe npipeURI, st)))"

definition tcp_proxy_Close :: "nat list \<Rightarrow> PortsForwarder \<Rightarrow> PortsForwarder" where
  "tcp_proxy_Close ls st = fold close_socket ls st"

fun start_loop ::
  "ports_env \<Rightarrow> listen_fn option \<Rightarrow> (string \<times> DialProxy list) list \<Rightarrow> nat list \<Rightarrow> PortsForwarder
   \<Rightarrow> (gerror + nat list) \<times> PortsForwarder" where
  "start_loop E lf [] ls st = (Inr ls, st)"
| "start_loop E lf ((ipPort, routes) # cs) ls st =
     (case netListen E lf st ipPort (dp_DialContext (hd routes)) of
        (Inl err, st') \<Rightarrow> (Inl err, tcp_proxy_Close ls st')
      | (Inr ln, st') \<Rightarrow> start_loop E lf cs (ls @ [ln]) st')"

definition tcp_proxy_Start ::
  "ports_env \<Rightarrow> tcp_proxy \<Rightarrow> PortsForwarder \<Rightarrow> (gerror + tcp_proxy) \<times> PortsForwarder" where
  "tcp_proxy_Start E p st =
     (if started p then (Inl ''already started'', st)
      else (case start_loop E (ListenFunc p) (configs p) [] st of
          (Inl err, st') \<Rightarrow> (Inl err, st')
        | (Inr ls, st') \<Rightarrow> (Inr (p\<lparr>lns := ls, started := True\<rparr>), st')))"

text \<open>
  A connection accepted on listener \<open>n\<close> is dialled to the target; the SSH client of a tunnel is
  created by the first connection and kept.
\<close>

definition HandleConn :: "ports_env \<Rightarrow> nat \<Rightarrow> PortsForwarder \<Rightarrow> (gerror + dial_fn) \<times> PortsForwarder" where
  "HandleConn E n st =
     (case sockets st n of
        None \<Rightarrow> (Inl ''use of closed network connection'', st)
      | Some (_, _, t) \<Rightarrow>
          (case (case t of
               DialSSH u k pp \<Rightarrow> if n \<in> ssh_clients st then None else env_createSSH E u k pp
             | _ \<Rightarrow> None) of
             Some err \<Rightarrow> (Inl err, st)
           | None \<Rightarrow>
               (let st' = (case t of DialSSH _ _ _ \<Rightarrow> st\<lparr>ssh_clients := insert n (ssh_clients st)\<rparr> | _ \<Rightarrow> st)
                in case env_dial E t of Some err \<Rightarrow> (Inl err, st') | None \<Rightarrow> (Inr t, st'))))"

subsection \<open>Exposing and unexposing\<close>

definition key :: "TransportProtocol \<Rightarrow> string \<Rightarrow> string" where
  "key protocol local = protocol @ CHR ''/'' # local"

text \<open>
  The target of a forwarded socket: the dial function, the address of the route, and whether
  closing the proxy has to close an SSH client.
\<close>

definition unix_target :: "string \<Rightarrow> (dial_fn \<times> string \<times> bool) result exec" where
  "unix_target rem =
     (case url_Parse rem of
        Inl err \<Rightarrow> Ret (Inl (''failed to parse remote uri :'' @ rem @ '' : '' @ err))
      | Inr remoteURI \<Rightarrow>
          (let remoteAddr = Hostname remoteURI @ CHR '':'' # url_Port remoteURI
           in if Scheme remoteURI = ''ssh-tunnel'' then
                (let remoteQuery = url_Query remoteURI;
                     sshkeypath = firstValueOrEmpty (query_values remoteQuery ''key'');
                     passphrase = firstValueOrEmpty (query_values remoteQuery ''passphrase'');
                     uri = (if url_Port remoteURI = [] then remoteURI\<lparr>url_Host := Hostname remoteURI @ '':22''\<rparr> else remoteURI)
                 in if sshkeypath = [] then Ret (Inl ''key not provided for unix-ssh connection'')
                    else if url_Path uri = [] \<or> url_Path uri = ''/''
                    then Ret (Inl ''remote uri must contain a path to a socket file'')
                    else Ret (Inr (DialSSH uri sshkeypath passphrase, remoteAddr, True)))
              else if Scheme remoteURI = ''tcp'' then
                bind_exec (tcpipAddress 1 remoteAddr) (\<lambda>address.
                  Ret (case address of Inl err \<Rightarrow> Inl err | Inr a \<Rightarrow> Inr (DialTCP a, remoteAddr, False)))
              else Ret (Inl (''remote protocol for unix forwarder is not implemented: '' @ Scheme remoteURI))))"

definition expose_unix ::
  "ports_env \<Rightarrow> TransportProtocol \<Rightarrow> string \<Rightarrow> string \<Rightarrow> PortsForwarder \<Rightarrow> (gerror option \<times> PortsForwarder) exec" where
  "expose_unix E protocol local rem st =
     bind_exec (unix_target rem) (\<lambda>tgt. Ret (case tgt of
         Inl err \<Rightarrow> (Some err, st)
       | Inr (dialFn, remoteAddr, cleanup) \<Rightarrow>
           (let p = AddRoute (new_tcp_proxy\<lparr>ListenFunc := Some (if protocol = UNIX then ListenUNIX else ListenNPIPE)\<rparr>)
                      local \<lparr>dp_Addr = remoteAddr, dp_DialContext = dialFn\<rparr>
            in case tcp_proxy_Start E p st of
                 (Inl err, st') \<Rightarrow> (Some err, st')
               | (Inr p', st') \<Rightarrow> (None, st'\<lparr>proxies := (proxies st')(key protocol local \<mapsto>
                   \<lparr>proxy_Local = local, proxy_Remote = rem, proxy_Protocol = protocol,
                    underlying = CloseWrapper cleanup (lns p')\<rparr>)\<rparr>))))"

definition expose_udp ::
  "ports_env \<Rightarrow> string \<Rightarrow> string \<Rightarrow> PortsForwarder \<Rightarrow> (gerror option \<times> PortsForwarder) exec" where
  "expose_udp E local rem st =
     bind_exec (tcpipAddress 1 rem) (\<lambda>address. Ret (case address of
         Inl err \<Rightarrow> (Some err, st)
       | Inr a \<Rightarrow>
           (case env_resolveUDP E local of
              Inl err \<Rightarrow> (Some err, st)
            | Inr addr \<Rightarrow>
                (case net_Listen E st ''udp'' addr (DialUDP a) of
                   (Inl err, st') \<Rightarrow> (Some err, st')
                 | (Inr listener, st') \<Rightarrow> (None, st'\<lparr>proxies := (proxies st')(key UDP local \<mapsto>
                     \<lparr>proxy_Local = local, proxy_Remote = rem, proxy_Protocol = ''udp'',
                      underlying = CloseUDP listener\<rparr>)\<rparr>)))))"

definition expose_tcp ::
  "ports_env \<Rightarrow> string \<Rightarrow> string \<Rightarrow> PortsForwarder \<Rightarrow> (gerror option \<times> PortsForwarder) exec" where
  "expose_tcp E local rem st =
     bind_exec (tcpipAddress 1 rem) (\<lambda>address. Ret (case address of
         Inl err \<Rightarrow> (Some err, st)
       | Inr a \<Rightarrow>
           (let p = AddRoute new_tcp_proxy local \<lparr>dp_Addr = rem, dp_DialContext = DialTCP a\<rparr>
            in case tcp_proxy_Start E p st of
                 (Inl err, st') \<Rightarrow> (Some err, st')
               | (Inr p', st') \<Rightarrow> (None, st'\<lparr>proxies := (proxies st')(key TCP local \<mapsto>
                   \<lparr>proxy_Local = local, proxy_Remote = rem, proxy_Protocol = ''tcp'',
                    underlying = CloseProxy (lns p')\<rparr>)\<rparr>))))"

definition Expose ::
  "ports_env \<Rightarrow> TransportProtocol \<Rightarrow> string \<Rightarrow> string \<Rightarrow> PortsForwarder \<Rightarrow> (gerror option \<times> PortsForwarder) exec" where
  "Expose E protocol local rem st =
     (if local \<in> dom (proxies st) then Ret (Some ''proxy already running'', st)
      else if protocol = UNIX \<or> protocol = NPIPE then expose_unix E protocol local rem st
      else if protocol = UDP then expose_udp E local rem st
      else if protocol = TCP then expose_tcp E local rem st
      else Ret (Some (''unknown protocol '' @ protocol), st))"

fun closer_Close :: "closer \<Rightarrow> PortsForwarder \<Rightarrow> PortsForwarder" where
  "closer_Close (CloseProxy ls) st = tcp_proxy_Close ls st"
| "closer_Close (CloseUDP l) st = close_socket l st"
| "closer_Close (CloseWrapper cleanup ls) st =
     tcp_proxy_Close ls (if cleanup then st\<lparr>ssh_clients := ssh_clients st - set ls\<rparr> else st)"

definition Unexpose :: "TransportProtocol \<Rightarrow> string \<Rightarrow> PortsForwarder \<Rightarrow> gerror option \<times> PortsForwarder" where
  "Unexpose protocol local st =
     (case proxies st (key protocol local) of
        None \<Rightarrow> (Some ''proxy not found'', st)
      | Some p \<Rightarrow> (None, closer_Close (underlying p) (st\<lparr>proxies := (proxies st)(key protocol local := None)\<rparr>)))"

subsection \<open>HTTP handlers\<close>

text \<open>\<open>es\<close> is the order in which the table is visited.\<close>

definition ports_all :: "(string \<times> proxy) list \<Rightarrow> proxy list" where
  "ports_all es = sort_key (\<lambda>p. (proxy_Local p, proxy_Protocol p)) (map snd es)"

definition default_protocol :: "TransportProtocol \<Rightarrow> TransportProtocol" where
  "default_protocol protocol = (if protocol = [] then TCP else protocol)"

definition ports_expose ::
  "ports_env \<Rightarrow> http_method \<Rightarrow> ExposeRequest result \<Rightarrow> string \<Rightarrow> PortsForwarder \<Rightarrow> (http_response \<times> PortsForwarder) exec" where
  "ports_expose E mth body remoteAddr st =
     (if mth \<noteq> POST then Ret (http_Error ''post only'' StatusBadRequest, st)
      else (case body of
          Inl err \<Rightarrow> Ret (http_Error err StatusBadRequest, st)
        | Inr req \<Rightarrow>
            (let protocol = default_protocol (ex_Protocol req)
             in case (if protocol \<noteq> UNIX \<and> protocol \<noteq> NPIPE then remote (req\<lparr>ex_Protocol := protocol\<rparr>) remoteAddr
                      else Inr (ex_Remote req)) of
                  Inl err \<Rightarrow> Ret (http_Error err StatusBadRequest, st)
                | Inr rem \<Rightarrow>
                    bind_exec (Expose E protocol (ex_Local req) rem st) (\<lambda>(err, st'). Ret (case err of
                        Some e \<Rightarrow> (http_Error e StatusInternalServerError, st')
                      | None \<Rightarrow> (http_OK, st'))))))"

definition ports_unexpose ::
  "http_method \<Rightarrow> UnexposeRequest result \<Rightarrow> PortsForwarder \<Rightarrow> http_response \<times> PortsForwarder" where
  "ports_unexpose mth body st =
     (if mth \<noteq> POST then (http_Error ''post only'' StatusBadRequest, st)
      else (case body of
          Inl err \<Rightarrow> (http_Error err StatusBadRequest, st)
        | Inr req \<Rightarrow>
            (case Unexpose (default_protocol (un_Protocol req)) (un_Local req) st of
               (Some e, st') \<Rightarrow> (http_Error e StatusInternalServerError, st')
             | (None, st') \<Rightarrow> (http_OK, st'))))"

subsection \<open>Parsing addresses\<close>

lemma Split_2_iff: "Split s sep = [a, b] \<longleftrightarrow> s = a @ sep # b \<and> sep \<notin> set a \<and> sep \<notin> set b"
  using Split_eq_2D [of s sep a b] by (auto simp: Split_append_sep Split_no_sep)

text \<open>\<open>s\<close> is \<open>h:p\<close> with a number after its only colon.\<close>

definition host_port :: "string \<Rightarrow> string \<Rightarrow> int \<Rightarrow> bool" where
  "host_port s h port \<longleftrightarrow> (\<exists>p. s = h @ CHR '':'' # p \<and> CHR '':'' \<notin> set h \<and> CHR '':'' \<notin> set p \<and> Atoi p = Inr port)"

lemma tcpipAddress_host_port:
  assumes "host_port s h port"
  shows "tcpipAddress nic s = bind_exec (AddrFrom4Slice (To4 (ParseIP h)))
    (\<lambda>a. Ret (Inr \<lparr>fa_NIC = nic, fa_Addr = a, fa_Port = word_of_int port\<rparr>))"
proof -
  obtain p where p: "Split s (CHR '':'') = [h, p]" "Atoi p = Inr port"
    using assms unfolding host_port_def Split_2_iff by blast
  then show ?thesis by (simp add: tcpipAddress_def)
qed

lemma tcpipAddress_other:
  assumes "\<nexists>h port. host_port s h port"
  shows "\<exists>e. tcpipAddress nic s = Ret (Inl e)"
proof (cases "length (Split s (CHR '':'')) = 2")
  case True
  then obtain h p where hp: "Split s (CHR '':'') = [h, p]" by (auto simp: length_Suc_conv numeral_2_eq_2)
  then have "Atoi p \<noteq> Inr port" for port using assms unfolding host_port_def Split_2_iff by blast
  then obtain e where "Atoi p = Inl e" by (cases "Atoi p") auto
  then show ?thesis using hp by (simp add: tcpipAddress_def)
qed (simp add: tcpipAddress_def)

lemma host_port_Split: "host_port s h port \<longleftrightarrow> (\<exists>p. Split s (CHR '':'') = [h, p] \<and> Atoi p = Inr port)"
  unfolding host_port_def Split_2_iff by blast

lemma host_port_unique: "host_port s h port \<Longrightarrow> host_port s h' port' \<Longrightarrow> h = h' \<and> port = port'"
  unfolding host_port_Split by auto

text \<open>
  Which remote addresses are accepted. An address is built exactly from the strings \<open>h:p\<close>
  with a number \<open>p\<close> and an IPv4 address \<open>h\<close>, and carries \<open>p\<close> reduced to 16 bits; a string
  \<open>h:p\<close> whose host is anything else, a host name for instance, makes the code panic; every
  other string is rejected with an error.
\<close>

lemma tcpipAddress_spec:
  "(tcpipAddress nic s = Ret (Inr fa) \<longleftrightarrow> (\<exists>h port. host_port s h port \<and> length (To4 (ParseIP h)) = 4
      \<and> fa = \<lparr>fa_NIC = nic, fa_Addr = To4 (ParseIP h), fa_Port = word_of_int port\<rparr>))
   \<and> (tcpipAddress nic s = Panic \<longleftrightarrow> (\<exists>h port. host_port s h port \<and> length (To4 (ParseIP h)) \<noteq> 4))
   \<and> ((\<exists>e. tcpipAddress nic s = Ret (Inl e)) \<longleftrightarrow> (\<nexists>h port. host_port s h port))"
proof (cases "\<exists>h port. host_port s h port")
  case True
  then obtain h port where hp: "host_port s h port" by blast
  have u: "host_port s h' port' \<longleftrightarrow> h' = h \<and> port' = port" for h' port' using hp host_port_unique by blast
  show ?thesis unfolding u tcpipAddress_host_port [OF hp] by (auto simp: AddrFrom4Slice_def)
next
  case False
  then show ?thesis using tcpipAddress_other [of s nic] by auto
qed

text \<open>A name instead of an address of an SSH server makes the dialer panic.\<close>

lemma gonetDialer_panics:
  "gonetDialer_DialContextTCP dialTCP addr = Panic \<longleftrightarrow> (\<exists>h port. host_port addr h port \<and> length (To4 (ParseIP h)) \<noteq> 4)"
proof -
  have "gonetDialer_DialContextTCP dialTCP addr = Panic \<longleftrightarrow> tcpipAddress 1 addr = Panic"
    by (simp add: gonetDialer_DialContextTCP_def bind_exec_eq_Panic split: sum.split) (metis sum.exhaust)
  then show ?thesis using tcpipAddress_spec [of 1 addr] by blast
qed


lemma tcpipAddress_print:
  assumes "length a = 4" "n < 2 ^ 63"
  shows "tcpipAddress nic (dotted a @ CHR '':'' # itoa_nat n) = Ret (Inr \<lparr>fa_NIC = nic, fa_Addr = a, fa_Port = of_nat n\<rparr>)"
proof -
  have "CHR '':'' \<notin> set (dotted a)" using dotted_chars [OF assms(1), of "CHR '':''"] by (auto simp: digit_val_def)
  moreover have "CHR '':'' \<notin> set (itoa_nat n)" using itoa_nat_digits [of "CHR '':''" n] by (auto simp: digit_val_def)
  ultimately have "host_port (dotted a @ CHR '':'' # itoa_nat n) (dotted a) (int n)"
    using assms(2) by (auto simp: host_port_def Atoi_itoa)
  moreover have "length v4InV6Prefix = 12" by (simp add: v4InV6Prefix_def)
  ultimately show ?thesis using assms(1)
    by (simp add: tcpipAddress_host_port To4_def AddrFrom4Slice_def)
qed

subsection \<open>What one operation does\<close>

text \<open>The target a protocol and a remote address stand for.\<close>

definition expose_target :: "TransportProtocol \<Rightarrow> string \<Rightarrow> dial_fn result exec" where
  "expose_target protocol rem =
     (if protocol = UNIX \<or> protocol = NPIPE
      then bind_exec (unix_target rem) (\<lambda>t. Ret (case t of Inl e \<Rightarrow> Inl e | Inr (d, _, _) \<Rightarrow> Inr d))
      else bind_exec (tcpipAddress 1 rem) (\<lambda>t. Ret (case t of Inl e \<Rightarrow> Inl e
        | Inr a \<Rightarrow> Inr (if protocol = UDP then DialUDP a else DialTCP a))))"

fun closer_socks :: "closer \<Rightarrow> nat list" where
  "closer_socks (CloseProxy ls) = ls"
| "closer_socks (CloseUDP l) = [l]"
| "closer_socks (CloseWrapper _ ls) = ls"

fun is_ssh :: "dial_fn \<Rightarrow> bool" where
  "is_ssh (DialSSH _ _ _) = True"
| "is_ssh _ = False"

text \<open>
  What a successful \<open>Expose\<close> adds: one listener and one entry that owns it and, for a tunnel,
  closes its SSH client.
\<close>

definition added :: "PortsForwarder \<Rightarrow> PortsForwarder \<Rightarrow> TransportProtocol \<Rightarrow> string \<Rightarrow> string \<Rightarrow> string \<Rightarrow> string \<Rightarrow> dial_fn \<Rightarrow> closer \<Rightarrow> bool" where
  "added st st' protocol local rem network addr t c \<longleftrightarrow>
     closer_socks c = [fresh_sock st] \<and> (is_ssh t \<longrightarrow> c = CloseWrapper True [fresh_sock st]) \<and>
     st' = st\<lparr>proxies := (proxies st)(key protocol local \<mapsto>
                \<lparr>proxy_Local = local, proxy_Remote = rem, proxy_Protocol = protocol, underlying = c\<rparr>),
              sockets := (sockets st)(fresh_sock st \<mapsto> (network, addr, t)), fresh_sock := Suc (fresh_sock st)\<rparr>"

lemma bind_exec_Ret_iff: "bind_exec m f = Ret y \<longleftrightarrow> (\<exists>x. m = Ret x \<and> f x = Ret y)"
  by (cases m) auto

lemma net_Listen_cases:
  "net_Listen E st network addr t = (r, st') \<Longrightarrow> (\<exists>e. r = Inl e \<and> st' = st) \<or>
   (r = Inr (fresh_sock st) \<and> env_listen E (sockets st) network addr = None \<and>
    st' = st\<lparr>sockets := (sockets st)(fresh_sock st \<mapsto> (network, addr, t)), fresh_sock := Suc (fresh_sock st)\<rparr>)"
  by (auto simp: net_Listen_def split: option.splits)

lemma tcp_proxy_Start_route:
  "tcp_proxy_Start E (AddRoute (new_tcp_proxy\<lparr>ListenFunc := lf\<rparr>) local d) st =
     (case netListen E lf st local (dp_DialContext d) of
        (Inl err, st') \<Rightarrow> (Inl err, st')
      | (Inr ln, st') \<Rightarrow> (Inr ((AddRoute (new_tcp_proxy\<lparr>ListenFunc := lf\<rparr>) local d)\<lparr>lns := [ln], started := True\<rparr>), st'))"
  by (auto simp: tcp_proxy_Start_def AddRoute_def new_tcp_proxy_def tcp_proxy_Close_def split: prod.split sum.split)

lemma netListen_cases:
  "netListen E lf st addr t = (r, st') \<Longrightarrow> (\<exists>e. r = Inl e \<and> st' = st) \<or>
   (r = Inr (fresh_sock st) \<and> lf \<noteq> Some ListenNPIPE \<and>
    st' = st\<lparr>sockets := (sockets st)(fresh_sock st \<mapsto> (if lf = None then ''tcp'' else ''unix'', addr, t)),
             fresh_sock := Suc (fresh_sock st)\<rparr>)"
  by (auto simp: netListen_def ListenNpipe_def split: option.splits listen_fn.splits remove_result.splits sum.splits
      dest!: net_Listen_cases)

lemma unix_target_ssh: "unix_target rem = Ret (Inr (d, ra, cl)) \<Longrightarrow> is_ssh d \<Longrightarrow> cl"
proof (cases "url_Parse rem")
  case (Inr u)
  assume a: "unix_target rem = Ret (Inr (d, ra, cl))" "is_ssh d"
  have "Scheme u = ''ssh-tunnel''"
  proof (rule ccontr)
    assume n: "Scheme u \<noteq> ''ssh-tunnel''"
    then obtain x where "(case x of Inl err \<Rightarrow> Inl err | Inr a \<Rightarrow> Inr (DialTCP a, Hostname u @ CHR '':'' # url_Port u, False))
        = (Inr (d, ra, cl) :: (dial_fn \<times> string \<times> bool) result)"
      using a Inr by (auto simp: unix_target_def Let_def bind_exec_Ret_iff split: if_splits)
    then show False using a(2) by (auto split: sum.splits)
  qed
  then show cl using a(1) Inr by (auto simp: unix_target_def Let_def split: if_splits)
qed (simp add: unix_target_def)

lemma expose_unix_cases:
  assumes "expose_unix E protocol local rem st = Ret (err, st')" "protocol = UNIX \<or> protocol = NPIPE"
  shows "(err \<noteq> None \<and> st' = st) \<or> (err = None \<and> protocol = UNIX \<and> (\<exists>t cl.
      expose_target protocol rem = Ret (Inr t) \<and>
      added st st' protocol local rem ''unix'' local t (CloseWrapper cl [fresh_sock st])))"
proof -
  obtain tgt where tgt: "unix_target rem = Ret tgt"
    using assms(1) by (auto simp: expose_unix_def bind_exec_Ret_iff)
  show ?thesis
  proof (cases tgt)
    case (Inl e)
    then show ?thesis using assms tgt by (auto simp: expose_unix_def)
  next
    case (Inr x)
    obtain d ra cl where x: "x = (d, ra, cl)" by (cases x)
    have cl: "is_ssh d \<Longrightarrow> cl" using unix_target_ssh tgt Inr x by blast
    let ?lf = "Some (if protocol = UNIX then ListenUNIX else ListenNPIPE)"
    obtain r st1 where l: "netListen E ?lf st local d = (r, st1)" by fastforce
    have "(err \<noteq> None \<and> st' = st) \<or> (err = None \<and> protocol = UNIX
        \<and> added st st' protocol local rem ''unix'' local d (CloseWrapper cl [fresh_sock st]))"
      using assms tgt Inr x cl l netListen_cases [OF l]
      by (auto simp: expose_unix_def tcp_proxy_Start_route added_def TransportProtocol_defs)
    moreover have "expose_target protocol rem = Ret (Inr d)" using assms(2) tgt Inr x by (simp add: expose_target_def)
    ultimately show ?thesis by blast
  qed
qed

lemma expose_tcp_cases:
  assumes "expose_tcp E local rem st = Ret (err, st')"
  shows "(err \<noteq> None \<and> st' = st) \<or> (err = None \<and> (\<exists>a.
      expose_target TCP rem = Ret (Inr (DialTCP a)) \<and>
      added st st' TCP local rem ''tcp'' local (DialTCP a) (CloseProxy [fresh_sock st])))"
proof -
  obtain tgt where tgt: "tcpipAddress 1 rem = Ret tgt"
    using assms(1) by (auto simp: expose_tcp_def bind_exec_Ret_iff)
  show ?thesis
  proof (cases tgt)
    case (Inl e)
    then show ?thesis using assms tgt by (auto simp: expose_tcp_def)
  next
    case (Inr a)
    obtain r st1 where l: "netListen E None st local (DialTCP a) = (r, st1)" by fastforce
    have "new_tcp_proxy = new_tcp_proxy\<lparr>ListenFunc := None\<rparr>" by (simp add: new_tcp_proxy_def)
    then have "tcp_proxy_Start E (AddRoute new_tcp_proxy local d) st =
        tcp_proxy_Start E (AddRoute (new_tcp_proxy\<lparr>ListenFunc := None\<rparr>) local d) st" for d by simp
    then show ?thesis using assms tgt Inr l netListen_cases [OF l]
      by (auto simp: expose_tcp_def tcp_proxy_Start_route added_def expose_target_def TransportProtocol_defs)
  qed
qed

lemma expose_udp_cases:
  assumes "expose_udp E local rem st = Ret (err, st')"
  shows "(err \<noteq> None \<and> st' = st) \<or> (err = None \<and> (\<exists>a addr.
      expose_target UDP rem = Ret (Inr (DialUDP a)) \<and> env_resolveUDP E local = Inr addr \<and>
      added st st' UDP local rem ''udp'' addr (DialUDP a) (CloseUDP (fresh_sock st))))"
proof -
  obtain tgt where tgt: "tcpipAddress 1 rem = Ret tgt"
    using assms(1) by (auto simp: expose_udp_def bind_exec_Ret_iff)
  show ?thesis
  proof (cases tgt)
    case (Inl e)
    then show ?thesis using assms tgt by (auto simp: expose_udp_def)
  next
    case (Inr a)
    show ?thesis using assms tgt Inr
      by (auto simp: expose_udp_def added_def expose_target_def TransportProtocol_defs net_Listen_def
          split: sum.splits option.splits)
  qed
qed

lemma Expose_cases:
  assumes "Expose E protocol local rem st = Ret (err, st')"
  shows "if err \<noteq> None then st' = st
    else protocol \<in> {UNIX, TCP, UDP} \<and> local \<notin> dom (proxies st) \<and>
      (\<exists>t addr c. expose_target protocol rem = Ret (Inr t)
        \<and> (if protocol = UDP then env_resolveUDP E local = Inr addr else addr = local)
        \<and> added st st' protocol local rem protocol addr t c)"
proof -
  consider "local \<in> dom (proxies st)" | "local \<notin> dom (proxies st)" "protocol = UNIX \<or> protocol = NPIPE"
    | "local \<notin> dom (proxies st)" "protocol = UDP" | "local \<notin> dom (proxies st)" "protocol = TCP"
    | "local \<notin> dom (proxies st)" "protocol \<notin> {UNIX, NPIPE, UDP, TCP}" by blast
  then show ?thesis
  proof cases
    case 1
    then show ?thesis using assms by (auto simp: Expose_def)
  next
    case 2
    then show ?thesis using assms expose_unix_cases [of E protocol local rem st err st']
      by (auto simp: Expose_def TransportProtocol_defs)
  next
    case 3
    then show ?thesis using assms expose_udp_cases [of E local rem st err st']
      by (auto simp: Expose_def TransportProtocol_defs)
  next
    case 4
    then show ?thesis using assms expose_tcp_cases [of E local rem st err st']
      by (auto simp: Expose_def TransportProtocol_defs)
  next
    case 5
    then show ?thesis using assms by (auto simp: Expose_def)
  qed
qed

subsection \<open>Who owns the listeners\<close>

text \<open>
  Sequences of requests and connections. With \<open>reuse\<close> off, callers do not expose a protocol
  and a local address that are exposed already.
\<close>

inductive ports_step :: "ports_env \<Rightarrow> bool \<Rightarrow> PortsForwarder \<Rightarrow> PortsForwarder \<Rightarrow> bool" for E reuse where
  step_expose: "Expose E protocol local rem st = Ret (err, st') \<Longrightarrow> reuse \<or> key protocol local \<notin> dom (proxies st)
     \<Longrightarrow> ports_step E reuse st st'"
| step_unexpose: "Unexpose protocol local st = (err, st') \<Longrightarrow> ports_step E reuse st st'"
| step_conn: "HandleConn E n st = (r, st') \<Longrightarrow> ports_step E reuse st st'"

definition owns :: "proxy \<Rightarrow> nat \<Rightarrow> bool" where
  "owns p n \<longleftrightarrow> n \<in> set (closer_socks (underlying p))"

text \<open>Entries are stored under their own key, and each owns one open listener, which no other owns.\<close>

definition ports_wf :: "PortsForwarder \<Rightarrow> bool" where
  "ports_wf st \<longleftrightarrow>
     (\<forall>k p. proxies st k = Some p \<longrightarrow> k = key (proxy_Protocol p) (proxy_Local p) \<and> proxy_Protocol p \<in> {UNIX, TCP, UDP}
        \<and> (\<exists>n. closer_socks (underlying p) = [n] \<and> n \<in> dom (sockets st)))
     \<and> (\<forall>k p k' p' n. proxies st k = Some p \<longrightarrow> proxies st k' = Some p' \<longrightarrow> owns p n \<longrightarrow> owns p' n \<longrightarrow> k = k')
     \<and> (\<forall>n \<in> dom (sockets st) \<union> ssh_clients st. n < fresh_sock st)"

text \<open>Nothing is held that no entry will release: listeners and SSH clients.\<close>

definition no_leak :: "PortsForwarder \<Rightarrow> bool" where
  "no_leak st \<longleftrightarrow>
     (\<forall>n \<in> dom (sockets st). \<exists>k p. proxies st k = Some p \<and> owns p n)
     \<and> (\<forall>n \<in> ssh_clients st. \<exists>net addr t. sockets st n = Some (net, addr, t) \<and> is_ssh t)
     \<and> (\<forall>n net addr t k p. sockets st n = Some (net, addr, t) \<longrightarrow> is_ssh t \<longrightarrow> proxies st k = Some p \<longrightarrow> owns p n
          \<longrightarrow> underlying p = CloseWrapper True [n])"

lemma ports_wf_New: "ports_wf NewPortsForwarder" "no_leak NewPortsForwarder"
  by (simp_all add: ports_wf_def no_leak_def NewPortsForwarder_def)

lemma ports_wf_entry:
  "ports_wf st \<Longrightarrow> proxies st k = Some p \<Longrightarrow> k = key (proxy_Protocol p) (proxy_Local p) \<and>
   proxy_Protocol p \<in> {UNIX, TCP, UDP} \<and> (\<exists>n. closer_socks (underlying p) = [n] \<and> n \<in> dom (sockets st))"
  unfolding ports_wf_def by blast

lemma ports_wf_uniq:
  "ports_wf st \<Longrightarrow> proxies st k = Some p \<Longrightarrow> proxies st k' = Some p' \<Longrightarrow> owns p n \<Longrightarrow> owns p' n \<Longrightarrow> k = k'"
  unfolding ports_wf_def by blast

lemma ports_wf_less: "ports_wf st \<Longrightarrow> n \<in> dom (sockets st) \<union> ssh_clients st \<Longrightarrow> n < fresh_sock st"
  unfolding ports_wf_def by blast

lemma ports_wf_owns:
  assumes "ports_wf st" "proxies st k = Some p" "owns p n"
  shows "closer_socks (underlying p) = [n] \<and> n \<in> dom (sockets st) \<and> n < fresh_sock st"
proof -
  obtain m where "closer_socks (underlying p) = [m]" "m \<in> dom (sockets st)"
    using ports_wf_entry [OF assms(1,2)] by blast
  then show ?thesis using assms(3) ports_wf_less [OF assms(1), of m] by (simp add: owns_def)
qed

lemma HandleConn_effect:
  "HandleConn E n st = (r, st') \<Longrightarrow> st' = st \<or>
   (st' = st\<lparr>ssh_clients := insert n (ssh_clients st)\<rparr> \<and> (\<exists>net addr t. sockets st n = Some (net, addr, t) \<and> is_ssh t))"
  by (auto simp: HandleConn_def Let_def split: option.splits dial_fn.splits if_splits)

lemma Unexpose_effect:
  assumes "Unexpose protocol local st = (err, st')" "ports_wf st"
  shows "st' = st \<or> (\<exists>p n cl. proxies st (key protocol local) = Some p \<and> closer_socks (underlying p) = [n] \<and>
    cl = (case underlying p of CloseWrapper c _ \<Rightarrow> c | _ \<Rightarrow> False) \<and>
    st' = st\<lparr>proxies := (proxies st)(key protocol local := None), sockets := (sockets st)(n := None),
             ssh_clients := (if cl then ssh_clients st - {n} else ssh_clients st)\<rparr>)"
proof (cases "proxies st (key protocol local)")
  case None
  then show ?thesis using assms by (simp add: Unexpose_def)
next
  case (Some p)
  then obtain n where "closer_socks (underlying p) = [n]" using assms(2) unfolding ports_wf_def by blast
  then show ?thesis using assms(1) Some
    by (cases "underlying p") (auto simp: Unexpose_def tcp_proxy_Close_def close_socket_def)
qed

lemma Expose_added:
  assumes "Expose E protocol local rem st = Ret (None, st')"
  shows "protocol \<in> {UNIX, TCP, UDP} \<and> (\<exists>t addr c. added st st' protocol local rem protocol addr t c)"
proof -
  have p: "protocol \<in> {UNIX, TCP, UDP}" and e: "\<exists>t addr c. expose_target protocol rem = Ret (Inr t)
      \<and> (if protocol = UDP then env_resolveUDP E local = Inr addr else addr = local)
      \<and> added st st' protocol local rem protocol addr t c"
    using Expose_cases [OF assms] by (simp_all only: simp_thms if_False)
  obtain t addr c where "added st st' protocol local rem protocol addr t c" using e by (elim exE conjE)
  then show ?thesis using p by (intro conjI exI)
qed

lemma Expose_effect:
  assumes "Expose E protocol local rem st = Ret (err, st')"
  shows "st' = st \<or> (protocol \<in> {UNIX, TCP, UDP} \<and> (\<exists>t addr c. added st st' protocol local rem protocol addr t c))"
proof (cases err)
  case None
  then show ?thesis using Expose_added assms by blast
next
  case (Some e)
  then show ?thesis using Expose_cases [OF assms] by simp
qed

lemma ports_wf_added:
  assumes wf: "ports_wf st" and a: "added st st' protocol local rem network addr t c" and p: "protocol \<in> {UNIX, TCP, UDP}"
  shows "ports_wf st'"
proof -
  have new: "\<not> owns q (fresh_sock st)" if "proxies st k = Some q" for k q
    using ports_wf_owns [OF wf that] by blast
  have c: "closer_socks c = [fresh_sock st]" and st': "st' = st\<lparr>proxies := (proxies st)(key protocol local \<mapsto>
      \<lparr>proxy_Local = local, proxy_Remote = rem, proxy_Protocol = protocol, underlying = c\<rparr>),
      sockets := (sockets st)(fresh_sock st \<mapsto> (network, addr, t)), fresh_sock := Suc (fresh_sock st)\<rparr>"
    using a unfolding added_def by blast+
  have "k = key (proxy_Protocol q) (proxy_Local q) \<and> proxy_Protocol q \<in> {UNIX, TCP, UDP}
      \<and> (\<exists>n. closer_socks (underlying q) = [n] \<and> n \<in> dom (sockets st'))" if "proxies st' k = Some q" for k q
  proof (cases "k = key protocol local")
    case True
    then have "q = \<lparr>proxy_Local = local, proxy_Remote = rem, proxy_Protocol = protocol, underlying = c\<rparr>"
      using that by (simp add: st')
    then show ?thesis using True c p by (simp add: st')
  next
    case False
    then show ?thesis using that ports_wf_entry [OF wf, of k q] by (auto simp: st')
  qed
  moreover have "k = k'" if "proxies st' k = Some q" "proxies st' k' = Some q'" "owns q n" "owns q' n" for k q k' q' n
    using that new [of k q] new [of k' q'] ports_wf_uniq [OF wf, of k q k' q' n] c by (auto simp: st' owns_def split: if_splits)
  moreover have "n < fresh_sock st'" if "n \<in> dom (sockets st') \<union> ssh_clients st'" for n
    using that ports_wf_less [OF wf, of n] by (auto simp: st' less_SucI domI split: if_splits)
  ultimately show ?thesis unfolding ports_wf_def by blast
qed

lemma ports_wf_Unexpose:
  assumes wf: "ports_wf st" and u: "Unexpose protocol local st = (err, st')"
  shows "ports_wf st'"
proof -
  consider "st' = st" | p n cl where "proxies st (key protocol local) = Some p" "closer_socks (underlying p) = [n]"
    "st' = st\<lparr>proxies := (proxies st)(key protocol local := None), sockets := (sockets st)(n := None),
             ssh_clients := (if cl then ssh_clients st - {n} else ssh_clients st)\<rparr>"
    using Unexpose_effect [OF u wf] by blast
  then show ?thesis
  proof cases
    case (2 p n cl)
    note st' = 2(3)
    have own: "\<not> owns q n" if "proxies st k = Some q" "k \<noteq> key protocol local" for k q
      using ports_wf_uniq [OF wf that(1) 2(1), of n] that(2) 2(2) by (auto simp: owns_def)
    have "k = key (proxy_Protocol q) (proxy_Local q) \<and> proxy_Protocol q \<in> {UNIX, TCP, UDP}
        \<and> (\<exists>n. closer_socks (underlying q) = [n] \<and> n \<in> dom (sockets st'))" if "proxies st' k = Some q" for k q
    proof -
      have k: "proxies st k = Some q" "k \<noteq> key protocol local" using that by (auto simp: st' split: if_splits)
      then obtain m where m: "closer_socks (underlying q) = [m]" "m \<in> dom (sockets st)" using ports_wf_entry [OF wf] by blast
      then have "m \<noteq> n" using own [OF k] by (auto simp: owns_def)
      then have "m \<in> dom (sockets st')" using m(2) by (auto simp: st')
      then show ?thesis using m(1) ports_wf_entry [OF wf k(1)] by blast
    qed
    moreover have "k = k'" if "proxies st' k = Some q" "proxies st' k' = Some q'" "owns q m" "owns q' m" for k q k' q' m
      using that ports_wf_uniq [OF wf, of k q k' q' m] by (auto simp: st' split: if_splits)
    moreover have "m < fresh_sock st'" if "m \<in> dom (sockets st') \<union> ssh_clients st'" for m
      using that ports_wf_less [OF wf, of m] by (auto simp: st' domI split: if_splits)
    ultimately show ?thesis unfolding ports_wf_def by blast
  qed (use wf in simp)
qed

lemma ports_wf_ssh:
  assumes "ports_wf st" "n \<in> dom (sockets st)"
  shows "ports_wf (st\<lparr>ssh_clients := insert n (ssh_clients st)\<rparr>)"
proof -
  have "n < fresh_sock st" using assms by (intro ports_wf_less) auto
  then show ?thesis using assms(1) unfolding ports_wf_def by simp
qed

lemma ports_wf_HandleConn: "ports_wf st \<Longrightarrow> HandleConn E n st = (r, st') \<Longrightarrow> ports_wf st'"
  using HandleConn_effect ports_wf_ssh by (metis domI)

lemma no_leak_owner: "no_leak st \<Longrightarrow> n \<in> dom (sockets st) \<Longrightarrow> \<exists>k p. proxies st k = Some p \<and> owns p n"
  unfolding no_leak_def by blast

lemma no_leak_client: "no_leak st \<Longrightarrow> n \<in> ssh_clients st \<Longrightarrow> \<exists>net addr t. sockets st n = Some (net, addr, t) \<and> is_ssh t"
  unfolding no_leak_def by blast

lemma no_leak_cleanup:
  "no_leak st \<Longrightarrow> sockets st n = Some (net, addr, t) \<Longrightarrow> is_ssh t \<Longrightarrow> proxies st k = Some p \<Longrightarrow> owns p n
   \<Longrightarrow> underlying p = CloseWrapper True [n]"
  unfolding no_leak_def by blast

lemma ports_wf_step:
  assumes "ports_step E reuse st st'" "ports_wf st"
  shows "ports_wf st'"
  using assms(1)
proof cases
  case (step_expose protocol local rem err)
  then show ?thesis using Expose_effect [OF step_expose(1)] ports_wf_added [OF assms(2)] assms(2) by blast
next
  case (step_unexpose protocol local err)
  then show ?thesis by (rule ports_wf_Unexpose [OF assms(2)])
next
  case (step_conn n r)
  then show ?thesis by (rule ports_wf_HandleConn [OF assms(2)])
qed

lemma ports_wf_steps: "(ports_step E reuse)\<^sup>*\<^sup>* st st' \<Longrightarrow> ports_wf st \<Longrightarrow> ports_wf st'"
  by (induction rule: rtranclp_induct) (auto intro: ports_wf_step)

lemma no_leak_added:
  assumes wf: "ports_wf st" and nl: "no_leak st" and a: "added st st' protocol local rem network addr t c"
    and k: "key protocol local \<notin> dom (proxies st)"
  shows "no_leak st'"
proof -
  let ?f = "fresh_sock st"
  let ?p = "\<lparr>proxy_Local = local, proxy_Remote = rem, proxy_Protocol = protocol, underlying = c\<rparr>"
  have c: "closer_socks c = [?f]" and ssh: "is_ssh t \<Longrightarrow> c = CloseWrapper True [?f]"
    and st': "st' = st\<lparr>proxies := (proxies st)(key protocol local \<mapsto> ?p),
      sockets := (sockets st)(?f \<mapsto> (network, addr, t)), fresh_sock := Suc ?f\<rparr>"
    using a unfolding added_def by blast+
  have new: "proxies st k = Some q \<Longrightarrow> \<not> owns q ?f" for k q using ports_wf_owns [OF wf] by blast
  have "\<exists>k p. proxies st' k = Some p \<and> owns p n" if "n \<in> dom (sockets st')" for n
  proof (cases "n = ?f")
    case True
    then have "proxies st' (key protocol local) = Some ?p \<and> owns ?p n" using c by (simp add: st' owns_def)
    then show ?thesis by blast
  next
    case False
    then have "n \<in> dom (sockets st)" using that by (simp add: st')
    then obtain k' q where q: "proxies st k' = Some q" "owns q n" using no_leak_owner [OF nl] by blast
    then have "k' \<noteq> key protocol local" using k by auto
    then have "proxies st' k' = Some q" using q(1) by (simp add: st')
    then show ?thesis using q(2) by blast
  qed
  moreover have "\<exists>net addr t. sockets st' n = Some (net, addr, t) \<and> is_ssh t" if "n \<in> ssh_clients st'" for n
  proof -
    have n: "n \<in> ssh_clients st" using that by (simp add: st')
    then have "n \<noteq> ?f" using ports_wf_less [OF wf, of n] by simp
    then show ?thesis using no_leak_client [OF nl n] by (simp add: st')
  qed
  moreover have "underlying q = CloseWrapper True [n]"
    if "sockets st' n = Some (net, ad, t')" "is_ssh t'" "proxies st' k' = Some q" "owns q n" for n net ad t' k' q
  proof (cases "k' = key protocol local")
    case True
    then have "q = ?p" using that(3) by (simp add: st')
    moreover have "n = ?f" using that(4) \<open>q = ?p\<close> c by (simp add: owns_def)
    ultimately show ?thesis using that(1,2) ssh by (simp add: st')
  next
    case False
    then have q: "proxies st k' = Some q" using that(3) by (simp add: st')
    then have "n \<noteq> ?f" using new that(4) by blast
    then have "sockets st n = Some (net, ad, t')" using that(1) by (simp add: st')
    then show ?thesis using no_leak_cleanup [OF nl] q that(2,4) by blast
  qed
  ultimately show ?thesis unfolding no_leak_def by blast
qed

lemma no_leak_Unexpose:
  assumes wf: "ports_wf st" and nl: "no_leak st" and u: "Unexpose protocol local st = (err, st')"
  shows "no_leak st'"
proof (cases "st' = st")
  case False
  then obtain p n cl where p: "proxies st (key protocol local) = Some p" "closer_socks (underlying p) = [n]"
    and cl: "cl = (case underlying p of CloseWrapper c _ \<Rightarrow> c | _ \<Rightarrow> False)"
    and st': "st' = st\<lparr>proxies := (proxies st)(key protocol local := None), sockets := (sockets st)(n := None),
             ssh_clients := (if cl then ssh_clients st - {n} else ssh_clients st)\<rparr>"
    using Unexpose_effect [OF u wf] by blast
  have own: "owns p m \<longleftrightarrow> m = n" for m using p(2) by (simp add: owns_def)
  have "\<exists>k p. proxies st' k = Some p \<and> owns p m" if "m \<in> dom (sockets st')" for m
  proof -
    have m: "m \<noteq> n" "m \<in> dom (sockets st)" using that by (auto simp: st' split: if_splits)
    then obtain k q where q: "proxies st k = Some q" "owns q m" using no_leak_owner [OF nl] by blast
    have "k \<noteq> key protocol local"
    proof
      assume "k = key protocol local"
      then have "q = p" using q(1) p(1) by simp
      then show False using q(2) own m(1) by simp
    qed
    then have "proxies st' k = Some q" using q(1) by (simp add: st')
    then show ?thesis using q(2) by blast
  qed
  moreover have "\<exists>net addr t. sockets st' m = Some (net, addr, t) \<and> is_ssh t" if "m \<in> ssh_clients st'" for m
  proof -
    have "m \<in> ssh_clients st" using that by (simp add: st' split: if_splits)
    then obtain net ad t where m: "sockets st m = Some (net, ad, t)" "is_ssh t" using no_leak_client [OF nl] by blast
    have "m \<noteq> n"
    proof
      assume mn: "m = n"
      then have cl using no_leak_cleanup [OF nl m p(1)] own cl by simp
      then show False using that mn by (simp add: st')
    qed
    then show ?thesis using m by (simp add: st')
  qed
  moreover have "underlying q = CloseWrapper True [m]"
    if "sockets st' m = Some (net, ad, t')" "is_ssh t'" "proxies st' k' = Some q" "owns q m" for m net ad t' k' q
    using that no_leak_cleanup [OF nl, of m net ad t' k' q] by (simp add: st' split: if_splits)
  ultimately show ?thesis unfolding no_leak_def by blast
qed (use nl in simp)

lemma no_leak_HandleConn:
  assumes "no_leak st" "HandleConn E n st = (r, st')"
  shows "no_leak st'"
  using HandleConn_effect [OF assms(2)]
proof
  assume "st' = st\<lparr>ssh_clients := insert n (ssh_clients st)\<rparr> \<and> (\<exists>net addr t. sockets st n = Some (net, addr, t) \<and> is_ssh t)"
  then show ?thesis using assms(1) unfolding no_leak_def by simp
qed (use assms(1) in simp)

lemma no_leak_steps: "(ports_step E False)\<^sup>*\<^sup>* st st' \<Longrightarrow> ports_wf st \<Longrightarrow> no_leak st \<Longrightarrow> no_leak st'"
proof (induction rule: rtranclp_induct)
  case (step y z)
  then have wf: "ports_wf y" using ports_wf_steps by blast
  from step(2) show ?case
  proof cases
    case (step_expose protocol local rem err)
    then show ?thesis using Expose_effect [OF step_expose(1)] no_leak_added [OF wf] step by blast
  next
    case (step_unexpose protocol local err)
    then show ?thesis using no_leak_Unexpose [OF wf] step by blast
  next
    case (step_conn n r)
    then show ?thesis using no_leak_HandleConn step by blast
  qed
qed simp

text \<open>A listener that no entry owns stays open whatever is requested.\<close>

definition orphan :: "PortsForwarder \<Rightarrow> nat \<Rightarrow> bool" where
  "orphan st n \<longleftrightarrow> n \<in> dom (sockets st) \<and> (\<nexists>k p. proxies st k = Some p \<and> owns p n)"

lemma orphan_step:
  assumes "ports_step E reuse st st'" "ports_wf st" "orphan st n"
  shows "orphan st' n"
  using assms(1)
proof cases
  case (step_expose protocol local rem err)
  have f: "n \<noteq> fresh_sock st" using ports_wf_less [OF assms(2), of n] assms(3) by (auto simp: orphan_def)
  from Expose_effect [OF step_expose(1)] consider "st' = st"
    | t addr c where "added st st' protocol local rem protocol addr t c" by blast
  then show ?thesis
  proof cases
    case (2 t addr c)
    then show ?thesis using f assms(3) unfolding orphan_def added_def by (auto simp: owns_def)
  qed (use assms(3) in simp)
next
  case (step_unexpose protocol local err)
  from Unexpose_effect [OF step_unexpose assms(2)] consider "st' = st"
    | p m cl where "proxies st (key protocol local) = Some p" "closer_socks (underlying p) = [m]"
      "st' = st\<lparr>proxies := (proxies st)(key protocol local := None), sockets := (sockets st)(m := None),
             ssh_clients := (if cl then ssh_clients st - {m} else ssh_clients st)\<rparr>" by blast
  then show ?thesis
  proof cases
    case (2 p m cl)
    have "m \<noteq> n"
    proof
      assume "m = n"
      then have "owns p n" using 2(2) by (simp add: owns_def)
      then show False using 2(1) assms(3) unfolding orphan_def by blast
    qed
    then show ?thesis using assms(3) unfolding orphan_def 2(3) by auto
  qed (use assms(3) in simp)
next
  case (step_conn m r)
  then show ?thesis using HandleConn_effect [OF step_conn] assms(3) by (auto simp: orphan_def)
qed

lemma orphan_steps:
  "(ports_step E reuse)\<^sup>*\<^sup>* st st' \<Longrightarrow> ports_wf st \<Longrightarrow> orphan st n \<Longrightarrow> orphan st' n"
  by (induction rule: rtranclp_induct) (blast intro: orphan_step ports_wf_steps)+

lemma reexpose_orphan:
  assumes wf: "ports_wf st" and p: "proxies st (key protocol local) = Some p" "owns p n"
    and a: "added st st' protocol local rem network addr t c"
  shows "orphan st' n"
proof -
  have n: "n \<in> dom (sockets st)" "n \<noteq> fresh_sock st" using ports_wf_owns [OF wf p] by auto
  have "k = key protocol local" if "proxies st k = Some q" "owns q n" for k q
    using ports_wf_uniq [OF wf that(1) p(1) that(2) p(2)] .
  then show ?thesis using n a unfolding orphan_def added_def by (auto simp: owns_def)
qed

text \<open>
  C29. \<open>Expose\<close> on every branch: an error leaves the forwarder as it was. A success, which is
  possible for the protocols \<open>unix\<close>, \<open>tcp\<close> and \<open>udp\<close> only, opens one new listener on the local
  address, whose connections are dialled to the target that the remote address describes, and
  adds one entry, which owns the listener.
\<close>

theorem Expose_spec:
  assumes "Expose E protocol local rem st = Ret (err, st')"
  shows "if err \<noteq> None then st' = st
    else protocol \<in> {UNIX, TCP, UDP} \<and> local \<notin> dom (proxies st) \<and>
      (\<exists>t addr c. expose_target protocol rem = Ret (Inr t)
        \<and> (if protocol = UDP then env_resolveUDP E local = Inr addr else addr = local)
        \<and> added st st' protocol local rem protocol addr t c)"
  by (rule Expose_cases [OF assms])

lemma Expose_Unexpose_eq:
  assumes "(ports_step E reuse)\<^sup>*\<^sup>* NewPortsForwarder st" "key protocol local \<notin> dom (proxies st)"
    and "Expose E protocol local rem st = Ret (None, st')"
  shows "Unexpose protocol local st' = (None, st\<lparr>fresh_sock := Suc (fresh_sock st)\<rparr>)"
proof -
  have wf: "ports_wf st" using ports_wf_steps [OF assms(1) ports_wf_New(1)] .
  obtain t addr c where a: "added st st' protocol local rem protocol addr t c"
    using Expose_added [OF assms(3)] by blast
  have f: "sockets st (fresh_sock st) = None" "fresh_sock st \<notin> ssh_clients st"
    using ports_wf_less [OF wf, of "fresh_sock st"] by auto
  have k: "proxies st (key protocol local) = None" using assms(2) by auto
  have "(proxies st)(key protocol local := None) = proxies st" "(sockets st)(fresh_sock st := None) = sockets st"
    using f(1) k by auto
  then show ?thesis using a f(2) unfolding added_def
    by (cases c) (auto simp: Unexpose_def tcp_proxy_Close_def close_socket_def)
qed

text \<open>
  C30. Exposing and unexposing are inverse: after exposing a protocol and local address that
  were not exposed, unexposing them succeeds and closes exactly what was opened, so that the
  forwarder is as before.
\<close>

theorem Expose_Unexpose:
  assumes "(ports_step E reuse)\<^sup>*\<^sup>* NewPortsForwarder st" "key protocol local \<notin> dom (proxies st)"
    and "Expose E protocol local rem st = Ret (None, st')"
  shows "Unexpose protocol local st' = (None, st\<lparr>fresh_sock := Suc (fresh_sock st)\<rparr>)"
  by (rule Expose_Unexpose_eq [OF assms])


text \<open>A listener that stays open whatever is requested from now on.\<close>

definition leaked :: "ports_env \<Rightarrow> PortsForwarder \<Rightarrow> nat \<Rightarrow> bool" where
  "leaked E st n \<longleftrightarrow> (\<forall>st'. (ports_step E True)\<^sup>*\<^sup>* st st' \<longrightarrow> n \<in> dom (sockets st'))"

text \<open>
  Exposing twice leaks: the test for a running proxy looks under the local address, while
  entries are stored under \<open>protocol/local\<close>. If the operating system lets the second listener
  open (it does for a socket file, which is removed first), the entry is replaced and the first
  listener can never be closed again by any request.
\<close>

lemma reexpose_leaks:
  assumes "(ports_step E True)\<^sup>*\<^sup>* NewPortsForwarder st" "key protocol local \<in> dom (proxies st)"
    and "Expose E protocol local rem st = Ret (None, st')"
  shows "\<exists>n. leaked E st' n"
proof -
  have wf: "ports_wf st" using ports_wf_steps [OF assms(1) ports_wf_New(1)] .
  obtain p where p: "proxies st (key protocol local) = Some p" using assms(2) by blast
  obtain n where n: "owns p n" using ports_wf_entry [OF wf p] by (auto simp: owns_def)
  have a: "\<exists>t addr c. added st st' protocol local rem protocol addr t c" "protocol \<in> {UNIX, TCP, UDP}"
    using Expose_added [OF assms(3)] by blast+
  then have "ports_wf st'" "orphan st' n" using ports_wf_added [OF wf] reexpose_orphan [OF wf p n] by blast+
  then have "leaked E st' n" using orphan_steps unfolding orphan_def leaked_def by blast
  then show ?thesis ..
qed

text \<open>
  The test for a running proxy is never true for the local addresses that occur: an entry is
  stored under a name that begins with its protocol.
\<close>

lemma guard_ineffective:
  assumes "ports_wf st" "CHR ''/'' \<notin> set local \<or> hd local = CHR ''/''"
  shows "local \<notin> dom (proxies st)"
proof
  assume "local \<in> dom (proxies st)"
  then obtain p where "proxies st local = Some p" by blast
  then have "local = key (proxy_Protocol p) (proxy_Local p)" "proxy_Protocol p \<in> {UNIX, TCP, UDP}"
    using ports_wf_entry [OF assms(1)] by blast+
  then show False using assms(2) by (auto simp: key_def TransportProtocol_defs)
qed

subsection \<open>The listing\<close>

lemma ports_keys_distinct:
  assumes "ports_wf st" "enumerates es (proxies st)"
  shows "distinct (map (\<lambda>p. (proxy_Local p, proxy_Protocol p)) (map snd es))"
proof -
  have k: "k = key (proxy_Protocol p) (proxy_Local p)" if "(k, p) \<in> set es" for k p
    using that ports_wf_entry [OF assms(1)] enumerates_in_set [OF assms(2)] by blast
  have "inj_on (\<lambda>x. (proxy_Local (snd x), proxy_Protocol (snd x))) (set es)"
  proof (rule inj_onI, clarsimp)
    fix k p k' p'
    assume e: "(k, p) \<in> set es" "(k', p') \<in> set es" "proxy_Local p = proxy_Local p'" "proxy_Protocol p = proxy_Protocol p'"
    then have "k = k'" using k by metis
    then show "k = k' \<and> p = p'" using e enumerates_in_set [OF assms(2)] by (metis option.inject)
  qed
  then show ?thesis using enumerates_distinct [OF assms(2)] by (simp add: distinct_map comp_def)
qed

text \<open>
  C32. The listing of \<open>/all\<close> has every entry once, ordered by local address and then by protocol;
  although the table is visited in any order and the sort is not stable, the listing is unique.
\<close>

theorem ports_all_sorted:
  assumes "(ports_step E reuse)\<^sup>*\<^sup>* NewPortsForwarder st" "enumerates es (proxies st)"
  shows "set (ports_all es) = ran (proxies st)
    \<and> sorted_wrt (\<lambda>p q. (proxy_Local p, proxy_Protocol p) < (proxy_Local q, proxy_Protocol q)) (ports_all es)
    \<and> (mset ps = mset (map snd es) \<and> sorted (map (\<lambda>p. (proxy_Local p, proxy_Protocol p)) ps) \<longleftrightarrow> ps = ports_all es)"
proof -
  let ?f = "\<lambda>p. (proxy_Local p, proxy_Protocol p)"
  have d: "distinct (map ?f (map snd es))"
    using ports_keys_distinct [OF ports_wf_steps [OF assms(1) ports_wf_New(1)] assms(2)] .
  then have i: "distinct (map snd es)" "inj_on ?f (set (map snd es))" unfolding distinct_map [of ?f] by blast+
  have "set (ports_all es) = ran (proxies st)"
    using enumerates_in_set [OF assms(2)] by (force simp: ports_all_def ran_def)
  moreover have "sorted (map ?f (ports_all es))" by (simp add: ports_all_def)
  moreover have "distinct (map ?f (ports_all es))"
    using i unfolding distinct_map [of ?f] ports_all_def by (simp del: set_map)
  moreover have "ps = ports_all es" if "mset ps = mset (map snd es)" "sorted (map ?f ps)"
    using that i(2) sort_key_inj_key_eq [of "map snd es" ps ?f] by (simp add: ports_all_def)
  ultimately show ?thesis
    using strict_sorted_iff [of "map ?f (ports_all es)"] by (auto simp: sorted_wrt_map ports_all_def)
qed

subsection \<open>A sample forwarder\<close>

text \<open>An operating system that lets everything listen.\<close>

definition free_ports :: ports_env where
  "free_ports = \<lparr>env_listen = (\<lambda>_ _ _. None), env_remove = (\<lambda>_. Removed), env_resolveUDP = Inr,
     env_createSSH = (\<lambda>_ _ _. None), env_dial = (\<lambda>_. None)\<rparr>"

definition vm_http :: FullAddress where
  "vm_http = \<lparr>fa_NIC = 1, fa_Addr = [192, 168, 127, 2], fa_Port = 80\<rparr>"

lemma vm_http_parse: "tcpipAddress (Suc 0) ''192.168.127.2:80'' = Ret (Inr vm_http)"
proof -
  have "''192.168.127.2:80'' = dotted [192, 168, 127, 2] @ CHR '':'' # itoa_nat 80" by code_simp
  then show ?thesis using tcpipAddress_print [of "[192, 168, 127, 2]" 80 "Suc 0"] by (simp add: vm_http_def)
qed

lemma unix_target_sample: "unix_target ''tcp://192.168.127.2:80'' = Ret (Inr (DialTCP vm_http, ''192.168.127.2:80'', False))"
proof -
  have h: "host_plain ''192.168.127.2''" "list_all is_digit ''80''" by code_simp+
  have "scheme_ok ''tcp''" "path_plain []" by code_simp+
  then have p: "url_Parse ''tcp://192.168.127.2:80'' = Inr (empty_URL\<lparr>Scheme := ''tcp'', url_Host := ''192.168.127.2:80''\<rparr>)"
    using url_Parse_host_port [of "''tcp''" "''192.168.127.2''" "''80''" "[]"] h by (simp add: empty_URL_def)
  have "Hostname (empty_URL\<lparr>Scheme := ''tcp'', url_Host := ''192.168.127.2:80''\<rparr>) = ''192.168.127.2''"
    "url_Port (empty_URL\<lparr>Scheme := ''tcp'', url_Host := ''192.168.127.2:80''\<rparr>) = ''80''"
    using url_host_port [OF h, of "empty_URL\<lparr>Scheme := ''tcp'', url_Host := ''192.168.127.2:80''\<rparr>"] by simp_all
  then show ?thesis using vm_http_parse by (simp add: unix_target_def p empty_URL_def)
qed

text \<open>The forwarder after the socket file has been exposed \<open>Suc n\<close> times, once and twice.\<close>

definition sample_entry :: "nat \<Rightarrow> proxy" where
  "sample_entry n = \<lparr>proxy_Local = ''/tmp/x.sock'', proxy_Remote = ''tcp://192.168.127.2:80'', proxy_Protocol = ''unix'',
     underlying = CloseWrapper False [n]\<rparr>"

definition exposed_once :: PortsForwarder where
  "exposed_once = \<lparr>proxies = [''unix//tmp/x.sock'' \<mapsto> sample_entry 0],
     sockets = [0 \<mapsto> (''unix'', ''/tmp/x.sock'', DialTCP vm_http)], ssh_clients = {}, fresh_sock = 1\<rparr>"

definition exposed_twice :: PortsForwarder where
  "exposed_twice = \<lparr>proxies = [''unix//tmp/x.sock'' \<mapsto> sample_entry 1],
     sockets = [0 \<mapsto> (''unix'', ''/tmp/x.sock'', DialTCP vm_http), 1 \<mapsto> (''unix'', ''/tmp/x.sock'', DialTCP vm_http)],
     ssh_clients = {}, fresh_sock = 2\<rparr>"

lemma expose_sample:
  "''/tmp/x.sock'' \<notin> dom (proxies st) \<Longrightarrow>
   Expose free_ports UNIX ''/tmp/x.sock'' ''tcp://192.168.127.2:80'' st = Ret (None,
     st\<lparr>proxies := (proxies st)(''unix//tmp/x.sock'' \<mapsto> sample_entry (fresh_sock st)),
        sockets := (sockets st)(fresh_sock st \<mapsto> (''unix'', ''/tmp/x.sock'', DialTCP vm_http)),
        fresh_sock := Suc (fresh_sock st)\<rparr>)"
  by (simp add: Expose_def expose_unix_def unix_target_sample tcp_proxy_Start_route netListen_def free_ports_def
      net_Listen_def key_def UNIX_def sample_entry_def Let_def)

lemma sample_once: "Expose free_ports UNIX ''/tmp/x.sock'' ''tcp://192.168.127.2:80'' NewPortsForwarder = Ret (None, exposed_once)"
  by (subst expose_sample) (simp_all add: NewPortsForwarder_def exposed_once_def)

lemma sample_twice: "Expose free_ports UNIX ''/tmp/x.sock'' ''tcp://192.168.127.2:80'' exposed_once = Ret (None, exposed_twice)"
  by (subst expose_sample) (simp_all add: exposed_once_def exposed_twice_def)

lemma sample_reach: "(ports_step free_ports reuse)\<^sup>*\<^sup>* NewPortsForwarder exposed_once"
  by (rule r_into_rtranclp, rule step_expose [OF sample_once]) (simp add: NewPortsForwarder_def)

theorem Expose_spec_witness:
  "\<exists>t addr c. expose_target UNIX ''tcp://192.168.127.2:80'' = Ret (Inr t) \<and> addr = ''/tmp/x.sock''
     \<and> added NewPortsForwarder exposed_once UNIX ''/tmp/x.sock'' ''tcp://192.168.127.2:80'' UNIX addr t c"
  using Expose_spec [OF sample_once] by (simp add: TransportProtocol_defs)

theorem Expose_Unexpose_witness:
  "Unexpose UNIX ''/tmp/x.sock'' exposed_once = (None, NewPortsForwarder\<lparr>fresh_sock := 1\<rparr>)"
  using Expose_Unexpose [OF rtranclp.rtrancl_refl _ sample_once] by (simp add: NewPortsForwarder_def)


theorem ports_all_sorted_witness: "set (ports_all [(''unix//tmp/x.sock'', sample_entry 0)]) = {sample_entry 0}"
  using ports_all_sorted [OF sample_reach, of "[(''unix//tmp/x.sock'', sample_entry 0)]"]
  by (simp add: exposed_once_def enumerates_def)

end
