(* ===== verification/VirtualNetwork.thy ===== *)
theory VirtualNetwork
  imports Link Dhcp Dns Ports Vpnkit
begin

text \<open>
  The virtual network, \<open>pkg/virtualnetwork\<close>: how a configuration becomes a switch, a gateway
  endpoint, a network stack and its services (\<open>virtualnetwork.go\<close>, \<open>services.go\<close>), the addresses
  that clients of the package may dial (\<open>conn.go\<close>), the HTTP interface (\<open>mux.go\<close>), the
  statistics (\<open>stats.go\<close>) and the ways to accept a connection.

  The gVisor stack is known by the calls that configure it: a \<open>netstack\<close> records their effect,
  and a \<open>stack_env\<close> decides which of them fail. The three maps of the configuration are visited
  in the orders given by an \<open>orders\<close> record.
\<close>

subsection \<open>The network stack\<close>

record netstack =
  ns_nics :: "nat \<rightharpoonup> LinkEndpoint"
  ns_addresses :: "(nat \<times> Address) list"
  ns_spoofing :: "nat \<Rightarrow> bool"
  ns_promiscuous :: "nat \<Rightarrow> bool"
  ns_routes :: "(subnet \<times> nat) list"
  ns_tcp :: "(Address \<rightharpoonup> Address) option"
  ns_udp :: "(Address \<rightharpoonup> Address) option"
  ns_bound :: "(string \<times> FullAddress) list"

record stack_env =
  env_createNIC :: "gerror option"
  env_addAddress :: "gerror option"
  env_newEndpoint :: "gerror option"
  env_bind :: "string \<Rightarrow> FullAddress \<Rightarrow> gerror option"
  env_createFile :: "string \<Rightarrow> gerror option"
  env_sniffer :: "gerror option"
  env_ports :: ports_env

record orders =
  ord_leases :: "(string \<times> string) list"
  ord_NAT :: "(string \<times> string) list"
  ord_forwards :: "(string \<times> string) list"

definition orders_ok :: "orders \<Rightarrow> Configuration \<Rightarrow> bool" where
  "orders_ok R cfg \<longleftrightarrow> enumerates (ord_leases R) (cfg_DHCPStaticLeases cfg) \<and> enumerates (ord_NAT R) (cfg_NAT cfg)
     \<and> enumerates (ord_forwards R) (cfg_Forwards cfg)"

definition empty_stack :: netstack where
  "empty_stack = \<lparr>ns_nics = Map.empty, ns_addresses = [], ns_spoofing = (\<lambda>_. False), ns_promiscuous = (\<lambda>_. False),
     ns_routes = [], ns_tcp = None, ns_udp = None, ns_bound = []\<rparr>"

definition createStack :: "stack_env \<Rightarrow> Configuration \<Rightarrow> LinkEndpoint \<Rightarrow> netstack result exec" where
  "createStack E cfg endpoint =
     (case env_createNIC E of
        Some err \<Rightarrow> Ret (Inl err)
      | None \<Rightarrow>
          bind_exec (AddrFrom4Slice (To4 (ParseIP (cfg_GatewayIP cfg)))) (\<lambda>gw.
            case env_addAddress E of
              Some err \<Rightarrow> Ret (Inl err)
            | None \<Rightarrow>
                (case ParseCIDR (cfg_Subnet cfg) of
                   Inl err \<Rightarrow> Ret (Inl (Wrap err ''cannot parse cidr''))
                 | Inr (_, parsedSubnet) \<Rightarrow>
                     (case NewSubnet (AddrFromSlice (net_IP parsedSubnet)) (net_Mask parsedSubnet) of
                        Inl err \<Rightarrow> Ret (Inl (Wrap err ''cannot parse subnet''))
                      | Inr sn \<Rightarrow> Ret (Inr (empty_stack\<lparr>ns_nics := [1 \<mapsto> Attach endpoint True], ns_addresses := [(1, gw)],
                          ns_spoofing := (\<lambda>n. n = 1), ns_promiscuous := (\<lambda>n. n = 1), ns_routes := [(sn, 1)]\<rparr>))))))"

subsection \<open>Services\<close>

fun parseNATTable :: "(string \<times> string) list \<Rightarrow> (Address \<rightharpoonup> Address) \<Rightarrow> (Address \<rightharpoonup> Address) exec" where
  "parseNATTable [] translation = Ret translation"
| "parseNATTable ((source, destination) # es) translation =
     bind_exec (AddrFrom4Slice (To4 (ParseIP source))) (\<lambda>src.
       bind_exec (AddrFrom4Slice (To4 (ParseIP destination))) (\<lambda>dst.
         parseNATTable es (translation(src \<mapsto> dst))))"

definition ns_bind :: "stack_env \<Rightarrow> netstack \<Rightarrow> string \<Rightarrow> FullAddress \<Rightarrow> netstack result" where
  "ns_bind E s proto a =
     (case env_bind E proto a of Some err \<Rightarrow> Inl err | None \<Rightarrow> Inr (s\<lparr>ns_bound := ns_bound s @ [(proto, a)]\<rparr>))"

definition dnsServer :: "stack_env \<Rightarrow> Configuration \<Rightarrow> netstack \<Rightarrow> (Zone list \<times> netstack) result exec" where
  "dnsServer E cfg s =
     bind_exec (AddrFrom4Slice (To4 (ParseIP (cfg_GatewayIP cfg)))) (\<lambda>gw.
       case ns_bind E s ''udp'' \<lparr>fa_NIC = 1, fa_Addr = gw, fa_Port = 53\<rparr> of
         Inl err \<Rightarrow> Ret (Inl err)
       | Inr s1 \<Rightarrow>
           (case ns_bind E s1 ''tcp'' \<lparr>fa_NIC = 1, fa_Addr = gw, fa_Port = 53\<rparr> of
              Inl err \<Rightarrow> Ret (Inl err)
            | Inr s2 \<Rightarrow> Ret (Inr (dns_New (cfg_DNS cfg), s2))))"

text \<open>\<open>dial\<close> and \<open>New\<close> of the DHCP service.\<close>

definition dhcp_dial :: "stack_env \<Rightarrow> netstack \<Rightarrow> nat \<Rightarrow> netstack result" where
  "dhcp_dial E s nic =
     (case env_newEndpoint E of
        Some err \<Rightarrow> Inl err
      | None \<Rightarrow> ns_bind E s ''udp'' \<lparr>fa_NIC = nic, fa_Addr = [], fa_Port = of_nat serverPort\<rparr>)"

text \<open>\<open>NewServer\<close> of the vendored DHCP server fails only when it has to open a connection itself.\<close>

definition dhcp_server_New :: "stack_env \<Rightarrow> netstack \<Rightarrow> netstack result" where
  "dhcp_server_New E s = (case dhcp_dial E s 1 of Inl err \<Rightarrow> Inl err | Inr s' \<Rightarrow> Inr s')"

definition dhcpServer :: "stack_env \<Rightarrow> netstack \<Rightarrow> netstack result" where
  "dhcpServer E s = (case dhcp_server_New E s of Inl err \<Rightarrow> Inl err | Inr s' \<Rightarrow> Inr s')"

fun forwardHostVM :: "ports_env \<Rightarrow> (string \<times> string) list \<Rightarrow> PortsForwarder \<Rightarrow> (gerror option \<times> PortsForwarder) exec" where
  "forwardHostVM E [] fw = Ret (None, fw)"
| "forwardHostVM E ((local, rem) # es) fw =
     bind_exec (if HasPrefix local ''udp:'' then Expose E UDP (TrimPrefix local ''udp:'') rem fw
                else Expose E TCP local rem fw) (\<lambda>(err, fw').
       case err of Some e \<Rightarrow> Ret (Some e, fw') | None \<Rightarrow> forwardHostVM E es fw')"

record services =
  sv_zones :: "Zone list"
  sv_ports :: PortsForwarder

definition addServices ::
  "stack_env \<Rightarrow> orders \<Rightarrow> Configuration \<Rightarrow> netstack \<Rightarrow> (services \<times> netstack) result exec" where
  "addServices E R cfg s =
     bind_exec (parseNATTable (ord_NAT R) Map.empty) (\<lambda>translation.
       bind_exec (dnsServer E cfg (s\<lparr>ns_tcp := Some translation, ns_udp := Some translation\<rparr>)) (\<lambda>r.
         case r of
           Inl err \<Rightarrow> Ret (Inl err)
         | Inr (zones, s1) \<Rightarrow>
             (case dhcpServer E s1 of
                Inl err \<Rightarrow> Ret (Inl err)
              | Inr s2 \<Rightarrow>
                  bind_exec (forwardHostVM (env_ports E) (ord_forwards R) NewPortsForwarder) (\<lambda>(err, fw).
                    Ret (case err of
                        Some e \<Rightarrow> Inl e
                      | None \<Rightarrow> Inr (\<lparr>sv_zones = zones, sv_ports = fw\<rparr>, s2))))))"

subsection \<open>The virtual network\<close>

record VirtualNetwork =
  vn_configuration :: Configuration
  vn_stack :: netstack
  vn_networkSwitch :: switch
  vn_services :: services
  vn_ipPool :: IPPool

fun reserve_all :: "IPPool \<Rightarrow> (string \<times> string) list \<Rightarrow> IPPool" where
  "reserve_all p [] = p"
| "reserve_all p ((i, mac) # es) = reserve_all (Reserve p (ParseIP i) mac) es"

definition capture :: "stack_env \<Rightarrow> Configuration \<Rightarrow> gerror option" where
  "capture E cfg =
     (if cfg_CaptureFile cfg \<noteq> [] then
        (case env_createFile E (cfg_CaptureFile cfg) of
           Some err \<Rightarrow> Some (Wrap err ''cannot create capture file'')
         | None \<Rightarrow> (case env_sniffer E of Some err \<Rightarrow> Some (Wrap err ''cannot create sniffer'') | None \<Rightarrow> None))
      else None)"

definition vn_New :: "stack_env \<Rightarrow> orders \<Rightarrow> Configuration \<Rightarrow> VirtualNetwork result exec" where
  "vn_New E R cfg =
     (case ParseCIDR (cfg_Subnet cfg) of
        Inl err \<Rightarrow> Ret (Inl (Wrap err ''cannot parse subnet cidr''))
      | Inr (_, subnet) \<Rightarrow>
          (let ipPool = reserve_all (Reserve (NewIPPool subnet) (ParseIP (cfg_GatewayIP cfg)) (cfg_GatewayMacAddress cfg))
                          (ord_leases R)
           in case NewLinkEndpoint (cfg_Debug cfg) (cfg_MTU cfg) (cfg_GatewayMacAddress cfg) (cfg_GatewayIP cfg) (cfg_GatewayVirtualIPs cfg) of
                Inl err \<Rightarrow> Ret (Inl (Wrap err ''cannot create tap endpoint''))
              | Inr tapEndpoint \<Rightarrow>
                  (let networkSwitch = Connect (NewSwitch (cfg_Debug cfg) (cfg_MTU cfg)) (link_LinkAddress tapEndpoint)
                   in case capture E cfg of
                        Some err \<Rightarrow> Ret (Inl err)
                      | None \<Rightarrow>
                          bind_exec (createStack E cfg (link_Connect tapEndpoint)) (\<lambda>r. case r of
                              Inl err \<Rightarrow> Ret (Inl (Wrap err ''cannot create network stack''))
                            | Inr s \<Rightarrow>
                                bind_exec (addServices E R cfg s) (\<lambda>r. Ret (case r of
                                    Inl err \<Rightarrow> Inl (Wrap err ''cannot add network services'')
                                  | Inr (sv, s') \<Rightarrow> Inr \<lparr>vn_configuration = cfg, vn_stack = s', vn_networkSwitch = networkSwitch,
                                      vn_services = sv, vn_ipPool = ipPool\<rparr>))))))"

definition BytesSent :: "VirtualNetwork \<Rightarrow> 64 word" where
  "BytesSent n = Sent (vn_networkSwitch n)"

definition BytesReceived :: "VirtualNetwork \<Rightarrow> 64 word" where
  "BytesReceived n = Received (vn_networkSwitch n)"

subsection \<open>Dialling and listening in the network\<close>

definition splitIPPort :: "string \<Rightarrow> string \<Rightarrow> (ip \<times> nat) result" where
  "splitIPPort network addr =
     (if network \<noteq> ''tcp'' then Inl ''only tcp is supported''
      else (case SplitHostPort addr of
          Inl err \<Rightarrow> Inl err
        | Inr (host, portString) \<Rightarrow>
            (case ParseUint portString 16 of
               Inl err \<Rightarrow> Inl err
             | Inr port \<Rightarrow>
                 (let i = ParseIP host
                  in if i = [] then Inl ''invalid address, must be an IP'' else Inr (i, port)))))"

text \<open>The address handed to the stack by \<open>Dial\<close>, \<open>DialContextTCP\<close> and \<open>Listen\<close>.\<close>

definition vn_address :: "string \<Rightarrow> string \<Rightarrow> FullAddress result exec" where
  "vn_address network addr =
     (case splitIPPort network addr of
        Inl err \<Rightarrow> Ret (Inl err)
      | Inr (i, port) \<Rightarrow>
          bind_exec (AddrFrom4Slice (To4 i)) (\<lambda>a. Ret (Inr \<lparr>fa_NIC = 1, fa_Addr = a, fa_Port = of_nat port\<rparr>)))"

definition vn_Dial :: "(FullAddress \<Rightarrow> 'c result) \<Rightarrow> string \<Rightarrow> string \<Rightarrow> 'c result exec" where
  "vn_Dial dialTCP network addr =
     bind_exec (vn_address network addr) (\<lambda>r. Ret (case r of Inl err \<Rightarrow> Inl err | Inr a \<Rightarrow> dialTCP a))"

definition vn_DialContextTCP :: "(FullAddress \<Rightarrow> 'c result) \<Rightarrow> string \<Rightarrow> 'c result exec" where
  "vn_DialContextTCP dialTCP addr =
     bind_exec (vn_address ''tcp'' addr) (\<lambda>r. Ret (case r of Inl err \<Rightarrow> Inl err | Inr a \<Rightarrow> dialTCP a))"

definition vn_Listen :: "(FullAddress \<Rightarrow> 'l result) \<Rightarrow> string \<Rightarrow> string \<Rightarrow> 'l result exec" where
  "vn_Listen listenTCP network addr =
     bind_exec (vn_address network addr) (\<lambda>r. Ret (case r of Inl err \<Rightarrow> Inl err | Inr a \<Rightarrow> listenTCP a))"

subsection \<open>Accepting connections\<close>

definition AcceptBess :: "net_env \<Rightarrow> (nat \<Rightarrow> bool) \<Rightarrow> gerror \<Rightarrow> switch \<Rightarrow> nat \<Rightarrow> bytes list \<Rightarrow> (switch \<times> gerror option) exec" where
  "AcceptBess E dn e s conn input = Accept E dn e s conn BessProtocol input"

definition AcceptQemu :: "net_env \<Rightarrow> (nat \<Rightarrow> bool) \<Rightarrow> gerror \<Rightarrow> switch \<Rightarrow> nat \<Rightarrow> bytes list \<Rightarrow> (switch \<times> gerror option) exec" where
  "AcceptQemu E dn e s conn input = Accept E dn e s conn QemuProtocol input"

definition AcceptStdio :: "net_env \<Rightarrow> (nat \<Rightarrow> bool) \<Rightarrow> gerror \<Rightarrow> switch \<Rightarrow> nat \<Rightarrow> bytes list \<Rightarrow> (switch \<times> gerror option) exec" where
  "AcceptStdio E dn e s conn input = Accept E dn e s conn StdioProtocol input"

definition AcceptVfkit :: "net_env \<Rightarrow> (nat \<Rightarrow> bool) \<Rightarrow> gerror \<Rightarrow> switch \<Rightarrow> nat \<Rightarrow> bytes list \<Rightarrow> (switch \<times> gerror option) exec" where
  "AcceptVfkit E dn e s conn input = Accept E dn e s conn VfkitProtocol input"

subsection \<open>Statistics\<close>

text \<open>A struct of counters, as reflection sees it, and the JSON object made of it.\<close>

datatype stat_field = Counter nat | Struct "(string \<times> stat_field) list" | OtherField

datatype json_stat = JNumber nat | JObject "(string \<times> json_stat) list"

fun json_put :: "(string \<times> json_stat) list \<Rightarrow> string \<Rightarrow> json_stat \<Rightarrow> (string \<times> json_stat) list" where
  "json_put [] k v = [(k, v)]"
| "json_put ((k', v') # m) k v = (if k' = k then (k, v) # m else (k', v') # json_put m k v)"

fun iterateFields :: "(string \<times> json_stat) list \<Rightarrow> (string \<times> stat_field) list \<Rightarrow> (string \<times> json_stat) list" where
  "iterateFields ret [] = ret"
| "iterateFields ret ((fieldName, Struct inner) # fs) =
     iterateFields (json_put ret fieldName (JObject (iterateFields [] inner))) fs"
| "iterateFields ret ((fieldName, Counter n) # fs) = iterateFields (json_put ret fieldName (JNumber n)) fs"
| "iterateFields ret ((fieldName, OtherField) # fs) = iterateFields ret fs"

definition statsAsJSON :: "64 word \<Rightarrow> 64 word \<Rightarrow> (string \<times> stat_field) list \<Rightarrow> (string \<times> json_stat) list" where
  "statsAsJSON sent received stats =
     json_put (json_put (iterateFields [] stats) ''BytesSent'' (JNumber (unat sent))) ''BytesReceived'' (JNumber (unat received))"

subsection \<open>The HTTP interface\<close>

datatype endpoint =
    EpStats | EpCAM | EpLeases | EpConnect | EpTunnel
  | EpPortsAll | EpExpose | EpUnexpose | EpDhcpLeases | EpDnsAll | EpDnsAdd

definition forwarder_patterns :: "(string \<times> endpoint) list" where
  "forwarder_patterns = [(''/all'', EpPortsAll), (''/expose'', EpExpose), (''/unexpose'', EpUnexpose)]"

definition dhcp_patterns :: "(string \<times> endpoint) list" where
  "dhcp_patterns = [(''/leases'', EpDhcpLeases)]"

definition dns_patterns :: "(string \<times> endpoint) list" where
  "dns_patterns = [(''/all'', EpDnsAll), (''/add'', EpDnsAdd)]"

text \<open>A handler is a pattern's endpoint, or a multiplexer behind a prefix that is stripped.\<close>

datatype sub_handler = Endpoint endpoint | SubMux string "(string \<times> endpoint) list"

definition services_patterns :: "(string \<times> sub_handler) list" where
  "services_patterns =
     [(''/forwarder/'', SubMux ''/forwarder'' forwarder_patterns),
      (''/dhcp/'', SubMux ''/dhcp'' dhcp_patterns),
      (''/dns/'', SubMux ''/dns'' dns_patterns)]"

definition services_route :: "string \<Rightarrow> endpoint option" where
  "services_route path =
     (case mux_match services_patterns path of
        Some (SubMux prefix ps) \<Rightarrow> Option.bind (StripPrefix prefix path) (mux_match ps)
      | Some (Endpoint h) \<Rightarrow> Some h
      | None \<Rightarrow> None)"

datatype vn_handler = VnEndpoint endpoint | VnServices

definition vn_patterns :: "(string \<times> vn_handler) list" where
  "vn_patterns =
     [(''/services/'', VnServices), (''/stats'', VnEndpoint EpStats), (''/cam'', VnEndpoint EpCAM),
      (''/leases'', VnEndpoint EpLeases), (ConnectPath, VnEndpoint EpConnect), (''/tunnel'', VnEndpoint EpTunnel)]"

text \<open>The endpoint of a path in canonical form; \<open>None\<close> is answered with status 404.\<close>

definition vn_route :: "string \<Rightarrow> endpoint option" where
  "vn_route path =
     (case mux_match vn_patterns path of
        Some VnServices \<Rightarrow> Option.bind (StripPrefix ''/services'' path) services_route
      | Some (VnEndpoint h) \<Rightarrow> Some h
      | None \<Rightarrow> None)"

text \<open>
  A request. The three last components are what \<open>Decode\<close> returns for the body, for each type
  that a handler decodes; \<open>rq_query\<close> is the parsed query; \<open>rq_hijack\<close> is what taking over the
  connection, flushing it and writing to it return.
\<close>

record request =
  rq_method :: http_method
  rq_path :: string
  rq_query :: "(string \<times> string) list"
  rq_remote :: string
  rq_hijack :: "gerror option"
  rq_expose :: "ExposeRequest result"
  rq_unexpose :: "UnexposeRequest result"
  rq_zone :: "Zone result"

text \<open>Replies: a status, a value encoded as JSON, or a connection that was taken over.\<close>

datatype reply =
    Plain http_response
  | Proxies "proxy list"
  | Zones "Zone list"
  | LeaseTable "string \<rightharpoonup> string"
  | CamTable "string \<rightharpoonup> int"
  | Stats "(string \<times> json_stat) list"
  | Switched
  | Tunnelled FullAddress

definition tunnel :: "request \<Rightarrow> reply exec" where
  "tunnel r =
     (let i = query_Get (rq_query r) ''ip''
      in if i = [] then Ret (Plain (http_Error ''ip is mandatory'' StatusInternalServerError))
         else (case Atoi (query_Get (rq_query r) ''port'') of
             Inl err \<Rightarrow> Ret (Plain (http_Error err StatusInternalServerError))
           | Inr port \<Rightarrow>
               (case rq_hijack r of
                  Some err \<Rightarrow> Ret (Plain (http_Error err StatusInternalServerError))
                | None \<Rightarrow>
                    bind_exec (AddrFrom4Slice (To4 (ParseIP i))) (\<lambda>a.
                      Ret (Tunnelled \<lparr>fa_NIC = 1, fa_Addr = a, fa_Port = word_of_int port\<rparr>)))))"

text \<open>
  One request. \<open>pes\<close> and \<open>ces\<close> are the orders in which the tables of proxies and addresses are
  visited; \<open>stats\<close> are the counters of the stack.
\<close>

definition vn_serve ::
  "ports_env \<Rightarrow> (string \<times> proxy) list \<Rightarrow> (LinkAddress \<times> int) list \<Rightarrow> (string \<times> stat_field) list
   \<Rightarrow> VirtualNetwork \<Rightarrow> request \<Rightarrow> (reply \<times> VirtualNetwork) exec" where
  "vn_serve E pes ces stats n r =
     (case vn_route (rq_path r) of
        None \<Rightarrow> Ret (Plain (http_Error ''404 page not found'' StatusNotFound), n)
      | Some EpStats \<Rightarrow> Ret (Stats (statsAsJSON (BytesSent n) (BytesReceived n) stats), n)
      | Some EpCAM \<Rightarrow> Ret (CamTable (CAM ces), n)
      | Some EpLeases \<Rightarrow> Ret (LeaseTable (Leases (vn_ipPool n)), n)
      | Some EpConnect \<Rightarrow>
          Ret (case rq_hijack r of
              Some err \<Rightarrow> Plain (http_Error err StatusInternalServerError)
            | None \<Rightarrow> Switched, n)
      | Some EpTunnel \<Rightarrow> bind_exec (tunnel r) (\<lambda>rep. Ret (rep, n))
      | Some EpPortsAll \<Rightarrow> Ret (Proxies (ports_all pes), n)
      | Some EpExpose \<Rightarrow>
          bind_exec (ports_expose E (rq_method r) (rq_expose r) (rq_remote r) (sv_ports (vn_services n))) (\<lambda>(resp, fw).
            Ret (Plain resp, n\<lparr>vn_services := (vn_services n)\<lparr>sv_ports := fw\<rparr>\<rparr>))
      | Some EpUnexpose \<Rightarrow>
          (case ports_unexpose (rq_method r) (rq_unexpose r) (sv_ports (vn_services n)) of
             (resp, fw) \<Rightarrow> Ret (Plain resp, n\<lparr>vn_services := (vn_services n)\<lparr>sv_ports := fw\<rparr>\<rparr>))
      | Some EpDhcpLeases \<Rightarrow> Ret (LeaseTable (dhcp_Mux_leases (vn_ipPool n)), n)
      | Some EpDnsAll \<Rightarrow> Ret (Zones (dns_Mux_all (sv_zones (vn_services n))), n)
      | Some EpDnsAdd \<Rightarrow>
          (case dns_Mux_add (rq_method r) (rq_zone r) (sv_zones (vn_services n)) of
             (resp, zones) \<Rightarrow> Ret (Plain resp, n\<lparr>vn_services := (vn_services n)\<lparr>sv_zones := zones\<rparr>\<rparr>)))"

subsection \<open>Paths\<close>

definition vn_paths :: "(string \<times> endpoint) list" where
  "vn_paths =
     [(''/stats'', EpStats), (''/cam'', EpCAM), (''/leases'', EpLeases), (''/connect'', EpConnect), (''/tunnel'', EpTunnel),
      (''/services/forwarder/all'', EpPortsAll), (''/services/forwarder/expose'', EpExpose),
      (''/services/forwarder/unexpose'', EpUnexpose), (''/services/dhcp/leases'', EpDhcpLeases),
      (''/services/dns/all'', EpDnsAll), (''/services/dns/add'', EpDnsAdd)]"

lemma mux_match_exact_only:
  "list_all (\<lambda>(pat, _). \<not> HasSuffix pat ''/'') ps \<Longrightarrow> mux_match ps path = map_of ps path"
proof -
  assume "list_all (\<lambda>(pat, _). \<not> HasSuffix pat ''/'') ps"
  then have "longest_prefix ps path = None"
    by (induction ps path rule: longest_prefix.induct) (auto simp: Let_def)
  then show ?thesis by (simp add: mux_match_def split: option.split)
qed

lemma leaf_mux:
  "mux_match forwarder_patterns p = map_of [(''/all'', EpPortsAll), (''/expose'', EpExpose), (''/unexpose'', EpUnexpose)] p"
  "mux_match dhcp_patterns p = map_of [(''/leases'', EpDhcpLeases)] p"
  "mux_match dns_patterns p = map_of [(''/all'', EpDnsAll), (''/add'', EpDnsAdd)] p"
  unfolding forwarder_patterns_def dhcp_patterns_def dns_patterns_def
  by (rule mux_match_exact_only; simp add: HasSuffix_def)+

lemma services_mux:
  "mux_match services_patterns (CHR ''/'' # q) =
     (if HasPrefix q ''forwarder/'' then Some (SubMux ''/forwarder'' forwarder_patterns)
      else if HasPrefix q ''dhcp/'' then Some (SubMux ''/dhcp'' dhcp_patterns)
      else if HasPrefix q ''dns/'' then Some (SubMux ''/dns'' dns_patterns) else None)"
  by (auto simp: mux_match_def services_patterns_def HasSuffix_def HasPrefix_iff Let_def)

lemma vn_mux:
  "mux_match vn_patterns p =
     (if HasPrefix p ''/services/'' then Some VnServices
      else map_of [(''/stats'', VnEndpoint EpStats), (''/cam'', VnEndpoint EpCAM), (''/leases'', VnEndpoint EpLeases),
        (''/connect'', VnEndpoint EpConnect), (''/tunnel'', VnEndpoint EpTunnel)] p)"
  by (auto simp: mux_match_def vn_patterns_def ConnectPath_def HasSuffix_def HasPrefix_iff Let_def)

lemma StripPrefix_append [simp]: "StripPrefix a (a @ b) = Some b"
  by (auto simp: StripPrefix_def HasPrefix_iff)

lemma service_prefixes:
  "HasPrefix ''forwarder/all'' ''forwarder/''" "HasPrefix ''forwarder/expose'' ''forwarder/''"
  "HasPrefix ''forwarder/unexpose'' ''forwarder/''" "HasPrefix ''dhcp/leases'' ''dhcp/''"
  "HasPrefix ''dns/all'' ''dns/''" "HasPrefix ''dns/add'' ''dns/''"
  "HasPrefix (''/services/'' @ q) ''/services/''"
  by (simp_all add: HasPrefix_def)

lemma services_route_eq:
  "services_route (CHR ''/'' # q) = map_of
     [(''forwarder/all'', EpPortsAll), (''forwarder/expose'', EpExpose), (''forwarder/unexpose'', EpUnexpose),
      (''dhcp/leases'', EpDhcpLeases), (''dns/all'', EpDnsAll), (''dns/add'', EpDnsAdd)] q"
proof -
  consider r where "q = ''forwarder/'' @ r" | r where "q = ''dhcp/'' @ r" | r where "q = ''dns/'' @ r"
    | "\<not> HasPrefix q ''forwarder/''" "\<not> HasPrefix q ''dhcp/''" "\<not> HasPrefix q ''dns/''"
    unfolding HasPrefix_iff by blast
  then show ?thesis
  proof cases
    case (1 r)
    then show ?thesis using StripPrefix_append [of "''/forwarder''" "CHR ''/'' # r"]
      by (simp add: services_route_def services_mux HasPrefix_iff leaf_mux)
  next
    case (2 r)
    then show ?thesis using StripPrefix_append [of "''/dhcp''" "CHR ''/'' # r"]
      by (simp add: services_route_def services_mux HasPrefix_iff leaf_mux)
  next
    case (3 r)
    then show ?thesis using StripPrefix_append [of "''/dns''" "CHR ''/'' # r"]
      by (simp add: services_route_def services_mux HasPrefix_iff leaf_mux)
  next
    case 4
    then have "q \<notin> {''forwarder/all'', ''forwarder/expose'', ''forwarder/unexpose'', ''dhcp/leases'', ''dns/all'', ''dns/add''}"
      using service_prefixes by blast
    then show ?thesis using 4 by (simp add: services_route_def services_mux)
  qed
qed

text \<open>The paths that are served are exactly the eleven of the table, each by its endpoint.\<close>

lemma vn_route_spec: "vn_route p = map_of vn_paths p"
proof (cases "HasPrefix p ''/services/''")
  case True
  then obtain q where q: "p = ''/services/'' @ q" by (auto simp: HasPrefix_iff)
  then have "vn_route p = services_route (CHR ''/'' # q)"
    using StripPrefix_append [of "''/services''" "CHR ''/'' # q"] by (simp add: vn_route_def vn_mux HasPrefix_iff)
  then show ?thesis by (simp add: services_route_eq vn_paths_def q)
next
  case False
  then have "p \<noteq> ''/services/'' @ q" for q using service_prefixes(7) [of q] by blast
  from this [of "''forwarder/all''"] this [of "''forwarder/expose''"] this [of "''forwarder/unexpose''"]
    this [of "''dhcp/leases''"] this [of "''dns/all''"] this [of "''dns/add''"]
  show ?thesis using False by (simp add: vn_route_def vn_mux vn_paths_def)
qed

subsection \<open>Well-formed configurations\<close>

definition ipv4_key :: "string \<Rightarrow> bool" where
  "ipv4_key k \<longleftrightarrow> (\<exists>a. length a = 4 \<and> k = dotted a)"

text \<open>
  The network \<open>b/n\<close>, the address \<open>g\<close> and the hardware address \<open>mac\<close> of the gateway; addresses in
  the maps are written in dotted form.
\<close>

definition config_ok :: "Configuration \<Rightarrow> bytes \<Rightarrow> nat \<Rightarrow> bytes \<Rightarrow> bytes \<Rightarrow> bool" where
  "config_ok cfg b n g mac \<longleftrightarrow>
     length b = 4 \<and> n \<le> 32 \<and> cfg_Subnet cfg = dotted b @ CHR ''/'' # itoa_nat n
     \<and> length g = 4 \<and> cfg_GatewayIP cfg = dotted g \<and> ParseMAC (cfg_GatewayMacAddress cfg) = Inr mac
     \<and> (\<forall>k \<in> dom (cfg_DHCPStaticLeases cfg). ipv4_key k)
     \<and> (\<forall>k \<in> dom (cfg_NAT cfg) \<union> ran (cfg_NAT cfg). ipv4_key k)"

definition env_quiet :: "stack_env \<Rightarrow> bool" where
  "env_quiet E \<longleftrightarrow> env_createNIC E = None \<and> env_addAddress E = None \<and> env_newEndpoint E = None
     \<and> env_sniffer E = None \<and> (\<forall>pr a. env_bind E pr a = None) \<and> (\<forall>f. env_createFile E f = None)"

lemma reserve_all_eq:
  assumes "distinct (map fst es)" "\<forall>k \<in> fst ` set es. ipv4_key k"
  shows "reserve_all p es = p\<lparr>leases := leases p ++ map_of es\<rparr>"
  using assms
proof (induction p es rule: reserve_all.induct)
  case (2 p i mac es)
  then obtain a where a: "length a = 4" "i = dotted a" by (auto simp: ipv4_key_def)
  have i: "i \<notin> dom (map_of es)" using 2(2) by (auto simp: dom_map_of_conv_image_fst)
  have l: "leases p ++ map_of ((i, mac) # es) = (leases p)(i \<mapsto> mac) ++ map_of es"
    unfolding map_of.simps fst_conv snd_conv map_add_upd map_add_upd_left [OF i] ..
  have "reserve_all (Reserve p (ParseIP i) mac) es =
      (Reserve p (ParseIP i) mac)\<lparr>leases := leases (Reserve p (ParseIP i) mac) ++ map_of es\<rparr>"
    using 2 by simp
  moreover have "Reserve p (ParseIP i) mac = p\<lparr>leases := (leases p)(i \<mapsto> mac)\<rparr>" using a by (simp add: Reserve_def)
  ultimately show ?case unfolding reserve_all.simps l by simp
qed simp

text \<open>The translation that a map between dotted addresses stands for.\<close>

definition nat_map :: "(string \<rightharpoonup> string) \<Rightarrow> (Address \<rightharpoonup> Address)" where
  "nat_map m a = (if length a = 4 then map_option (\<lambda>d. To4 (ParseIP d)) (m (dotted a)) else None)"

lemma parseNATTable_eq:
  assumes "distinct (map fst es)" "\<forall>(k, v) \<in> set es. ipv4_key k \<and> ipv4_key v"
  shows "parseNATTable es t = Ret (t ++ nat_map (map_of es))"
  using assms
proof (induction es arbitrary: t)
  case Nil
  have "nat_map (map_of []) = Map.empty" by (rule ext) (simp add: nat_map_def)
  then show ?case by simp
next
  case (Cons e es)
  then obtain a d where e: "e = (dotted a, dotted d)" "length a = 4" "length d = 4"
    by (cases e) (auto simp: ipv4_key_def)
  have "map_of es (dotted a) = None" using Cons.prems(1) e by (auto simp: map_of_eq_None_iff)
  then have "(t(a \<mapsto> d) ++ nat_map (map_of es)) x = (t ++ nat_map (map_of (e # es))) x" for x
    using e dotted_inj [of x a] by (auto simp: map_add_def nat_map_def split: option.split)
  then have "t(a \<mapsto> d) ++ nat_map (map_of es) = t ++ nat_map (map_of (e # es))" ..
  moreover have "parseNATTable es (t(a \<mapsto> d)) = Ret (t(a \<mapsto> d) ++ nat_map (map_of es))"
    using Cons by (intro Cons.IH) simp_all
  moreover have "parseNATTable (e # es) t = parseNATTable es (t(a \<mapsto> d))"
    unfolding e(1) parseNATTable.simps using e(2,3) by (simp add: AddrFrom4Slice_def)
  ultimately show ?case by metis
qed

lemma v4net_subnet:
  assumes "length b = 4" "n \<le> 32"
  shows "NewSubnet (AddrFromSlice (net_IP (v4net b n))) (net_Mask (v4net b n))
    = Inr \<lparr>sn_address = net_IP (v4net b n), sn_mask = net_Mask (v4net b n)\<rparr>"
proof -
  have z: "and (and x y) (not y) = 0" for x y :: "8 word" by (rule bit_word_eqI) (simp add: bit_simps)
  have l: "length (net_IP (v4net b n)) = 4" "length (net_Mask (v4net b n)) = 4"
    using v4net_simps [OF assms] by simp_all
  obtain b0 b1 b2 b3 where b: "b = [b0, b1, b2, b3]" using assms(1) by (auto simp: length_Suc_conv numeral_eq_Suc)
  obtain m0 m1 m2 m3 where m: "CIDRMask n 32 = [m0, m1, m2, m3]"
    using l(2) by (auto simp: v4net_def length_Suc_conv numeral_eq_Suc)
  show ?thesis using l b m by (simp add: NewSubnet_def AddrFromSlice_def v4net_def IP_Mask_def z)
qed

text \<open>The network that a well-formed configuration describes.\<close>

definition network_spec :: "Configuration \<Rightarrow> bytes \<Rightarrow> nat \<Rightarrow> bytes \<Rightarrow> bytes \<Rightarrow> PortsForwarder \<Rightarrow> VirtualNetwork" where
  "network_spec cfg b n g mac fw =
     \<lparr>vn_configuration = cfg,
      vn_stack =
        \<lparr>ns_nics = [1 \<mapsto> \<lparr>le_debug = cfg_Debug cfg, le_mtu = cfg_MTU cfg, le_mac = mac, le_ip = dotted g,
            virtualIPs = set (cfg_GatewayVirtualIPs cfg), dispatcher = True, networkSwitch = True\<rparr>],
         ns_addresses = [(1, g)], ns_spoofing = (\<lambda>i. i = 1), ns_promiscuous = (\<lambda>i. i = 1),
         ns_routes = [(\<lparr>sn_address = net_IP (v4net b n), sn_mask = net_Mask (v4net b n)\<rparr>, 1)],
         ns_tcp = Some (nat_map (cfg_NAT cfg)), ns_udp = Some (nat_map (cfg_NAT cfg)),
         ns_bound = [(''udp'', \<lparr>fa_NIC = 1, fa_Addr = g, fa_Port = 53\<rparr>), (''tcp'', \<lparr>fa_NIC = 1, fa_Addr = g, fa_Port = 53\<rparr>),
           (''udp'', \<lparr>fa_NIC = 1, fa_Addr = [], fa_Port = 67\<rparr>)]\<rparr>,
      vn_networkSwitch = Connect (NewSwitch (cfg_Debug cfg) (cfg_MTU cfg)) mac,
      vn_services = \<lparr>sv_zones = cfg_DNS cfg, sv_ports = fw\<rparr>,
      vn_ipPool = \<lparr>pool_base = v4net b n, pool_count = AddressCount (v4net b n),
        leases = [dotted g \<mapsto> cfg_GatewayMacAddress cfg] ++ cfg_DHCPStaticLeases cfg\<rparr>\<rparr>"

lemma createStack_ok:
  assumes "config_ok cfg b n g mac" "env_quiet E"
  shows "createStack E cfg ep = Ret (Inr (empty_stack\<lparr>ns_nics := [1 \<mapsto> Attach ep True], ns_addresses := [(1, g)],
      ns_spoofing := (\<lambda>i. i = 1), ns_promiscuous := (\<lambda>i. i = 1),
      ns_routes := [(\<lparr>sn_address = net_IP (v4net b n), sn_mask = net_Mask (v4net b n)\<rparr>, 1)]\<rparr>))"
proof -
  have c: "length b = 4" "n \<le> 32" "length g = 4" "cfg_GatewayIP cfg = dotted g"
    "ParseCIDR (cfg_Subnet cfg) = Inr (v4InV6Prefix @ b, v4net b n)"
    using assms(1) ParseCIDR_print [of b n] by (auto simp: config_ok_def)
  then show ?thesis using assms(2) v4net_subnet [OF c(1,2)]
    by (simp add: createStack_def AddrFrom4Slice_def env_quiet_def)
qed

lemma addServices_ok:
  assumes "config_ok cfg b n g mac" "env_quiet E" "orders_ok R cfg"
    and "forwardHostVM (env_ports E) (ord_forwards R) NewPortsForwarder = Ret (None, fw)"
  shows "addServices E R cfg s = Ret (Inr (\<lparr>sv_zones = cfg_DNS cfg, sv_ports = fw\<rparr>,
      s\<lparr>ns_tcp := Some (nat_map (cfg_NAT cfg)), ns_udp := Some (nat_map (cfg_NAT cfg)),
        ns_bound := ns_bound s @ [(''udp'', \<lparr>fa_NIC = 1, fa_Addr = g, fa_Port = 53\<rparr>),
          (''tcp'', \<lparr>fa_NIC = 1, fa_Addr = g, fa_Port = 53\<rparr>), (''udp'', \<lparr>fa_NIC = 1, fa_Addr = [], fa_Port = 67\<rparr>)]\<rparr>))"
proof -
  have R: "enumerates (ord_NAT R) (cfg_NAT cfg)" using assms(3) by (simp add: orders_ok_def)
  have k: "ipv4_key k" if "k \<in> dom (cfg_NAT cfg) \<union> ran (cfg_NAT cfg)" for k
    using assms(1) that unfolding config_ok_def by blast
  have "\<forall>(k, v) \<in> set (ord_NAT R). ipv4_key k \<and> ipv4_key v"
  proof clarify
    fix x y assume "(x, y) \<in> set (ord_NAT R)"
    then have "cfg_NAT cfg x = Some y" using enumerates_in_set [OF R] by simp
    then show "ipv4_key x \<and> ipv4_key y" using k by (blast intro: ranI)
  qed
  then have "parseNATTable (ord_NAT R) Map.empty = Ret (nat_map (cfg_NAT cfg))"
    using parseNATTable_eq [of "ord_NAT R" Map.empty] R by (simp add: enumerates_def)
  moreover have "cfg_GatewayIP cfg = dotted g" "length g = 4" using assms(1) by (auto simp: config_ok_def)
  ultimately show ?thesis using assms(2,4)
    by (simp add: addServices_def dnsServer_def dhcpServer_def dhcp_server_New_def dhcp_dial_def ns_bind_def AddrFrom4Slice_def env_quiet_def
        dns_New_def serverPort_def)
qed

lemma vn_New_eq:
  assumes "config_ok cfg b n g mac" "env_quiet E" "orders_ok R cfg"
    and "forwardHostVM (env_ports E) (ord_forwards R) NewPortsForwarder = Ret (None, fw)"
  shows "vn_New E R cfg = Ret (Inr (network_spec cfg b n g mac fw))"
proof -
  have c: "length b = 4" "n \<le> 32" "length g = 4" "cfg_GatewayIP cfg = dotted g" "ParseMAC (cfg_GatewayMacAddress cfg) = Inr mac"
    "ParseCIDR (cfg_Subnet cfg) = Inr (v4InV6Prefix @ b, v4net b n)"
    "\<forall>k \<in> dom (cfg_DHCPStaticLeases cfg). ipv4_key k"
    using assms(1) ParseCIDR_print [of b n] by (auto simp: config_ok_def)
  have R: "enumerates (ord_leases R) (cfg_DHCPStaticLeases cfg)" using assms(3) by (simp add: orders_ok_def)
  have "reserve_all p (ord_leases R) = p\<lparr>leases := leases p ++ cfg_DHCPStaticLeases cfg\<rparr>" for p
    using reserve_all_eq [of "ord_leases R" p] c(7) enumerates_dom [OF R] R by (simp add: enumerates_def)
  moreover have "capture E cfg = None" using assms(2) by (simp add: capture_def env_quiet_def)
  ultimately show ?thesis
    using c createStack_ok [OF assms(1,2)] addServices_ok [OF assms]
    by (simp add: vn_New_def NewLinkEndpoint_def network_spec_def Reserve_def NewIPPool_def link_Connect_def
        link_LinkAddress_def Attach_def empty_stack_def)
qed

text \<open>
  C14. A well-formed configuration is brought up as described, whatever the order in which its
  maps are visited: no panic and no error; one interface with the address and the hardware
  address of the gateway, attached to the switch in both directions; one route, to the
  configured network; the same address translation for TCP and UDP; DNS bound to port 53 of the
  gateway over both protocols and DHCP to port 67; and a pool in which exactly the gateway and
  the static leases are taken.
\<close>

theorem vn_New_spec:
  assumes "config_ok cfg b n g mac" "env_quiet E" "orders_ok R cfg"
    and "forwardHostVM (env_ports E) (ord_forwards R) NewPortsForwarder = Ret (None, fw)"
  shows "vn_New E R cfg = Ret (Inr (network_spec cfg b n g mac fw))"
  by (rule vn_New_eq [OF assms])

subsection \<open>Reserved addresses\<close>

definition reservations :: "Configuration \<Rightarrow> (string \<rightharpoonup> string)" where
  "reservations cfg = [cfg_GatewayIP cfg \<mapsto> cfg_GatewayMacAddress cfg] ++ cfg_DHCPStaticLeases cfg"

lemma network_pool:
  assumes "config_ok cfg b n g mac"
  shows "leases (vn_ipPool (network_spec cfg b n g mac fw)) = reservations cfg"
    and "pool_wf (vn_ipPool (network_spec cfg b n g mac fw))"
proof -
  have c: "length b = 4" "n \<le> 32" "length g = 4" "cfg_GatewayIP cfg = dotted g"
    "\<forall>k \<in> dom (cfg_DHCPStaticLeases cfg). ipv4_key k" using assms by (auto simp: config_ok_def)
  show "leases (vn_ipPool (network_spec cfg b n g mac fw)) = reservations cfg"
    using c(4) by (simp add: network_spec_def reservations_def)
  moreover have "\<exists>a. length a = 4 \<and> k = dotted a" if "k \<in> dom (reservations cfg)" for k
    using that c(3-5) by (auto simp: reservations_def ipv4_key_def split: if_splits)
  ultimately show "pool_wf (vn_ipPool (network_spec cfg b n g mac fw))"
    using c(1,2) by (auto simp: pool_wf_def network_spec_def is_v4net_def)
qed

text \<open>
  C16. Reservations are honoured end to end. On the network made from a configuration in which no
  hardware address is reserved two addresses, and for any sequence of DHCP messages: an answer
  carries a reserved address (the gateway's, or one of a static lease) exactly when it goes to
  the hardware address the reservation is for.
\<close>

theorem vn_reservations:
  assumes "config_ok cfg b n g mac" "env_quiet E" "orders_ok R cfg"
    and "forwardHostVM (env_ports E) (ord_forwards R) NewPortsForwarder = Ret (None, fw)"
    and "vn_New E R cfg = Ret (Inr vn)" "inj_on (reservations cfg) (dom (reservations cfg))"
    and "dhcp_run cfg (vn_ipPool vn) log p'" "(m, Some out) \<in> set log" "dhcp_FromBytes out = Inr d"
    and "length a = 4" "reservations cfg (dotted a) = Some holder"
  shows "YourIPAddr d = a \<longleftrightarrow> MAC_String (ClientHWAddr m) = holder"
proof -
  let ?p = "vn_ipPool vn"
  have vn: "vn = network_spec cfg b n g mac fw" using vn_New_eq [OF assms(1-4)] assms(5) by simp
  have wf: "pool_wf ?p" and le: "leases ?p = reservations cfg" using network_pool [OF assms(1)] vn by simp_all
  have one: "one_lease ?p"
    using assms(6) unfolding one_lease_def le inj_on_def by (metis domI)
  have "ParseCIDR (cfg_Subnet cfg) = Inr (v4InV6Prefix @ b, v4net b n)"
    using assms(1) ParseCIDR_print [of b n] by (auto simp: config_ok_def)
  from dhcp_run_serves [OF assms(7) wf this] assms(8) obtain l i
    where l: "serve leases GetOrAssign ?p l p'" "(MAC_String (ClientHWAddr m), Inr i) \<in> set l" "tells out i" by blast
  have i: "length (To4 i) = 4" "YourIPAddr d = To4 i" using l(3) assms(9) by (auto simp: tells_def)
  have p': "pool_wf p' \<and> one_lease p'" "leases ?p \<subseteq>\<^sub>m leases p'"
    using pool1.serve_extends [OF l(1)] wf one by blast+
  have told: "leases p' (dotted (To4 i)) = Some (MAC_String (ClientHWAddr m))"
    using pool.serve_recorded [OF l(1) wf l(2)] IP_String_To4 [OF i(1)] by simp
  have held: "leases p' (dotted a) = Some holder"
    using p'(2) assms(11) unfolding le map_le_def by (metis domI)
  show ?thesis
  proof
    assume "YourIPAddr d = a"
    then show "MAC_String (ClientHWAddr m) = holder" using told held i(2) by simp
  next
    assume "MAC_String (ClientHWAddr m) = holder"
    then have "dotted (To4 i) = dotted a" using told held p'(1) unfolding one_lease_def by metis
    then show "YourIPAddr d = a" using dotted_inj [OF i(1) assms(10)] i(2) by simp
  qed
qed

subsection \<open>What HTTP requests change\<close>

lemma ports_expose_step:
  assumes "ports_expose E mth body ra fw = Ret (resp, fw')"
  shows "fw' = fw \<or> (mth = POST \<and> ports_step E True fw fw')"
proof (cases "mth = POST")
  case True
  then show ?thesis using assms
    by (auto simp: ports_expose_def Let_def bind_exec_Ret_iff split: sum.splits if_splits option.splits prod.splits
        intro: step_expose)
qed (use assms in \<open>simp add: ports_expose_def\<close>)

lemma ports_unexpose_step:
  assumes "ports_unexpose mth body fw = (resp, fw')"
  shows "fw' = fw \<or> (mth = POST \<and> ports_step E True fw fw')"
proof (cases "mth = POST")
  case True
  then show ?thesis using assms
    by (auto simp: ports_unexpose_def split: sum.splits prod.splits option.splits intro: step_unexpose)
qed (use assms in \<open>simp add: ports_unexpose_def\<close>)

lemma vn_serve_effect_eq:
  assumes "vn_serve E pes ces stats n r = Ret (rep, n')"
  shows "n' = n
    \<or> rq_method r = POST \<and> rq_path r \<in> {''/services/forwarder/expose'', ''/services/forwarder/unexpose''}
      \<and> (\<exists>fw. n' = n\<lparr>vn_services := (vn_services n)\<lparr>sv_ports := fw\<rparr>\<rparr> \<and> ports_step E True (sv_ports (vn_services n)) fw)
    \<or> rq_method r = POST \<and> rq_path r = ''/services/dns/add''
      \<and> (\<exists>z. rq_zone r = Inr z
        \<and> n' = n\<lparr>vn_services := (vn_services n)\<lparr>sv_zones := addZone (sv_zones (vn_services n)) z\<rparr>\<rparr>)"
proof -
  have same: "n\<lparr>vn_services := (vn_services n)\<lparr>sv_ports := sv_ports (vn_services n)\<rparr>\<rparr> = n"
    "n\<lparr>vn_services := (vn_services n)\<lparr>sv_zones := sv_zones (vn_services n)\<rparr>\<rparr> = n" by simp_all
  have path: "rq_path r = q" if "vn_route (rq_path r) = Some ep" "(q, ep) \<in> set vn_paths"
    and "\<forall>x. (x, ep) \<in> set vn_paths \<longrightarrow> x = q" for ep q
    using that map_of_SomeD [of vn_paths "rq_path r" ep] by (simp add: vn_route_spec)
  consider "vn_route (rq_path r) = Some EpExpose" | "vn_route (rq_path r) = Some EpUnexpose"
    | "vn_route (rq_path r) = Some EpDnsAdd" | "n' = n"
    using assms by (cases "vn_route (rq_path r)") (auto simp: vn_serve_def bind_exec_Ret_iff split: endpoint.splits)
  then show ?thesis
  proof cases
    case 1
    then have "rq_path r = ''/services/forwarder/expose''" by (rule path) (auto simp: vn_paths_def)
    moreover obtain resp fw where f: "ports_expose E (rq_method r) (rq_expose r) (rq_remote r) (sv_ports (vn_services n)) = Ret (resp, fw)"
      "n' = n\<lparr>vn_services := (vn_services n)\<lparr>sv_ports := fw\<rparr>\<rparr>"
      using assms 1 by (auto simp: vn_serve_def bind_exec_Ret_iff)
    ultimately show ?thesis using ports_expose_step [OF f(1)] same by auto
  next
    case 2
    then have "rq_path r = ''/services/forwarder/unexpose''" by (rule path) (auto simp: vn_paths_def)
    moreover obtain resp fw where f: "ports_unexpose (rq_method r) (rq_unexpose r) (sv_ports (vn_services n)) = (resp, fw)"
      "n' = n\<lparr>vn_services := (vn_services n)\<lparr>sv_ports := fw\<rparr>\<rparr>"
      using assms 2 by (auto simp: vn_serve_def split: prod.splits)
    ultimately show ?thesis using ports_unexpose_step [OF f(1), of E] same by auto
  next
    case 3
    then have "rq_path r = ''/services/dns/add''" by (rule path) (auto simp: vn_paths_def)
    then show ?thesis using assms 3 same
      by (auto simp: vn_serve_def dns_Mux_add_def split: prod.splits sum.splits if_splits)
  qed simp
qed


subsection \<open>Addresses given to the stack\<close>

lemma splitIPPort_bounds:
  assumes "splitIPPort network addr = Inr (i, port)"
  shows "network = ''tcp'' \<and> i \<noteq> [] \<and> port < 2 ^ 16"
  using assms by (auto simp: splitIPPort_def ParseUint_def Let_def split: sum.splits prod.splits option.splits if_splits)

text \<open>
  Unlike \<open>tcpipAddress\<close>, this parser never changes a port. An IPv6 address passes its checks, and
  then panics in \<open>AddrFrom4Slice\<close>.
\<close>

lemma vn_address_port:
  assumes "vn_address network addr = Ret (Inr fa)"
  shows "\<exists>i port. splitIPPort network addr = Inr (i, port) \<and> unat (fa_Port fa) = port \<and> fa_Addr fa = To4 i"
proof -
  obtain i port where s: "splitIPPort network addr = Inr (i, port)" and f: "fa = \<lparr>fa_NIC = 1, fa_Addr = To4 i, fa_Port = of_nat port\<rparr>"
    using assms by (auto simp: vn_address_def bind_exec_Ret_iff AddrFrom4Slice_def split: sum.splits if_splits)
  have "port < 2 ^ 16" using splitIPPort_bounds [OF s] by simp
  then show ?thesis using s f by (simp add: unat_of_nat)
qed

lemma vn_address_ipv6_panics:
  "splitIPPort network addr = Inr (i, port) \<Longrightarrow> length (To4 i) \<noteq> 4 \<Longrightarrow> vn_address network addr = Panic"
  by (simp add: vn_address_def AddrFrom4Slice_def)

subsection \<open>A sample network\<close>

definition sample_net :: Configuration where
  "sample_net = hyperkit_cfg\<lparr>cfg_NAT := [''192.168.127.254'' \<mapsto> ''127.0.0.1''],
     cfg_DHCPStaticLeases := [''192.168.127.2'' \<mapsto> ''5a:94:ef:e4:0c:ee'']\<rparr>"

definition sample_orders :: orders where
  "sample_orders = \<lparr>ord_leases = [(''192.168.127.2'', ''5a:94:ef:e4:0c:ee'')], ord_NAT = [(''192.168.127.254'', ''127.0.0.1'')],
     ord_forwards = []\<rparr>"

definition quiet_stack :: stack_env where
  "quiet_stack = \<lparr>env_createNIC = None, env_addAddress = None, env_newEndpoint = None, env_bind = (\<lambda>_ _. None),
     env_createFile = (\<lambda>_. None), env_sniffer = None, env_ports = free_ports\<rparr>"

definition gateway_mac :: bytes where
  "gateway_mac = [0x5a, 0x94, 0xef, 0xe4, 0x0c, 0xdd]"

lemma sample_dotted:
  "''192.168.127.0/24'' = dotted [192, 168, 127, 0] @ CHR ''/'' # itoa_nat 24" "''192.168.127.1'' = dotted [192, 168, 127, 1]"
  "''192.168.127.2'' = dotted [192, 168, 127, 2]" "''192.168.127.254'' = dotted [192, 168, 127, 254]"
  "''127.0.0.1'' = dotted [127, 0, 0, 1]"
  by code_simp+

lemma gateway_mac_parse: "ParseMAC ''5a:94:ef:e4:0c:dd'' = Inr gateway_mac"
proof -
  have "''5a:94:ef:e4:0c:dd'' = MAC_String gateway_mac" by code_simp
  then show ?thesis by (simp add: ParseMAC_String gateway_mac_def)
qed

lemma sample_ok: "config_ok sample_net [192, 168, 127, 0] 24 [192, 168, 127, 1] gateway_mac"
proof -
  have "ipv4_key ''192.168.127.2''" "ipv4_key ''192.168.127.254''" "ipv4_key ''127.0.0.1''"
    unfolding ipv4_key_def sample_dotted(3-5) by (rule exI, rule conjI [rotated], rule refl, simp)+
  then show ?thesis using sample_dotted(1,2) gateway_mac_parse by (auto simp: config_ok_def sample_net_def hyperkit_cfg_def)
qed

lemma sample_env: "env_quiet quiet_stack" "orders_ok sample_orders sample_net"
  "forwardHostVM (env_ports quiet_stack) (ord_forwards sample_orders) NewPortsForwarder = Ret (None, NewPortsForwarder)"
  by (simp_all add: env_quiet_def quiet_stack_def orders_ok_def sample_orders_def sample_net_def hyperkit_cfg_def enumerates_def)

theorem vn_New_spec_witness:
  "vn_New quiet_stack sample_orders sample_net =
     Ret (Inr (network_spec sample_net [192, 168, 127, 0] 24 [192, 168, 127, 1] gateway_mac NewPortsForwarder))"
  by (rule vn_New_spec [OF sample_ok sample_env])

definition static_client :: DHCPv4 where
  "static_client = sample_request [0x5a, 0x94, 0xef, 0xe4, 0x0c, 0xee] MessageTypeDiscover"

lemma static_client_mac: "MAC_String (ClientHWAddr static_client) = ''5a:94:ef:e4:0c:ee''"
  by code_simp

lemma sample_reservations:
  "reservations sample_net = [''192.168.127.1'' \<mapsto> ''5a:94:ef:e4:0c:dd'', ''192.168.127.2'' \<mapsto> ''5a:94:ef:e4:0c:ee'']"
  by (rule ext) (simp add: reservations_def sample_net_def hyperkit_cfg_def)

theorem vn_reservations_witness:
  "\<exists>p' out d. dhcp_run sample_net (vn_ipPool (network_spec sample_net [192, 168, 127, 0] 24 [192, 168, 127, 1] gateway_mac NewPortsForwarder))
      [(static_client, Some out)] p'
    \<and> dhcp_FromBytes out = Inr d \<and> YourIPAddr d = [192, 168, 127, 2]"
proof -
  let ?vn = "network_spec sample_net [192, 168, 127, 0] 24 [192, 168, 127, 1] gateway_mac NewPortsForwarder"
  let ?es = "[(''192.168.127.1'', ''5a:94:ef:e4:0c:dd''), (''192.168.127.2'', ''5a:94:ef:e4:0c:ee'')]"
  have wf: "pool_wf (vn_ipPool ?vn)" and le: "leases (vn_ipPool ?vn) = reservations sample_net"
    using network_pool [OF sample_ok] by simp_all
  have es: "enumerates ?es (leases (vn_ipPool ?vn))"
    unfolding le sample_reservations by (simp add: enumerates_def fun_upd_twist)
  have ok: "request_ok static_client" by (simp add: request_ok_def static_client_def sample_request_def)
  have known: "MAC_String (ClientHWAddr static_client) \<in> ran (leases (vn_ipPool ?vn))"
    unfolding le sample_reservations static_client_mac by (rule ranI [of _ "''192.168.127.2''"]) simp
  have "ParseCIDR (cfg_Subnet sample_net) = Inr (v4InV6Prefix @ [192, 168, 127, 0], v4net [192, 168, 127, 0] 24)"
    using sample_ok ParseCIDR_print [of "[192, 168, 127, 0]" 24] by (simp add: config_ok_def)
  moreover have "answer_type (MessageType static_client) = Some MessageTypeOffer" by code_simp
  ultimately obtain p' out d where h: "handler sample_net ?es (Inr [9, 9, 9, 9]) (vn_ipPool ?vn) static_client = Ret (p', Some out)"
      "dhcp_FromBytes out = Inr d"
    using known by (cases rule: handler_cases [OF wf es ok, of sample_net _ _ "[9, 9, 9, 9]"]) auto
  have r: "dhcp_run sample_net (vn_ipPool ?vn) [(static_client, Some out)] p'"
    by (rule run_Cons [OF ok es h(1) run_Nil])
  have "YourIPAddr d = [192, 168, 127, 2] \<longleftrightarrow> MAC_String (ClientHWAddr static_client) = ''5a:94:ef:e4:0c:ee''"
    by (rule vn_reservations [OF sample_ok sample_env vn_New_eq [OF sample_ok sample_env] _ r _ h(2)])
      (use sample_dotted(3) in \<open>auto simp: sample_reservations inj_on_def\<close>)
  then show ?thesis using r h(2) static_client_mac by blast
qed

definition get_leases :: request where
  "get_leases = \<lparr>rq_method = GET, rq_path = ''/services/forwarder/expose'', rq_query = [], rq_remote = ''192.168.127.2:4000'',
     rq_hijack = None, rq_expose = Inl ''EOF'', rq_unexpose = Inl ''EOF'', rq_zone = Inl ''EOF''\<rparr>"


end
