(* ===== verification/VmForwarder.thy ===== *)
theory VmForwarder
  imports GoFlag Transport VirtualNetwork
begin

text \<open>
  The forwarder that runs inside a virtual machine, \<open>cmd/vm/main_linux.go\<close>, with the frame buffer
  of the vendored \<open>songgao/packets\<close>. Packets read from the TAP device go to the connection with a
  16-bit size in front, and back. The network device, the programs that are started and the
  connection are parameters.

  The lemmas put the two loops and the loops of the switch together: what the virtual machine
  sends is what the switch processes, and what the switch writes is what the virtual machine
  receives.
\<close>

subsection \<open>The buffer of a frame\<close>

definition frame_Tagging :: "bytes \<Rightarrow> nat" where
  "frame_Tagging f =
     (if f ! 12 = 0x81 \<and> f ! 13 = 0x00 then 4 else if f ! 12 = 0x88 \<and> f ! 13 = 0xa8 then 8 else 0)"

text \<open>The length \<open>Resize\<close> gives to the frame.\<close>

definition frame_Resize :: "bytes \<Rightarrow> int \<Rightarrow> int" where
  "frame_Resize f payloadSize =
     (let tagging = (if 6 + 6 + 2 < length f then frame_Tagging f else 0)
      in 6 + 6 + int tagging + 2 + payloadSize)"

subsection \<open>From the device to the connection\<close>

text \<open>
  \<open>packets\<close> are the packets the device will deliver, each cut to the buffer it is read into, and
  \<open>e\<close> the error that ends them; \<open>wr k\<close> is what the \<open>k\<close>-th write to the connection returns. The
  result is the writes that succeeded and the error sent to the channel. Slicing a frame to a
  negative length panics.
\<close>

fun vm_rx ::
  "int \<Rightarrow> (nat \<Rightarrow> gerror option) \<Rightarrow> gerror \<Rightarrow> nat \<Rightarrow> bytes \<Rightarrow> bytes list \<Rightarrow> (bytes list \<times> gerror) exec" where
  "vm_rx mtu wr e k frame [] =
     (if frame_Resize frame mtu < 0 then Panic else Ret ([], Wrap e ''cannot read packet from tap''))"
| "vm_rx mtu wr e k frame (p # ps) =
     (if frame_Resize frame mtu < 0 then Panic
      else let frame' = take (nat (frame_Resize frame mtu)) p;
               msg = PutUint16_LE (of_nat (length frame')) @ frame'
           in (case wr k of
                 Some err \<Rightarrow> Ret ([], Wrap err ''cannot write size and packet to socket'')
               | None \<Rightarrow> bind_exec (vm_rx mtu wr e (Suc k) frame' ps) (\<lambda>(ws, err). Ret (msg # ws, err))))"

subsection \<open>From the connection to the device\<close>

text \<open>
  \<open>input\<close> is what the peer will still send, followed by the error \<open>e\<close>; \<open>wr k\<close> is what the \<open>k\<close>-th
  write to the device returns. The buffer has room for the MTU and an Ethernet header: slicing
  it further panics.
\<close>

function vm_tx ::
  "int \<Rightarrow> (nat \<Rightarrow> gerror option) \<Rightarrow> gerror \<Rightarrow> nat \<Rightarrow> bytes \<Rightarrow> (bytes list \<times> gerror) exec" where
  "vm_tx mtu wr e k input =
     (if mtu + int EthernetMinimumSize < 0 then Panic
      else (case ReadFull 2 e input of
          Inl err \<Rightarrow> Ret ([], Wrap err ''cannot read size from socket'')
        | Inr (sizeBuf, rest) \<Rightarrow>
            (let size = unat (Uint16_LE sizeBuf) in
             if mtu + int EthernetMinimumSize < int size then Panic
             else (case ReadFull size e rest of
                 Inl err \<Rightarrow> Ret ([], Wrap err ''cannot read payload from socket'')
               | Inr (buf, rest') \<Rightarrow>
                   if length buf = 0 \<or> length buf \<noteq> size
                   then Ret ([], ''unexpected size '' @ itoa_nat (length buf) @ '' != '' @ itoa_nat size)
                   else (case wr k of
                       Some err \<Rightarrow> Ret ([], Wrap err ''cannot write packet to tap'')
                     | None \<Rightarrow> bind_exec (vm_tx mtu wr e (Suc k) rest') (\<lambda>(ws, err). Ret (buf # ws, err)))))))"
  by pat_completeness auto
termination
  by (relation "measure (\<lambda>(mtu, wr, e, k, input). length input)")
    (auto simp: ReadFull_def split: if_splits)

declare vm_tx.simps [simp del]

subsection \<open>Setting up\<close>

record vm_flags =
  vm_endpoint :: string
  vm_iface :: string
  stopIfIfaceExist :: string
  vm_mac :: string
  vm_debug :: bool
  vm_mtu :: int
  tapPreexists :: bool
  vm_showVersion :: bool

definition vm_defaults :: vm_flags where
  "vm_defaults = \<lparr>vm_endpoint = ''vsock://2:1024'' @ ConnectPath, vm_iface = ''tap0'', stopIfIfaceExist = ''eth0,ens3,enp0s1'',
     vm_mac = ''5a:94:ef:e4:0c:ee'', vm_debug = False, vm_mtu = 4000, tapPreexists = False, vm_showVersion = False\<rparr>"

definition vm_flag_names :: "string list" where
  "vm_flag_names = [''url'', ''iface'', ''stop-if-exist'', ''mac'', ''mtu'']"

definition vm_formal :: "string \<Rightarrow> bool option" where
  "vm_formal name =
     (if name \<in> set [''version'', ''debug'', ''preexisting''] then Some True
      else if name \<in> set vm_flag_names then Some False else None)"

definition vm_set :: "string \<Rightarrow> string \<Rightarrow> vm_flags \<Rightarrow> vm_flags result" where
  "vm_set name v f =
     (if name = ''version'' then (case set_bool v of Inl err \<Rightarrow> Inl err | Inr b \<Rightarrow> Inr (f\<lparr>vm_showVersion := b\<rparr>))
      else if name = ''url'' then Inr (f\<lparr>vm_endpoint := v\<rparr>)
      else if name = ''iface'' then Inr (f\<lparr>vm_iface := v\<rparr>)
      else if name = ''stop-if-exist'' then Inr (f\<lparr>stopIfIfaceExist := v\<rparr>)
      else if name = ''mac'' then Inr (f\<lparr>vm_mac := v\<rparr>)
      else if name = ''debug'' then (case set_bool v of Inl err \<Rightarrow> Inl err | Inr b \<Rightarrow> Inr (f\<lparr>vm_debug := b\<rparr>))
      else if name = ''mtu'' then (case set_int v of Inl err \<Rightarrow> Inl err | Inr i \<Rightarrow> Inr (f\<lparr>vm_mtu := i\<rparr>))
      else (case set_bool v of Inl err \<Rightarrow> Inl err | Inr b \<Rightarrow> Inr (f\<lparr>tapPreexists := b\<rparr>)))"

definition vm_flag_set :: "vm_flags flag_set" where
  "vm_flag_set = \<lparr>formal = vm_formal, flag_Set = vm_set\<rparr>"

lemma vm_value_flags: "list_all (\<lambda>name. flag_name name \<and> vm_formal name = Some False) vm_flag_names"
  by code_simp

interpretation vm_command: flag_command vm_flag_set vm_flag_names
  using vm_value_flags by unfold_locales (simp add: list_all_iff vm_flag_set_def)

text \<open>
  The results of the calls the program makes. \<open>tx_end\<close> and \<open>rx_end\<close> are the errors with which the
  two loops end, and \<open>ends\<close> the order in which the goroutines that end do so.
\<close>

datatype goroutine = GoTx | GoRx | GoDhcp

record vm_env =
  vm_dial :: "dial_target \<Rightarrow> gerror option"
  vm_query_order :: "string list"
  vm_request :: "string \<Rightarrow> gerror option"
  water_New :: "string \<Rightarrow> gerror option"
  LinkByName :: "string \<Rightarrow> gerror option"
  LinkSetHardwareAddr :: "string \<Rightarrow> bytes \<Rightarrow> gerror option"
  LinkSetUp :: "string \<Rightarrow> gerror option"
  LookPath :: "string \<Rightarrow> gerror option"
  cmd_Run :: "string list \<Rightarrow> gerror option"
  LinkList :: "string list result"
  tx_end :: gerror
  rx_end :: gerror
  ends :: "goroutine list"

fun vm_contains :: "string list \<Rightarrow> string \<Rightarrow> bool" where
  "vm_contains [] e = False"
| "vm_contains (a # s) e = (if a = e then True else vm_contains s e)"

definition linkUp :: "vm_env \<Rightarrow> vm_flags \<Rightarrow> gerror option" where
  "linkUp E f =
     (case LinkByName E (vm_iface f) of
        Some err \<Rightarrow> Some err
      | None \<Rightarrow>
          if vm_mac f = [] then LinkSetUp E (vm_iface f)
          else (case ParseMAC (vm_mac f) of
              Inl err \<Rightarrow> Some err
            | Inr hw \<Rightarrow>
                (case LinkSetHardwareAddr E (vm_iface f) hw of
                   Some err \<Rightarrow> Some err
                 | None \<Rightarrow> LinkSetUp E (vm_iface f))))"

definition vm_dhcp :: "vm_env \<Rightarrow> vm_flags \<Rightarrow> gerror option" where
  "vm_dhcp E f =
     (case LookPath E ''udhcpc'' of
        None \<Rightarrow> cmd_Run E [''udhcpc'', ''-f'', ''-q'', ''-i'', vm_iface f, ''-v'']
      | Some _ \<Rightarrow> cmd_Run E [''dhclient'', ''-4'', ''-d'', ''-v'', vm_iface f])"

text \<open>What a goroutine sends to the channel, and the first value received from it, if any is ever sent.\<close>

fun sends :: "vm_env \<Rightarrow> vm_flags \<Rightarrow> goroutine \<Rightarrow> gerror option" where
  "sends E f GoTx = Some (tx_end E)"
| "sends E f GoRx = Some (rx_end E)"
| "sends E f GoDhcp =
     (if \<not> tapPreexists f then map_option (\<lambda>err. Wrap err ''dhcp error'') (vm_dhcp E f) else None)"

definition errCh :: "vm_env \<Rightarrow> vm_flags \<Rightarrow> gerror option" where
  "errCh E f = (case List.map_filter (sends E f) (ends E) of err # _ \<Rightarrow> Some err | [] \<Rightarrow> None)"

text \<open>\<open>run\<close> never returns without an error; \<open>None\<close> stands for a run that does not return.\<close>

definition vm_run :: "vm_env \<Rightarrow> vm_flags \<Rightarrow> gerror option" where
  "vm_run E f =
     (case Dial_linux (vm_dial E) (vm_query_order E) (vm_endpoint f) of
        Inl err \<Rightarrow> Some (Wrap err ''cannot connect to host'')
      | Inr (conn, path) \<Rightarrow>
          (case (if path \<noteq> [] then (case url_Parse path of Inl err \<Rightarrow> Some err | Inr _ \<Rightarrow> vm_request E path) else None) of
             Some err \<Rightarrow> Some err
           | None \<Rightarrow>
               (case water_New E (vm_iface f) of
                  Some err \<Rightarrow> Some (Wrap err ''cannot create tap device'')
                | None \<Rightarrow>
                    (case (if \<not> tapPreexists f then linkUp E f else None) of
                       Some err \<Rightarrow> Some (Wrap err ''cannot set mac address'')
                     | None \<Rightarrow> errCh E f))))"

datatype vm_outcome = VmExit nat | VmFatal gerror | VmPrevented string | VmLoop vm_flags

text \<open>The interface that stops the program, if there is one; otherwise \<^const>\<open>vm_run\<close> is repeated for ever.\<close>

definition vm_main :: "vm_env \<Rightarrow> string list \<Rightarrow> vm_outcome" where
  "vm_main E args =
     (case flag_Parse vm_flag_set args vm_defaults of
        Inl ErrHelp \<Rightarrow> VmExit 0
      | Inl (FlagFailed _) \<Rightarrow> VmExit 2
      | Inr (f, _) \<Rightarrow>
          if vm_showVersion f then VmExit 0
          else (let expected = Split (stopIfIfaceExist f) (CHR '','')
            in case LinkList E of
                 Inl err \<Rightarrow> VmFatal err
               | Inr links \<Rightarrow>
                   (case filter (vm_contains expected) links of
                      name # _ \<Rightarrow> VmPrevented name
                    | [] \<Rightarrow> VmLoop f)))"

subsection \<open>The two ends together\<close>

lemma frame_Resize_ge: "14 + mtu \<le> frame_Resize f mtu"
  by (simp add: frame_Resize_def Let_def)

lemma frame_Resize_le: "frame_Resize f mtu \<le> 22 + mtu"
  by (simp add: frame_Resize_def frame_Tagging_def Let_def)

lemma framed_hyperkit: "framed hyperkitProtocol p = PutUint16_LE (of_nat (length p)) @ p"
  by (simp add: framed_def size_header_def)

lemma vm_rx_frames:
  assumes "0 \<le> mtu" "\<forall>p \<in> set ps. int (length p) \<le> mtu + 14"
  shows "vm_rx mtu (\<lambda>_. None) e k frame ps = Ret (map (framed hyperkitProtocol) ps, Wrap e ''cannot read packet from tap'')"
  using assms(2)
proof (induction ps arbitrary: k frame)
  case Nil
  then show ?case using frame_Resize_ge [of mtu frame] assms(1) by simp
next
  case (Cons p ps)
  have "take (nat (frame_Resize frame mtu)) p = p"
    using frame_Resize_ge [of mtu frame] Cons.prems by (simp add: nat_le_iff le_nat_iff)
  then show ?case
    using frame_Resize_ge [of mtu frame] assms(1) Cons by (simp add: framed_hyperkit Let_def)
qed

text \<open>
  C11. The virtual machine and the switch agree on the way out: when the device delivers frames
  that fit the configured MTU with their Ethernet header, what the forwarder writes to the
  connection makes the receive loop of the switch process exactly those frames, one after the
  other, with none cut, merged or lost.
\<close>

theorem vm_to_switch:
  assumes "0 \<le> mtu" "\<forall>p \<in> set ps. int (length p) \<le> mtu + 14 \<and> length p < 65536" "\<forall>k. \<not> dn k"
  shows "\<exists>ws. vm_rx mtu (\<lambda>_. None) e 0 [] ps = Ret (ws, Wrap e ''cannot read packet from tap'')
    \<and> rxStream E dn e' cid hyperkitProtocol 0 s (concat ws) =
      bind_exec (rx_all E cid s ps) (\<lambda>s'. Ret (s', Some (Wrap e' ''cannot read size from socket'')))"
proof -
  have "vm_rx mtu (\<lambda>_. None) e 0 [] ps = Ret (map (framed hyperkitProtocol) ps, Wrap e ''cannot read packet from tap'')"
    using assms by (intro vm_rx_frames) auto
  then show ?thesis using rxStream_packets [of ps hyperkitProtocol dn] assms by simp
qed

lemma read_size:
  assumes "length p < 65536"
  shows "ReadFull 2 e (PutUint16_LE (of_nat (length p)) @ p @ rest) = Inr (PutUint16_LE (of_nat (length p)), p @ rest)"
    and "unat (Uint16_LE (PutUint16_LE (of_nat (length p)))) = length p"
    and "uint (Uint16_LE (PutUint16_LE (of_nat (length p)))) = int (length p)"
proof -
  show *: "unat (Uint16_LE (PutUint16_LE (of_nat (length p)))) = length p"
    using Uint16_LE_Put [of "of_nat (length p)" "[]"] assms by (simp add: unat_of_nat)
  show "uint (Uint16_LE (PutUint16_LE (of_nat (length p)))) = int (length p)"
    by (simp only: * uint_nat)
  show "ReadFull 2 e (PutUint16_LE (of_nat (length p)) @ p @ rest) = Inr (PutUint16_LE (of_nat (length p)), p @ rest)"
    using ReadFull_exact [of "PutUint16_LE (of_nat (length p))" e "p @ rest"] by simp
qed

lemma vm_tx_frame:
  assumes "0 < length p" "int (length p) \<le> mtu + 14" "length p < 65536"
  shows "vm_tx mtu (\<lambda>_. None) e k (framed hyperkitProtocol p @ rest) =
    bind_exec (vm_tx mtu (\<lambda>_. None) e (Suc k) rest) (\<lambda>(ws, err). Ret (p # ws, err))"
  using read_size [OF assms(3)] assms(1,2)
  by (subst vm_tx.simps) (simp add: framed_hyperkit EthernetMinimumSize_def Let_def)

text \<open>
  C12. And on the way in: whatever the switch writes to a virtual machine that is connected with
  the protocol of the forwarder is written to its device packet by packet, unchanged and in
  order, as long as the packets are not empty and fit the configured MTU with their header.
\<close>

theorem switch_to_vm:
  assumes "0 \<le> mtu" "\<forall>p \<in> set ps. 0 < length p \<and> int (length p) \<le> mtu + 14 \<and> length p < 65536"
  shows "vm_tx mtu (\<lambda>_. None) e k (concat (map (wire_bytes (protocolImplementation HyperKitProtocol)) ps))
    = Ret (ps, Wrap e ''cannot read size from socket'')"
  using assms(2)
proof (induction ps arbitrary: k)
  case Nil
  then show ?case
    using assms(1) by (subst vm_tx.simps) (simp add: ReadFull_Nil EthernetMinimumSize_def)
next
  case (Cons p ps)
  then show ?case
    using vm_tx_frame [of p mtu] by (simp add: wire_bytes_def protocolImplementation_def Protocol_defs)
qed

text \<open>A packet beyond the MTU ends the program: its size is used as a slice bound before anything is read.\<close>

lemma vm_tx_oversize_panics:
  assumes "mtu + 14 < int (length p)" "length p < 65536"
  shows "vm_tx mtu wr e k (framed hyperkitProtocol p @ rest) = Panic"
  using read_size [OF assms(2)] assms(1)
  by (subst vm_tx.simps) (simp add: framed_hyperkit EthernetMinimumSize_def Let_def)

subsection \<open>The default endpoint\<close>

lemma vm_default_dial: "Dial_linux dial ks (vm_endpoint vm_defaults) = dial_to dial (DVsock 2 1024) ''/connect''"
proof -
  have "itoa_nat 2 = ''2''" by code_simp
  then have "vm_endpoint vm_defaults = vsock_url 2 1024 ''/connect''"
    by (simp add: vm_defaults_def vsock_url_def itoa_1024 ConnectPath_def)
  moreover have "path_plain ''/connect''" by code_simp
  ultimately show ?thesis using Dial_vsock [of "''/connect''" 2 1024] by simp
qed

text \<open>
  The defaults of the two programs meet: the forwarder in the virtual machine dials the port of
  the host (context identifier 2) on which the network listens by default, and the path it then
  posts to is the one that hands the connection to the switch.
\<close>

lemma default_endpoints_meet:
  "Listen Linux OS DefaultURL_linux = listen_on OS (LVsock None 1024)
   \<and> Dial_linux dial ks (vm_endpoint vm_defaults) = dial_to dial (DVsock 2 1024) ConnectPath
   \<and> vn_route ConnectPath = Some EpConnect"
  using Listen_default_linux vm_default_dial by (simp add: ConnectPath_def vn_route_spec vn_paths_def)

text \<open>\<open>run\<close> with the defaults: an error of the loops is all that ends it once everything is set up.\<close>

lemma vm_run_defaults:
  assumes "vm_dial E (DVsock 2 1024) = None" "vm_request E ''/connect'' = None" "water_New E ''tap0'' = None"
    and "linkUp E vm_defaults = None"
  shows "vm_run E vm_defaults = errCh E vm_defaults"
proof -
  have "Dial_linux (vm_dial E) ks (vm_endpoint vm_defaults) = Inr (DVsock 2 1024, ''/connect'')" for ks
    using assms(1) by (simp add: vm_default_dial dial_to_def)
  moreover have "\<not> isl (url_Parse ''/connect'')" by code_simp
  then have "\<exists>u. url_Parse ''/connect'' = Inr u" by (cases "url_Parse ''/connect''") simp_all
  ultimately show ?thesis
    using assms(2-4) by (auto simp: vm_run_def vm_defaults_def)
qed

lemma vm_contains_iff [simp]: "vm_contains s e \<longleftrightarrow> e \<in> set s"
  by (induction s) auto

text \<open>The program runs only if none of the interfaces it was told about exists.\<close>

lemma vm_main_loop:
  assumes "vm_main E args = VmLoop f"
  shows "\<exists>links. LinkList E = Inr links \<and> set links \<inter> set (Split (stopIfIfaceExist f) (CHR '','')) = {}"
proof -
  obtain rest where p: "flag_Parse vm_flag_set args vm_defaults = Inr (f, rest)"
    using assms by (auto simp: vm_main_def Let_def split: sum.splits flag_error.splits prod.splits if_splits list.splits)
  then obtain links where "LinkList E = Inr links" "filter (vm_contains (Split (stopIfIfaceExist f) (CHR '',''))) links = []"
    using assms by (auto simp: vm_main_def Let_def split: sum.splits if_splits list.splits)
  then show ?thesis by (auto simp: filter_empty_conv)
qed

subsection \<open>Witnesses\<close>

theorem vm_to_switch_witness:
  "\<exists>ws. vm_rx 4000 (\<lambda>_. None) ''EOF'' 0 [] [sample_frame gw_mac host_a] = Ret (ws, ''cannot read packet from tap: EOF'')
    \<and> rxStream quiet_env (\<lambda>_. False) ''EOF'' 1 hyperkitProtocol 0 two_conns (concat ws) =
      bind_exec (rx_all quiet_env 1 two_conns [sample_frame gw_mac host_a])
        (\<lambda>s'. Ret (s', Some ''cannot read size from socket: EOF''))"
proof -
  have "length (sample_frame gw_mac host_a) \<le> 100" by code_simp
  then have "\<forall>p \<in> set [sample_frame gw_mac host_a]. int (length p) \<le> 4000 + 14 \<and> length p < 65536" by simp
  from vm_to_switch [OF _ this, of "\<lambda>_. False" "''EOF''" quiet_env "''EOF''" 1 two_conns]
  show ?thesis by (simp add: Wrap_def)
qed

theorem switch_to_vm_witness:
  "vm_tx 4000 (\<lambda>_. None) ''EOF'' 0 (concat (map (wire_bytes (protocolImplementation HyperKitProtocol)) [[1, 2, 3], [4]]))
    = Ret ([[1, 2, 3], [4]], ''cannot read size from socket: EOF'')"
  using switch_to_vm [of 4000 "[[1, 2, 3], [4]]" "''EOF''" 0] by (simp add: Wrap_def)

end
