(* ===== verification/Client.thy ===== *)
theory Client
  imports VirtualNetwork
begin

text \<open>
  The HTTP client of the API, \<open>pkg/client/client.go\<close>, and the client side of a tunnel,
  \<open>pkg/transport/tunnel.go\<close>, together with the server of \<open>VirtualNetwork\<close>.

  A transport carries a request (method, URL, body) to a server with a state; it returns an
  error, or a status and what reading the body returns. JSON is a \<open>json_codec\<close>; what is relied
  on is that decoding undoes encoding.
\<close>

subsection \<open>The client\<close>

record json_codec =
  enc_expose :: "ExposeRequest \<Rightarrow> string result"
  dec_expose :: "string \<Rightarrow> ExposeRequest result"
  enc_unexpose :: "UnexposeRequest \<Rightarrow> string result"
  dec_unexpose :: "string \<Rightarrow> UnexposeRequest result"
  enc_zone :: "Zone \<Rightarrow> string result"
  dec_zone :: "string \<Rightarrow> Zone result"
  enc_reply :: "reply \<Rightarrow> string"
  dec_ports :: "string \<Rightarrow> ExposeRequest list result"
  dec_zones :: "string \<Rightarrow> Zone list result"

type_synonym 's transport =
  "http_method \<Rightarrow> string \<Rightarrow> string \<Rightarrow> 's \<Rightarrow> (nat \<times> string result) result \<times> 's"

text \<open>A client is a transport and the base of its URLs; \<open>New\<close> only stores them.\<close>

record 's Client =
  cl_client :: "'s transport"
  cl_base :: string

definition client_New :: "'s transport \<Rightarrow> string \<Rightarrow> 's Client" where
  "client_New rt base = \<lparr>cl_client = rt, cl_base = base\<rparr>"

lemma client_New_sel [simp]: "cl_client (client_New c b) = c" "cl_base (client_New c b) = b"
  by (simp_all add: client_New_def)

definition client_post :: "'s transport \<Rightarrow> string \<Rightarrow> string result \<Rightarrow> 's \<Rightarrow> gerror option \<times> 's" where
  "client_post rt url marshalled s =
     (case marshalled of
        Inl err \<Rightarrow> (Some err, s)
      | Inr bin \<Rightarrow>
          (case rt POST url bin s of
             (Inl err, s') \<Rightarrow> (Some err, s')
           | (Inr (code, body), s') \<Rightarrow>
               (if code \<noteq> StatusOK then
                  (case body of
                     Inl readErr \<Rightarrow> Some (''error while reading error message: '' @ readErr)
                   | Inr err \<Rightarrow> Some (TrimSpace err))
                else None, s')))"

definition client_get :: "'s transport \<Rightarrow> string \<Rightarrow> (string \<Rightarrow> 'a result) \<Rightarrow> 's \<Rightarrow> 'a result \<times> 's" where
  "client_get rt url decode s =
     (case rt GET url [] s of
        (Inl err, s') \<Rightarrow> (Inl err, s')
      | (Inr (code, body), s') \<Rightarrow>
          (if code \<noteq> StatusOK then Inl (''unexpected status: '' @ itoa_nat code)
           else (case body of Inl err \<Rightarrow> Inl err | Inr b \<Rightarrow> decode b), s'))"

definition client_List :: "json_codec \<Rightarrow> 's Client \<Rightarrow> 's \<Rightarrow> ExposeRequest list result \<times> 's" where
  "client_List J c = client_get (cl_client c) (cl_base c @ ''/services/forwarder/all'') (dec_ports J)"

definition client_Expose :: "json_codec \<Rightarrow> 's Client \<Rightarrow> ExposeRequest \<Rightarrow> 's \<Rightarrow> gerror option \<times> 's" where
  "client_Expose J c req = client_post (cl_client c) (cl_base c @ ''/services/forwarder/expose'') (enc_expose J req)"

definition client_Unexpose :: "json_codec \<Rightarrow> 's Client \<Rightarrow> UnexposeRequest \<Rightarrow> 's \<Rightarrow> gerror option \<times> 's" where
  "client_Unexpose J c req = client_post (cl_client c) (cl_base c @ ''/services/forwarder/unexpose'') (enc_unexpose J req)"

definition client_ListDNS :: "json_codec \<Rightarrow> 's Client \<Rightarrow> 's \<Rightarrow> Zone list result \<times> 's" where
  "client_ListDNS J c = client_get (cl_client c) (cl_base c @ ''/services/dns/all'') (dec_zones J)"

definition client_AddDNS :: "json_codec \<Rightarrow> 's Client \<Rightarrow> Zone \<Rightarrow> 's \<Rightarrow> gerror option \<times> 's" where
  "client_AddDNS J c req = client_post (cl_client c) (cl_base c @ ''/services/dns/add'') (enc_zone J req)"

subsection \<open>The server behind a transport\<close>

text \<open>The proxies of the listing are decoded as expose requests: the tags of the fields are the same.\<close>

definition proxy_request :: "proxy \<Rightarrow> ExposeRequest" where
  "proxy_request p = \<lparr>ex_Local = proxy_Local p, ex_Remote = proxy_Remote p, ex_Protocol = proxy_Protocol p\<rparr>"

definition codec_ok :: "json_codec \<Rightarrow> bool" where
  "codec_ok J \<longleftrightarrow>
     (\<forall>r b. enc_expose J r = Inr b \<longrightarrow> dec_expose J b = Inr r)
     \<and> (\<forall>r b. enc_unexpose J r = Inr b \<longrightarrow> dec_unexpose J b = Inr r)
     \<and> (\<forall>ps. dec_ports J (enc_reply J (Proxies ps)) = Inr (map proxy_request ps))"

text \<open>
  The server as a transport: a handler that panics is ended by \<open>net/http\<close>, and its client sees
  the connection close. \<open>pes\<close> is the order in which the proxies of a network are visited.
\<close>

definition vn_transport ::
  "json_codec \<Rightarrow> ports_env \<Rightarrow> (VirtualNetwork \<Rightarrow> (string \<times> proxy) list) \<Rightarrow> string \<Rightarrow> string \<Rightarrow> VirtualNetwork transport" where
  "vn_transport J E pes ra base mth url body n =
     (case StripPrefix base url of
        None \<Rightarrow> (Inl ''no such host'', n)
      | Some path \<Rightarrow>
          (case vn_serve E (pes n) [] [] n
             \<lparr>rq_method = mth, rq_path = path, rq_query = [], rq_remote = ra, rq_hijack = Some ''webserver does not support hijacking'',
              rq_expose = dec_expose J body, rq_unexpose = dec_unexpose J body, rq_zone = dec_zone J body\<rparr> of
             Panic \<Rightarrow> (Inl ''EOF'', n)
           | Ret (rep, n') \<Rightarrow>
               (Inr (case rep of Plain resp \<Rightarrow> (status resp, Inr (resp_body resp)) | _ \<Rightarrow> (StatusOK, Inr (enc_reply J rep))), n')))"

subsection \<open>Tunnels\<close>

definition tunnel_url :: "string \<Rightarrow> int \<Rightarrow> string" where
  "tunnel_url addr port = ''/tunnel?ip='' @ addr @ ''&port='' @ Itoa port"

text \<open>
  \<open>send\<close> is what building the request for a URL and writing it returns, \<open>e\<close> and \<open>input\<close> what the
  connection then delivers.
\<close>

definition Tunnel :: "(string \<Rightarrow> gerror option) \<Rightarrow> gerror \<Rightarrow> bytes \<Rightarrow> string \<Rightarrow> int \<Rightarrow> gerror option" where
  "Tunnel send e input addr port =
     (case send (tunnel_url addr port) of
        Some err \<Rightarrow> Some err
      | None \<Rightarrow>
          (case ReadFull 2 e input of
             Inl err \<Rightarrow> Some err
           | Inr (ok, _) \<Rightarrow> if bytes_string ok \<noteq> ''OK'' then Some ''handshake failed'' else None))"

text \<open>The request the server sees.\<close>

definition tunnel_request :: "string \<Rightarrow> request result" where
  "tunnel_request url =
     (case url_Parse url of
        Inl err \<Rightarrow> Inl err
      | Inr u \<Rightarrow> Inr \<lparr>rq_method = POST, rq_path = url_Path u, rq_query = url_Query u, rq_remote = [], rq_hijack = None,
          rq_expose = Inl ''EOF'', rq_unexpose = Inl ''EOF'', rq_zone = Inl ''EOF''\<rparr>)"

subsection \<open>Client and server together\<close>

text \<open>The remote address the server exposes for a request: the peer's host completes an empty one.\<close>

definition resolved :: "ExposeRequest \<Rightarrow> string \<Rightarrow> string result" where
  "resolved req ra =
     (let protocol = default_protocol (ex_Protocol req)
      in if protocol \<noteq> UNIX \<and> protocol \<noteq> NPIPE then remote req ra else Inr (ex_Remote req))"

lemma remote_protocol [simp]: "remote (req\<lparr>ex_Protocol := pr\<rparr>) ra = remote req ra"
  by (auto simp: remote_def split: sum.split)

lemma codec_laws:
  assumes "codec_ok J"
  shows "enc_expose J r = Inr b \<Longrightarrow> dec_expose J b = Inr r"
    and "enc_unexpose J u = Inr b \<Longrightarrow> dec_unexpose J b = Inr u"
    and "dec_ports J (enc_reply J (Proxies ps)) = Inr (map proxy_request ps)"
  using assms unfolding codec_ok_def by blast+

lemma vn_transport_expose:
  assumes "codec_ok J" "enc_expose J req = Inr b"
  shows "vn_transport J E pes ra base POST (base @ ''/services/forwarder/expose'') b n =
    (case ports_expose E POST (Inr req) ra (sv_ports (vn_services n)) of
       Panic \<Rightarrow> (Inl ''EOF'', n)
     | Ret (resp, fw) \<Rightarrow> (Inr (status resp, Inr (resp_body resp)), n\<lparr>vn_services := (vn_services n)\<lparr>sv_ports := fw\<rparr>\<rparr>))"
  using codec_laws(1) [OF assms]
  by (cases "ports_expose E POST (Inr req) ra (sv_ports (vn_services n))")
    (auto simp: vn_transport_def vn_serve_def vn_route_spec vn_paths_def)

lemma vn_transport_unexpose:
  assumes "codec_ok J" "enc_unexpose J req = Inr b"
  shows "vn_transport J E pes ra base POST (base @ ''/services/forwarder/unexpose'') b n =
    (case ports_unexpose POST (Inr req) (sv_ports (vn_services n)) of
       (resp, fw) \<Rightarrow> (Inr (status resp, Inr (resp_body resp)), n\<lparr>vn_services := (vn_services n)\<lparr>sv_ports := fw\<rparr>\<rparr>))"
  using codec_laws(2) [OF assms] by (simp add: vn_transport_def vn_serve_def vn_route_spec vn_paths_def split: prod.split)

lemma client_List_eq:
  assumes "codec_ok J"
  shows "client_List J (client_New (vn_transport J E pes ra base) base) n = (Inr (map proxy_request (ports_all (pes n))), n)"
  using codec_laws(3) [OF assms]
  by (simp add: client_List_def client_get_def vn_transport_def vn_serve_def vn_route_spec vn_paths_def)

lemma client_Expose_ok:
  assumes "codec_ok J" "client_Expose J (client_New (vn_transport J E pes ra base) base) req n = (None, n')"
  shows "\<exists>rem fw. resolved req ra = Inr rem
    \<and> Expose E (default_protocol (ex_Protocol req)) (ex_Local req) rem (sv_ports (vn_services n)) = Ret (None, fw)
    \<and> n' = n\<lparr>vn_services := (vn_services n)\<lparr>sv_ports := fw\<rparr>\<rparr>"
proof -
  obtain b where b: "enc_expose J req = Inr b"
    using assms(2) by (cases "enc_expose J req") (auto simp: client_Expose_def client_post_def)
  note t = vn_transport_expose [OF assms(1) b, of E pes ra base n]
  obtain resp fw where r: "ports_expose E POST (Inr req) ra (sv_ports (vn_services n)) = Ret (resp, fw)" "status resp = 200"
    "n' = n\<lparr>vn_services := (vn_services n)\<lparr>sv_ports := fw\<rparr>\<rparr>"
    using assms(2) b t
    by (cases "ports_expose E POST (Inr req) ra (sv_ports (vn_services n))")
      (auto simp: client_Expose_def client_post_def split: if_splits prod.splits)
  from r(1,2) show ?thesis using r(3)
    by (auto simp: ports_expose_def resolved_def Let_def bind_exec_Ret_iff split: sum.splits if_splits option.splits prod.splits)
qed

lemma client_Unexpose_eq:
  assumes "codec_ok J" "enc_unexpose J req = Inr b"
    and "Unexpose (default_protocol (un_Protocol req)) (un_Local req) (sv_ports (vn_services n)) = (None, fw)"
  shows "client_Unexpose J (client_New (vn_transport J E pes ra base) base) req n = (None, n\<lparr>vn_services := (vn_services n)\<lparr>sv_ports := fw\<rparr>\<rparr>)"
  using assms(2,3) vn_transport_unexpose [OF assms(1,2), of E pes ra base n]
  by (simp add: client_Unexpose_def client_post_def ports_unexpose_def)

text \<open>
  C35. Exposing over the API works end to end. When the client's \<open>Expose\<close> returns no error, its
  \<open>List\<close> then returns the new entry, with the remote address completed from the peer where it was
  left out, and the other entries as they were.
\<close>

theorem client_Expose_List:
  assumes "codec_ok J" "client_Expose J (client_New (vn_transport J E pes ra base) base) req n = (None, n')"
    and "enumerates (pes n') (proxies (sv_ports (vn_services n')))"
  shows "\<exists>rem reqs. resolved req ra = Inr rem \<and> client_List J (client_New (vn_transport J E pes ra base) base) n' = (Inr reqs, n')
    \<and> set reqs = insert \<lparr>ex_Local = ex_Local req, ex_Remote = rem, ex_Protocol = default_protocol (ex_Protocol req)\<rparr>
        (proxy_request ` ran ((proxies (sv_ports (vn_services n)))(key (default_protocol (ex_Protocol req)) (ex_Local req) := None)))"
proof -
  let ?pr = "default_protocol (ex_Protocol req)" and ?st = "sv_ports (vn_services n)"
  obtain rem fw where x: "resolved req ra = Inr rem" "Expose E ?pr (ex_Local req) rem ?st = Ret (None, fw)"
    "n' = n\<lparr>vn_services := (vn_services n)\<lparr>sv_ports := fw\<rparr>\<rparr>"
    using client_Expose_ok [OF assms(1,2)] by blast
  obtain t addr c where a: "added ?st fw ?pr (ex_Local req) rem ?pr addr t c" using Expose_added [OF x(2)] by blast
  have p: "proxies fw = (proxies ?st)(key ?pr (ex_Local req) \<mapsto>
      \<lparr>proxy_Local = ex_Local req, proxy_Remote = rem, proxy_Protocol = ?pr, underlying = c\<rparr>)"
    using a by (simp add: added_def)
  have en: "enumerates (pes n') (proxies fw)" using assms(3) x(3) by simp
  have s: "set (ports_all (pes n')) = ran (proxies fw)"
    using enumerates_in_set [OF en] by (force simp: ports_all_def ran_def)
  have "ran (proxies fw) = insert \<lparr>proxy_Local = ex_Local req, proxy_Remote = rem, proxy_Protocol = ?pr, underlying = c\<rparr>
      (ran ((proxies ?st)(key ?pr (ex_Local req) := None)))"
    unfolding p by (auto simp: ran_def split: if_splits)
  then have "set (map proxy_request (ports_all (pes n'))) =
      insert \<lparr>ex_Local = ex_Local req, ex_Remote = rem, ex_Protocol = ?pr\<rparr>
        (proxy_request ` ran ((proxies ?st)(key ?pr (ex_Local req) := None)))"
    by (simp add: s proxy_request_def)
  then show ?thesis using x(1) client_List_eq [OF assms(1), of E pes ra base n'] by blast
qed

text \<open>
  Unexposing over the API undoes exposing over the API: the network is as before but for the
  number of the next listener.
\<close>

lemma client_Expose_Unexpose:
  assumes "codec_ok J" "(ports_step E True)\<^sup>*\<^sup>* NewPortsForwarder (sv_ports (vn_services n))"
    and "key (default_protocol (ex_Protocol req)) (ex_Local req) \<notin> dom (proxies (sv_ports (vn_services n)))"
    and "client_Expose J (client_New (vn_transport J E pes ra base) base) req n = (None, n')"
    and "enc_unexpose J \<lparr>un_Local = ex_Local req, un_Protocol = ex_Protocol req\<rparr> = Inr b"
  shows "\<exists>k. client_Unexpose J (client_New (vn_transport J E pes ra base) base) \<lparr>un_Local = ex_Local req, un_Protocol = ex_Protocol req\<rparr> n'
    = (None, n\<lparr>vn_services := (vn_services n)\<lparr>sv_ports := (sv_ports (vn_services n))\<lparr>fresh_sock := k\<rparr>\<rparr>\<rparr>)"
proof -
  obtain rem fw where x: "Expose E (default_protocol (ex_Protocol req)) (ex_Local req) rem (sv_ports (vn_services n)) = Ret (None, fw)"
    "n' = n\<lparr>vn_services := (vn_services n)\<lparr>sv_ports := fw\<rparr>\<rparr>"
    using client_Expose_ok [OF assms(1,4)] by blast
  have "Unexpose (default_protocol (ex_Protocol req)) (ex_Local req) fw =
      (None, (sv_ports (vn_services n))\<lparr>fresh_sock := Suc (fresh_sock (sv_ports (vn_services n)))\<rparr>)"
    by (rule Expose_Unexpose_eq [OF assms(2,3) x(1)])
  then have "client_Unexpose J (client_New (vn_transport J E pes ra base) base) \<lparr>un_Local = ex_Local req, un_Protocol = ex_Protocol req\<rparr> n'
      = (None, n\<lparr>vn_services := (vn_services n)\<lparr>sv_ports :=
          (sv_ports (vn_services n))\<lparr>fresh_sock := Suc (fresh_sock (sv_ports (vn_services n)))\<rparr>\<rparr>\<rparr>)"
    using client_Unexpose_eq [OF assms(1,5), of n' _ E pes ra base] x(2) by simp
  then show ?thesis by blast
qed

subsection \<open>A tunnel end to end\<close>

lemma digits_plain:
  assumes "digit_val c \<noteq> None \<or> c = CHR ''.''"
  shows "\<not> is_ctl c \<and> c \<notin> {CHR ''#'', CHR ''%'', CHR ''+'', CHR '';'', CHR ''&'', CHR ''=''}"
proof -
  have "c = CHR ''.'' \<or> is_digit c" using assms by (auto simp: is_digit_def)
  then show ?thesis using is_alnum_ok [OF is_digit_alnum, of c] by (auto simp: is_ctl_def digit_val_def is_digit_def)
qed

lemma tunnel_request_eq:
  assumes "length a = 4"
  shows "\<exists>r. tunnel_request (tunnel_url (dotted a) (int p)) = Inr r \<and> rq_path r = ''/tunnel'' \<and> rq_hijack r = None
    \<and> query_Get (rq_query r) ''ip'' = dotted a \<and> query_Get (rq_query r) ''port'' = itoa_nat p"
proof -
  let ?q = "''ip='' @ dotted a @ ''&port='' @ itoa_nat p"
  have da: "c \<in> set (dotted a) \<Longrightarrow> \<not> is_ctl c \<and> c \<notin> {CHR ''#'', CHR ''%'', CHR ''+'', CHR '';'', CHR ''&'', CHR ''=''}" for c
    using dotted_chars [OF assms, of c] by (intro digits_plain)
  have dp: "c \<in> set (itoa_nat p) \<Longrightarrow> \<not> is_ctl c \<and> c \<notin> {CHR ''#'', CHR ''%'', CHR ''+'', CHR '';'', CHR ''&'', CHR ''=''}" for c
    using itoa_nat_digits [of c p] by (intro digits_plain) simp
  have "list_all (\<lambda>c. \<not> is_ctl c \<and> c \<noteq> CHR ''#'') ?q"
    using da dp by (simp add: list_all_append) (auto simp: list_all_iff is_ctl_def)
  moreover have "path_plain ''/tunnel''" "\<not> HasPrefix ''tunnel'' ''/''" by code_simp+
  ultimately have u: "url_Parse (''/tunnel?'' @ ?q) = Inr (empty_URL\<lparr>url_Path := ''/tunnel'', RawQuery := ?q\<rparr>)"
    using url_Parse_query [of "''tunnel''" ?q] by simp
  have "CHR ''&'' \<notin> set (''ip='' @ dotted a)" "CHR ''&'' \<notin> set (''port='' @ itoa_nat p)" using da dp by auto
  then have "Split ?q (CHR ''&'') = [''ip='' @ dotted a, ''port='' @ itoa_nat p]"
    using Split_append_sep [of "CHR ''&''" "''ip='' @ dotted a" "''port='' @ itoa_nat p"] by (simp add: Split_no_sep)
  moreover have "query_pair (''ip'' @ CHR ''='' # dotted a) = [(''ip'', dotted a)]"
    "query_pair (''port'' @ CHR ''='' # itoa_nat p) = [(''port'', itoa_nat p)]"
    by (rule query_pair_plain; use da dp in \<open>auto\<close>)+
  ultimately have "url_Query (empty_URL\<lparr>url_Path := ''/tunnel'', RawQuery := ?q\<rparr>) = [(''ip'', dotted a), (''port'', itoa_nat p)]"
    by (simp add: url_Query_def)
  then show ?thesis using u by (simp add: tunnel_request_def tunnel_url_def Itoa_def query_Get_def query_values_def)
qed

text \<open>
  A tunnel that a client asks for with an IPv4 address and a port reaches the address: the URL
  it sends is parsed back by the server, which connects the tunnel to that address and that port
  (reduced to 16 bits) and answers with the two bytes that the client waits for.
\<close>

lemma Tunnel_dials:
  assumes "length a = 4" "p < 2 ^ 63"
  shows "\<exists>r. tunnel_request (tunnel_url (dotted a) (int p)) = Inr r
    \<and> vn_serve E pes ces stats n r = Ret (Tunnelled \<lparr>fa_NIC = 1, fa_Addr = a, fa_Port = of_nat p\<rparr>, n)
    \<and> Tunnel (\<lambda>_. None) e ([79, 75] @ rest) (dotted a) (int p) = None"
proof -
  obtain r where r: "tunnel_request (tunnel_url (dotted a) (int p)) = Inr r" "rq_path r = ''/tunnel''" "rq_hijack r = None"
    "query_Get (rq_query r) ''ip'' = dotted a" "query_Get (rq_query r) ''port'' = itoa_nat p"
    using tunnel_request_eq [OF assms(1)] by blast
  have "dotted a \<noteq> []" using assms(1) by (auto simp: length_4_iff dotted_4)
  then have "tunnel r = Ret (Tunnelled \<lparr>fa_NIC = 1, fa_Addr = a, fa_Port = of_nat p\<rparr>)"
    using r assms by (simp add: tunnel_def Atoi_itoa AddrFrom4Slice_def)
  then have "vn_serve E pes ces stats n r = Ret (Tunnelled \<lparr>fa_NIC = 1, fa_Addr = a, fa_Port = of_nat p\<rparr>, n)"
    using r(2) by (simp add: vn_serve_def vn_route_spec vn_paths_def)
  moreover have "bytes_string [79, 75] = ''OK''" by code_simp
  ultimately show ?thesis using r(1) by (auto simp: Tunnel_def ReadFull_def)
qed

subsection \<open>A sample codec and a sample session\<close>

text \<open>Strings are written with a mark before every character and a stop after the last one.\<close>

definition enc_str :: "string \<Rightarrow> string" where
  "enc_str s = concat (map (\<lambda>c. [CHR ''x'', c]) s) @ ''.''"

fun dec_strs :: "string \<Rightarrow> string \<Rightarrow> string list option" where
  "dec_strs acc [] = (if acc = [] then Some [] else None)"
| "dec_strs acc [c] = (if c = CHR ''x'' then None else Some [acc])"
| "dec_strs acc (c # d # s) =
     (if c = CHR ''x'' then dec_strs (acc @ [d]) s else map_option ((#) acc) (dec_strs [] (d # s)))"

lemma dec_strs_enc: "dec_strs acc (enc_str s @ rest) = map_option ((#) (acc @ s)) (dec_strs [] rest)"
proof (induction s arbitrary: acc)
  case Nil
  show ?case by (cases rest) (simp_all add: enc_str_def)
next
  case (Cons c s)
  have "dec_strs acc (enc_str (c # s) @ rest) = dec_strs (acc @ [c]) (enc_str s @ rest)" by (simp add: enc_str_def)
  then show ?case using Cons by simp
qed

lemma dec_strs_concat: "dec_strs [] (concat (map enc_str ss)) = Some ss"
  by (induction ss) (simp_all add: dec_strs_enc)

fun triples :: "string list \<Rightarrow> ExposeRequest list result" where
  "triples [] = Inr []"
| "triples (l # r # p # ss) =
     (case triples ss of Inl e \<Rightarrow> Inl e | Inr rs \<Rightarrow> Inr (\<lparr>ex_Local = l, ex_Remote = r, ex_Protocol = p\<rparr> # rs))"
| "triples _ = Inl ''bad''"

definition sample_codec :: json_codec where
  "sample_codec =
     \<lparr>enc_expose = (\<lambda>r. Inr (concat (map enc_str [ex_Local r, ex_Remote r, ex_Protocol r]))),
      dec_expose = (\<lambda>b. case dec_strs [] b of
          Some [l, r, p] \<Rightarrow> Inr \<lparr>ex_Local = l, ex_Remote = r, ex_Protocol = p\<rparr> | _ \<Rightarrow> Inl ''bad''),
      enc_unexpose = (\<lambda>r. Inr (concat (map enc_str [un_Local r, un_Protocol r]))),
      dec_unexpose = (\<lambda>b. case dec_strs [] b of
          Some [l, p] \<Rightarrow> Inr \<lparr>un_Local = l, un_Protocol = p\<rparr> | _ \<Rightarrow> Inl ''bad''),
      enc_zone = (\<lambda>_. Inl ''bad''), dec_zone = (\<lambda>_. Inl ''bad''),
      enc_reply = (\<lambda>r. case r of
          Proxies ps \<Rightarrow> concat (map enc_str (concat (map (\<lambda>p. [proxy_Local p, proxy_Remote p, proxy_Protocol p]) ps))) | _ \<Rightarrow> []),
      dec_ports = (\<lambda>b. case dec_strs [] b of Some ss \<Rightarrow> triples ss | None \<Rightarrow> Inl ''bad''),
      dec_zones = (\<lambda>_. Inl ''bad'')\<rparr>"

lemma triples_proxies: "triples (concat (map (\<lambda>p. [proxy_Local p, proxy_Remote p, proxy_Protocol p]) ps)) = Inr (map proxy_request ps)"
  by (induction ps) (simp_all add: proxy_request_def)

lemma sample_codec_ok: "codec_ok sample_codec"
proof -
  have "dec_strs [] (enc_str s) = Some [s]" for s using dec_strs_concat [of "[s]"] by simp
  then show ?thesis
    unfolding codec_ok_def sample_codec_def by (simp add: dec_strs_concat triples_proxies dec_strs_enc del: map_concat)
qed

definition sample_vn :: VirtualNetwork where
  "sample_vn = network_spec sample_net [192, 168, 127, 0] 24 [192, 168, 127, 1] gateway_mac NewPortsForwarder"

definition sample_expose :: ExposeRequest where
  "sample_expose = \<lparr>ex_Local = ''/tmp/x.sock'', ex_Remote = ''tcp://192.168.127.2:80'', ex_Protocol = ''unix''\<rparr>"

abbreviation sample_transport :: "VirtualNetwork transport" where
  "sample_transport \<equiv> vn_transport sample_codec free_ports (\<lambda>_. [(''unix//tmp/x.sock'', sample_entry 0)]) ''192.168.127.2:4000'' ''http://unix''"

lemma sample_client_expose:
  "client_Expose sample_codec (client_New sample_transport ''http://unix'') sample_expose sample_vn =
     (None, sample_vn\<lparr>vn_services := (vn_services sample_vn)\<lparr>sv_ports := exposed_once\<rparr>\<rparr>)"
proof -
  have "sv_ports (vn_services sample_vn) = NewPortsForwarder" by (simp add: sample_vn_def network_spec_def)
  then have "ports_expose free_ports POST (Inr sample_expose) ''192.168.127.2:4000'' (sv_ports (vn_services sample_vn)) = Ret (http_OK, exposed_once)"
    using sample_once by (simp add: ports_expose_def sample_expose_def default_protocol_def TransportProtocol_defs)
  moreover obtain b where b: "enc_expose sample_codec sample_expose = Inr b" by (simp add: sample_codec_def)
  ultimately show ?thesis
    using vn_transport_expose [OF sample_codec_ok b, of free_ports "\<lambda>_. [(''unix//tmp/x.sock'', sample_entry 0)]"
        "''192.168.127.2:4000''" "''http://unix''" sample_vn]
    by (simp add: client_Expose_def client_post_def)
qed

theorem client_Expose_List_witness:
  "\<exists>reqs. fst (client_List sample_codec (client_New sample_transport ''http://unix'')
      (sample_vn\<lparr>vn_services := (vn_services sample_vn)\<lparr>sv_ports := exposed_once\<rparr>\<rparr>)) = Inr reqs \<and> sample_expose \<in> set reqs"
  using client_Expose_List [OF sample_codec_ok sample_client_expose]
  by (simp add: exposed_once_def enumerates_def sample_expose_def resolved_def default_protocol_def TransportProtocol_defs)
    (metis fst_conv insertI1)

end
