(* ===== verification/UdpFlow.thy ===== *)
theory UdpFlow
  imports Forwarder
begin

text \<open>
  The life of an outgoing UDP flow: the listener that stops a proxy after a time without traffic
  (\<open>autoStoppingListener\<close> of \<open>pkg/services/forwarder/udp_proxy.go\<close>), and the proxy \<open>udp.go\<close> starts on it, with a
  clock. Time is in seconds.

  The endpoint of a flow is registered in the network stack; the stack puts the datagrams of the flow
  into its queue, and calls the forwarder only for datagrams without an endpoint. The clock and the
  arrival of datagrams and replies are steps of the environment. A read fails not before its
  deadline; what \<open>Run\<close> does with a datagram, tracking and forwarding, is the matter of \<open>UdpProxy\<close>.
\<close>

definition UDPConnTrackTimeout :: nat where
  "UDPConnTrackTimeout = 90"

subsection \<open>The listener\<close>

text \<open>The connection of an endpoint, as far as deadlines go.\<close>

record udp_conn =
  uc_deadline :: nat
  uc_open :: bool

definition SetReadDeadline :: "udp_conn \<Rightarrow> nat \<Rightarrow> udp_conn" where
  "SetReadDeadline c t = c\<lparr>uc_deadline := t\<rparr>"

record autoStoppingListener =
  asl_underlying :: udp_conn

text \<open>\<open>now\<close> is the time of the call; reading and writing themselves are steps below.\<close>

definition asl_ReadFrom :: "nat \<Rightarrow> autoStoppingListener \<Rightarrow> autoStoppingListener" where
  "asl_ReadFrom now l = l\<lparr>asl_underlying := SetReadDeadline (asl_underlying l) (now + UDPConnTrackTimeout)\<rparr>"

definition asl_WriteTo :: "nat \<Rightarrow> autoStoppingListener \<Rightarrow> autoStoppingListener" where
  "asl_WriteTo now l = l\<lparr>asl_underlying := SetReadDeadline (asl_underlying l) (now + UDPConnTrackTimeout)\<rparr>"

definition asl_SetReadDeadline :: "nat \<Rightarrow> autoStoppingListener \<Rightarrow> autoStoppingListener" where
  "asl_SetReadDeadline t l = l\<lparr>asl_underlying := SetReadDeadline (asl_underlying l) t\<rparr>"

definition asl_Close :: "autoStoppingListener \<Rightarrow> autoStoppingListener" where
  "asl_Close l = l\<lparr>asl_underlying := (asl_underlying l)\<lparr>uc_open := False\<rparr>\<rparr>"

subsection \<open>The flow\<close>

text \<open>\<open>Run\<close> waits in \<open>ReadFrom\<close>, handles a datagram, or has ended.\<close>

datatype run_point = Waiting | Handling bytes | Stopped

text \<open>\<open>fl_log\<close> lists the datagrams of both directions with their times: those read, and those replied.\<close>

record flow =
  fl_listener :: autoStoppingListener
  fl_run :: run_point
  fl_queue :: "bytes list"
  fl_clock :: nat
  fl_log :: "(nat \<times> bytes) list"
  fl_forwarded :: "bytes list"

abbreviation fl_deadline :: "flow \<Rightarrow> nat" where
  "fl_deadline s \<equiv> uc_deadline (asl_underlying (fl_listener s))"

abbreviation fl_open :: "flow \<Rightarrow> bool" where
  "fl_open s \<equiv> uc_open (asl_underlying (fl_listener s))"

text \<open>The handler of a first datagram: the endpoint is created with the datagram in its queue, and \<open>Run\<close> begins to read.\<close>

definition start_flow :: "nat \<Rightarrow> bytes \<Rightarrow> flow" where
  "start_flow now d = \<lparr>fl_listener = asl_ReadFrom now \<lparr>asl_underlying = \<lparr>uc_deadline = 0, uc_open = True\<rparr>\<rparr>,
     fl_run = Waiting, fl_queue = [d], fl_clock = now, fl_log = [], fl_forwarded = []\<rparr>"

inductive flow_step :: "flow \<Rightarrow> flow \<Rightarrow> bool" where
  flow_tick: "flow_step s (s\<lparr>fl_clock := fl_clock s + 1\<rparr>)"
| flow_arrive: "fl_open s \<Longrightarrow> flow_step s (s\<lparr>fl_queue := fl_queue s @ [d]\<rparr>)"
| flow_read: "fl_run s = Waiting \<Longrightarrow> fl_queue s = d # ds
    \<Longrightarrow> flow_step s (s\<lparr>fl_run := Handling d, fl_queue := ds, fl_log := fl_log s @ [(fl_clock s, d)]\<rparr>)"
| flow_forward: "fl_run s = Handling d
    \<Longrightarrow> flow_step s (s\<lparr>fl_run := Waiting, fl_listener := asl_ReadFrom (fl_clock s) (fl_listener s), fl_forwarded := fl_forwarded s @ [d]\<rparr>)"
| flow_not_dialled: "fl_run s = Handling d
    \<Longrightarrow> flow_step s (s\<lparr>fl_run := Waiting, fl_listener := asl_ReadFrom (fl_clock s) (fl_listener s)\<rparr>)"
| flow_reply: "flow_step s (s\<lparr>fl_listener := asl_WriteTo (fl_clock s) (fl_listener s), fl_log := fl_log s @ [(fl_clock s, d)]\<rparr>)"
| flow_timeout: "fl_run s = Waiting \<Longrightarrow> fl_deadline s \<le> fl_clock s \<Longrightarrow> flow_step s (s\<lparr>fl_run := Stopped\<rparr>)"

inductive_cases flow_stepE: "flow_step s s'"

inductive flow_reach :: "flow \<Rightarrow> bool" where
  flow_init: "flow_reach (start_flow now d)"
| flow_next: "flow_reach s \<Longrightarrow> flow_step s s' \<Longrightarrow> flow_reach s'"

subsection \<open>Deadlines\<close>

lemma asl_sel [simp]:
  "uc_deadline (asl_underlying (asl_ReadFrom now l)) = now + 90" "uc_open (asl_underlying (asl_ReadFrom now l)) = uc_open (asl_underlying l)"
  "uc_deadline (asl_underlying (asl_WriteTo now l)) = now + 90" "uc_open (asl_underlying (asl_WriteTo now l)) = uc_open (asl_underlying l)"
  by (simp_all add: asl_ReadFrom_def asl_WriteTo_def SetReadDeadline_def UDPConnTrackTimeout_def)

text \<open>While \<open>Run\<close> waits, the deadline is at least 90 seconds after everything that was seen.\<close>

definition flow_inv :: "flow \<Rightarrow> bool" where
  "flow_inv s \<longleftrightarrow> fl_open s \<and> (\<forall>x \<in> set (fl_log s). fst x \<le> fl_clock s)
     \<and> (fl_run s = Waiting \<longrightarrow> (\<forall>x \<in> set (fl_log s). fst x + 90 \<le> fl_deadline s))"

lemma flow_inv_step: "flow_step s s' \<Longrightarrow> flow_inv s \<Longrightarrow> flow_inv s'"
  by (induction rule: flow_step.induct) (auto simp: flow_inv_def)

lemma flow_inv_reach: "flow_reach s \<Longrightarrow> flow_inv s"
proof (induction rule: flow_reach.induct)
  case (flow_init now d)
  show ?case by (simp add: flow_inv_def start_flow_def)
qed (rule flow_inv_step)


lemma stopped_step:
  assumes "flow_step s s'" "fl_run s = Stopped"
  shows "fl_run s' = Stopped \<and> fl_forwarded s' = fl_forwarded s \<and> (\<exists>ds. fl_queue s' = fl_queue s @ ds)"
  using assms by cases auto

text \<open>
  C27. The endpoint of a flow that was given up is never closed: it stays registered in the stack, so the later
  datagrams of the flow go into its queue, where nobody reads them. None of them is forwarded, and the
  forwarder is not asked again.
\<close>

theorem stopped_flow_lost:
  assumes "flow_reach s" "fl_run s = Stopped" "flow_step\<^sup>*\<^sup>* s t"
  shows "fl_open t \<and> fl_forwarded t = fl_forwarded s \<and> (\<exists>ds. fl_queue t = fl_queue s @ ds)"
proof -
  have "flow_reach t" using assms(3,1) by (induction rule: rtranclp_induct) (auto intro: flow_next)
  moreover have "fl_run t = Stopped \<and> fl_forwarded t = fl_forwarded s \<and> (\<exists>ds. fl_queue t = fl_queue s @ ds)"
    using assms(3,2)
  proof (induction rule: rtranclp_induct)
    case (step y z)
    then show ?case using stopped_step [OF step(2)] by auto
  qed simp
  ultimately show ?thesis using flow_inv_reach by (simp add: flow_inv_def)
qed

subsection \<open>Witnesses\<close>

lemma flow_wait: "flow_reach s \<Longrightarrow> flow_reach (s\<lparr>fl_clock := fl_clock s + n\<rparr>)"
proof (induction n)
  case (Suc n)
  then show ?case using flow_next [OF Suc.IH [OF Suc.prems] flow_tick] by simp
qed simp

definition idle_flow :: flow where
  "idle_flow = \<lparr>fl_listener = \<lparr>asl_underlying = \<lparr>uc_deadline = 90, uc_open = True\<rparr>\<rparr>, fl_run = Waiting, fl_queue = [], fl_clock = 90,
     fl_log = [(0, [1])], fl_forwarded = [[1]]\<rparr>"

lemma idle_flow_reach: "flow_reach idle_flow"
proof -
  have "flow_reach (start_flow 0 [1])" by (rule flow_init)
  from flow_next [OF this flow_read [of _ "[1]" "[]"]]
  have "flow_reach ((start_flow 0 [1])\<lparr>fl_run := Handling [1], fl_queue := [], fl_log := [(0, [1])]\<rparr>)" by (simp add: start_flow_def)
  from flow_next [OF this flow_forward [of _ "[1]"]]
  have "flow_reach (idle_flow\<lparr>fl_clock := 0\<rparr>)"
    by (simp add: start_flow_def idle_flow_def asl_ReadFrom_def SetReadDeadline_def UDPConnTrackTimeout_def)
  from flow_wait [OF this, of 90] show ?thesis by (simp add: idle_flow_def)
qed

lemma idle_flow_stops: "flow_step idle_flow (idle_flow\<lparr>fl_run := Stopped\<rparr>)"
  by (rule flow_timeout) (simp_all add: idle_flow_def)


theorem stopped_flow_lost_witness:
  "\<exists>t. flow_reach t \<and> fl_queue t = [[2]] \<and> fl_open t \<and> fl_forwarded t = [[1]]"
proof -
  let ?s = "idle_flow\<lparr>fl_run := Stopped\<rparr>" and ?t = "idle_flow\<lparr>fl_run := Stopped, fl_queue := [[2]]\<rparr>"
  have s: "flow_reach ?s" by (rule flow_next [OF idle_flow_reach idle_flow_stops])
  have st: "flow_step ?s ?t" using flow_arrive [of ?s "[2]"] by (simp add: idle_flow_def)
  then have "fl_open ?t \<and> fl_forwarded ?t = fl_forwarded ?s"
    using stopped_flow_lost [OF s _ r_into_rtranclp [of flow_step, OF st]] by simp
  then show ?thesis using flow_next [OF s st] by (intro exI [of _ ?t]) (simp add: idle_flow_def)
qed

end
