(* ===== verification/Runtime.thy ===== *)
theory Runtime
  imports VirtualNetwork
begin

text \<open>
  A virtual network at work. The components that \<open>New\<close> of \<open>pkg/virtualnetwork\<close> has put together are driven by
  goroutines of their own: those of the switch (one per virtual machine), the loop of the DHCP
  server, the proxies of exposed ports and the HTTP interface. A run interleaves their operations.
  The parts they change are guarded by locks of their own, so an operation of one component is one
  step; inside of the switch the finer steps of \<open>sw_step\<close> are kept.

  The ghost field lists what the DHCP server was sent and has answered.
\<close>

subsection \<open>Runs\<close>

record net_run =
  nr_vn :: VirtualNetwork
  nr_active :: "int \<rightharpoonup> protocolConn"
  nr_answers :: "(bytes \<times> bytes) list"

abbreviation nr_pool :: "net_run \<Rightarrow> IPPool" where
  "nr_pool st \<equiv> vn_ipPool (nr_vn st)"

abbreviation nr_switch :: "net_run \<Rightarrow> switch" where
  "nr_switch st \<equiv> vn_networkSwitch (nr_vn st)"

abbreviation nr_ports :: "net_run \<Rightarrow> PortsForwarder" where
  "nr_ports st \<equiv> sv_ports (vn_services (nr_vn st))"

definition set_ports :: "VirtualNetwork \<Rightarrow> PortsForwarder \<Rightarrow> VirtualNetwork" where
  "set_ports n fw = n\<lparr>vn_services := (vn_services n)\<lparr>sv_ports := fw\<rparr>\<rparr>"

inductive net_step :: "net_env \<Rightarrow> ports_env \<Rightarrow> net_run \<Rightarrow> net_run \<Rightarrow> bool" for NE PE where
  net_switch: "sw_step NE (nr_switch st, nr_active st) (s', A')
    \<Longrightarrow> net_step NE PE st (st\<lparr>nr_vn := (nr_vn st)\<lparr>vn_networkSwitch := s'\<rparr>, nr_active := A'\<rparr>)"
| net_dhcp: "enumerates es (leases (nr_pool st))
    \<Longrightarrow> serve_datagram (vn_configuration (nr_vn st)) es xid (nr_pool st) peer datagram = Ret (p', out)
    \<Longrightarrow> net_step NE PE st (st\<lparr>nr_vn := (nr_vn st)\<lparr>vn_ipPool := p'\<rparr>,
          nr_answers := nr_answers st @ (case out of None \<Rightarrow> [] | Some (_, b) \<Rightarrow> [(datagram, b)])\<rparr>)"
| net_http: "enumerates pes (proxies (nr_ports st)) \<Longrightarrow> enumerates ces (cam (nr_switch st))
    \<Longrightarrow> vn_serve PE pes ces stats (nr_vn st) r = Ret (rep, n') \<Longrightarrow> net_step NE PE st (st\<lparr>nr_vn := n'\<rparr>)"
| net_proxy: "HandleConn PE k (nr_ports st) = (r, fw') \<Longrightarrow> net_step NE PE st (st\<lparr>nr_vn := set_ports (nr_vn st) fw'\<rparr>)"

inductive_cases net_stepE: "net_step NE PE st st'"

inductive net_reach :: "net_env \<Rightarrow> ports_env \<Rightarrow> VirtualNetwork \<Rightarrow> net_run \<Rightarrow> bool" for NE PE vn where
  net_init: "net_reach NE PE vn \<lparr>nr_vn = vn, nr_active = Map.empty, nr_answers = []\<rparr>"
| net_next: "net_reach NE PE vn st \<Longrightarrow> net_step NE PE st st' \<Longrightarrow> net_reach NE PE vn st'"

subsection \<open>Well-formed states\<close>

text \<open>Every answer told an address that the table of leases shows for the client that asked.\<close>

definition answer_recorded :: "(string \<rightharpoonup> string) \<Rightarrow> bytes \<times> bytes \<Rightarrow> bool" where
  "answer_recorded t x \<longleftrightarrow> (\<exists>m d. dhcp_FromBytes (take 4096 (fst x)) = Inr m \<and> dhcp_FromBytes (snd x) = Inr d
     \<and> length (YourIPAddr d) = 4 \<and> t (dotted (YourIPAddr d)) = Some (MAC_String (ClientHWAddr m)))"

definition net_wf :: "VirtualNetwork \<Rightarrow> net_run \<Rightarrow> bool" where
  "net_wf vn st \<longleftrightarrow>
     sw_inv (nr_switch st, nr_active st) \<and> gateway (nr_switch st) = gateway (vn_networkSwitch vn)
     \<and> pool_wf (nr_pool st) \<and> pool_base (nr_pool st) = pool_base (vn_ipPool vn)
     \<and> leases (vn_ipPool vn) \<subseteq>\<^sub>m leases (nr_pool st)
     \<and> ports_wf (nr_ports st)
     \<and> vn_configuration (nr_vn st) = vn_configuration vn \<and> vn_stack (nr_vn st) = vn_stack vn
     \<and> list_all (answer_recorded (leases (nr_pool st))) (nr_answers st)"

lemma answer_recorded_mono: "answer_recorded t x \<Longrightarrow> t \<subseteq>\<^sub>m t' \<Longrightarrow> answer_recorded t' x"
  unfolding answer_recorded_def map_le_def by (metis domI)

subsection \<open>DHCP\<close>

text \<open>What a datagram does to a well-formed pool; in particular the server does not panic.\<close>

lemma serve_datagram_cases:
  assumes "pool_wf p" "enumerates es (leases p)" "ParseCIDR (cfg_Subnet cfg) = Inr (z, w)"
  shows "\<exists>p' out. serve_datagram cfg es xid p peer datagram = Ret (p', out) \<and> pool_wf p' \<and> pool_base p' = pool_base p
    \<and> leases p \<subseteq>\<^sub>m leases p' \<and> (\<forall>to b. out = Some (to, b) \<longrightarrow> answer_recorded (leases p') (datagram, b))"
proof (cases "dhcp_FromBytes (take 4096 datagram)")
  case (Inl err)
  then show ?thesis using assms(1) by (simp add: serve_datagram_def)
next
  case (Inr m)
  note m = Inr
  show ?thesis
  proof (cases xid)
    case (Inl err)
    then show ?thesis using assms(1) m by (simp add: serve_datagram_def handler_def NewReplyFromRequest_def)
  next
    case (Inr x)
    show ?thesis
    proof (cases rule: handler_cases [OF assms(1,2) request_ok_FromBytes [OF m] assms(3), of x])
      case (1 r)
      then show ?thesis using assms(1) m Inr by (simp add: serve_datagram_def)
    next
      case (2 p' i)
      obtain out where out: "handler cfg es (Inr x) p m = Ret (p', out)"
        "\<forall>b. out = Some b \<longrightarrow> (\<exists>d. dhcp_FromBytes b = Inr d \<and> YourIPAddr d = To4 i)"
        using 2(5) by (auto simp: reply_for_def split: option.splits)
      have "pool_wf p'" unfolding 2(3) by (rule pool_wf_record [OF assms(1) 2(2)])
      moreover have "leases p \<subseteq>\<^sub>m leases p'" using 2(3,4) by (auto simp: map_le_def)
      moreover have "answer_recorded (leases p') (datagram, b)" if "out = Some b" for b
        using out(2) that m 2(2,3) by (auto simp: answer_recorded_def)
      ultimately show ?thesis using m Inr out(1) 2(3) by (auto simp: serve_datagram_def Let_def)
    qed
  qed
qed

text \<open>
  The loop of the server outlives every datagram: it ends with the error of a read only, never
  in a panic, and the pool it leaves is well formed and has kept every lease.
\<close>

lemma dhcp_Serve_ends:
  assumes "pool_wf p" "\<And>p. pool_wf p \<Longrightarrow> enumerates (order p) (leases p)"
    and "ParseCIDR (cfg_Subnet cfg) = Inr (z, w)"
  shows "\<exists>p' outs. dhcp_Serve cfg order p ds err = Ret (p', outs, err) \<and> pool_wf p' \<and> leases p \<subseteq>\<^sub>m leases p'
    \<and> length outs \<le> length ds"
  using assms(1)
proof (induction ds arbitrary: p)
  case (Cons d ds)
  obtain peer xid b where d: "d = (peer, xid, b)" by (cases d)
  from serve_datagram_cases [OF Cons.prems assms(2) [OF Cons.prems] assms(3), of xid peer b]
  obtain p1 out where p1: "serve_datagram cfg (order p) xid p peer b = Ret (p1, out)" "pool_wf p1" "leases p \<subseteq>\<^sub>m leases p1"
    by blast
  from Cons.IH [OF p1(2)] obtain p' outs where i: "dhcp_Serve cfg order p1 ds err = Ret (p', outs, err)" "pool_wf p'"
    "leases p1 \<subseteq>\<^sub>m leases p'" "length outs \<le> length ds" by blast
  then show ?case using d p1 map_le_trans [OF p1(3) i(3)] by (cases out) auto
qed simp

subsection \<open>Steps keep states well-formed\<close>

lemma sw_step_gateway: "sw_step E x y \<Longrightarrow> gateway (fst y) = gateway (fst x)"
proof (induction rule: sw_step.induct)
  case (transmit s d t A s1 s' err)
  then show ?case using shrinks_tx_send [of E s1 t d s' err] learns_sel [of A s s1] by (simp add: shrinks_def)
qed (auto simp: connect_def Let_def)

lemma net_wf_switch:
  assumes "net_wf vn st" "sw_step NE (nr_switch st, nr_active st) (s', A')"
  shows "net_wf vn (st\<lparr>nr_vn := (nr_vn st)\<lparr>vn_networkSwitch := s'\<rparr>, nr_active := A'\<rparr>)"
  using assms(1) sw_inv_step [OF assms(2)] sw_step_gateway [OF assms(2)] by (simp add: net_wf_def)

lemma net_wf_dhcp:
  assumes "net_wf vn st" "enumerates es (leases (nr_pool st))" "ParseCIDR (cfg_Subnet (vn_configuration vn)) = Inr (z, w)"
    and "serve_datagram (vn_configuration (nr_vn st)) es xid (nr_pool st) peer datagram = Ret (p', out)"
  shows "net_wf vn (st\<lparr>nr_vn := (nr_vn st)\<lparr>vn_ipPool := p'\<rparr>,
          nr_answers := nr_answers st @ (case out of None \<Rightarrow> [] | Some (_, b) \<Rightarrow> [(datagram, b)])\<rparr>)"
proof -
  have c: "pool_wf (nr_pool st)" "vn_configuration (nr_vn st) = vn_configuration vn" using assms(1) by (simp_all add: net_wf_def)
  have p': "pool_wf p'" "pool_base p' = pool_base (nr_pool st)" "leases (nr_pool st) \<subseteq>\<^sub>m leases p'"
    "\<And>to b. out = Some (to, b) \<Longrightarrow> answer_recorded (leases p') (datagram, b)"
    using serve_datagram_cases [OF c(1) assms(2,3), of xid peer datagram] assms(4) c(2) by auto
  have "list_all (answer_recorded (leases p')) (nr_answers st)"
    using assms(1) answer_recorded_mono [OF _ p'(3)] by (auto simp: net_wf_def list_all_iff)
  then show ?thesis
    using assms(1) p' map_le_trans [OF _ p'(3)] by (auto simp: net_wf_def split: option.splits)
qed

lemma net_wf_ports:
  assumes "net_wf vn st" "ports_wf fw"
  shows "net_wf vn (st\<lparr>nr_vn := set_ports (nr_vn st) fw\<rparr>)"
  using assms by (simp add: net_wf_def set_ports_def)

lemma net_wf_http:
  assumes "net_wf vn st" "vn_serve PE pes ces stats (nr_vn st) r = Ret (rep, n')"
  shows "net_wf vn (st\<lparr>nr_vn := n'\<rparr>)"
proof -
  have wf: "ports_wf (nr_ports st)" using assms(1) by (simp add: net_wf_def)
  consider "n' = nr_vn st" | fw where "n' = set_ports (nr_vn st) fw" "ports_step PE True (nr_ports st) fw"
    | zs where "n' = (nr_vn st)\<lparr>vn_services := (vn_services (nr_vn st))\<lparr>sv_zones := zs\<rparr>\<rparr>"
    using vn_serve_effect_eq [OF assms(2)] unfolding set_ports_def by blast
  then show ?thesis
  proof cases
    case 2
    then show ?thesis using net_wf_ports [OF assms(1) ports_wf_step [OF 2(2) wf]] by simp
  next
    case 3
    then show ?thesis using assms(1) by (simp add: net_wf_def)
  qed (use assms(1) in simp)
qed

lemma net_wf_step:
  assumes "net_step NE PE st st'" "net_wf vn st" "ParseCIDR (cfg_Subnet (vn_configuration vn)) = Inr (z, w)"
  shows "net_wf vn st'"
  using assms(1)
proof cases
  case (net_switch s' A')
  then show ?thesis using net_wf_switch [OF assms(2)] by simp
next
  case (net_dhcp es xid peer datagram p' out)
  then show ?thesis using net_wf_dhcp [OF assms(2) _ assms(3)] by simp
next
  case (net_http pes ces stats r rep n')
  then show ?thesis using net_wf_http [OF assms(2)] by simp
next
  case (net_proxy k r fw')
  then show ?thesis using net_wf_ports [OF assms(2)] ports_wf_HandleConn assms(2) by (auto simp: net_wf_def)
qed

subsection \<open>From the configuration\<close>

lemma forwardHostVM_steps:
  "forwardHostVM E es fw = Ret (err, fw') \<Longrightarrow> (ports_step E True)\<^sup>*\<^sup>* fw fw'"
proof (induction E es fw arbitrary: fw' rule: forwardHostVM.induct)
  case (2 E local rem es fw)
  let ?x = "if HasPrefix local ''udp:'' then Expose E UDP (TrimPrefix local ''udp:'') rem fw else Expose E TCP local rem fw"
  obtain e fw1 where x: "?x = Ret (e, fw1)" using 2(2) by (cases ?x) auto
  then have s: "ports_step E True fw fw1" by (auto intro: step_expose split: if_splits)
  show ?case
  proof (cases e)
    case None
    then have "forwardHostVM E es fw1 = Ret (err, fw')" using 2(2) x by simp
    then show ?thesis using 2(1) x s None by (metis converse_rtranclp_into_rtranclp)
  next
    case (Some err1)
    then show ?thesis using 2(2) x s by auto
  qed
qed simp

text \<open>The network a configuration describes starts well-formed.\<close>

lemma net_wf_init:
  assumes "config_ok cfg b n g mac" "forwardHostVM E es NewPortsForwarder = Ret (None, fw)"
  shows "net_wf (network_spec cfg b n g mac fw) \<lparr>nr_vn = network_spec cfg b n g mac fw, nr_active = Map.empty, nr_answers = []\<rparr>"
proof -
  have "ports_wf fw" using ports_wf_steps [OF forwardHostVM_steps [OF assms(2)] ports_wf_New(1)] .
  moreover have "sw_inv (vn_networkSwitch (network_spec cfg b n g mac fw), Map.empty)"
    by (simp add: network_spec_def sw_inv_def Connect_def NewSwitch_def)
  ultimately show ?thesis using network_pool [OF assms(1), of fw] by (simp add: net_wf_def network_spec_def)
qed

lemma config_subnet: "config_ok cfg b n g mac \<Longrightarrow> ParseCIDR (cfg_Subnet cfg) = Inr (v4InV6Prefix @ b, v4net b n)"
  using ParseCIDR_print [of b n] by (auto simp: config_ok_def)

lemma net_wf_reach:
  assumes "net_reach NE PE (network_spec cfg b n g mac fw) st" "config_ok cfg b n g mac"
    and "forwardHostVM E es NewPortsForwarder = Ret (None, fw)"
  shows "net_wf (network_spec cfg b n g mac fw) st"
  using assms(1)
proof (induction rule: net_reach.induct)
  case net_init
  then show ?case by (rule net_wf_init [OF assms(2,3)])
next
  case (net_next st st')
  have "cfg_Subnet (vn_configuration (network_spec cfg b n g mac fw)) = cfg_Subnet cfg" by (simp add: network_spec_def)
  then show ?case using net_wf_step [OF net_next(2,3)] config_subnet [OF assms(2)] by metis
qed

text \<open>
  C2. Type safety of the running network: whatever the virtual machines, HTTP clients and DHCP clients do, in
  whatever order, the parts of the network keep their form. Connection numbers in the table were handed
  out; the pool belongs to the same network, has addresses for keys and keeps every reservation; an
  exposed port owns exactly one open listener; the stack and the configuration are those of the start. And
  the DHCP server returns for every datagram: it never panics.
\<close>

theorem network_type_safe:
  assumes "config_ok cfg b n g mac" "env_quiet E" "orders_ok R cfg"
    and "forwardHostVM (env_ports E) (ord_forwards R) NewPortsForwarder = Ret (None, fw)"
    and "vn_New E R cfg = Ret (Inr vn)" "net_reach NE PE vn st"
  shows "net_wf vn st
    \<and> (\<forall>es xid peer d. enumerates es (leases (nr_pool st)) \<longrightarrow>
         serve_datagram (vn_configuration (nr_vn st)) es xid (nr_pool st) peer d \<noteq> Panic)"
proof -
  have vn: "vn = network_spec cfg b n g mac fw" using vn_New_eq [OF assms(1-4)] assms(5) by simp
  have wf: "net_wf vn st" using net_wf_reach [OF assms(6) [unfolded vn] assms(1,4)] vn by simp
  have "vn_configuration (nr_vn st) = cfg" "pool_wf (nr_pool st)" using wf by (auto simp: net_wf_def vn network_spec_def)
  then show ?thesis using wf serve_datagram_cases config_subnet [OF assms(1)] by (metis exec.distinct(1))
qed

text \<open>
  C17. What DHCP clients were told is what the HTTP interface shows: at any later time, after any requests to
  open ports, packets and connections in between, both listings of leases show every address that was
  ever sent to a client, for that client.
\<close>

theorem told_leases_listed:
  assumes "config_ok cfg b n g mac" "env_quiet E" "orders_ok R cfg"
    and "forwardHostVM (env_ports E) (ord_forwards R) NewPortsForwarder = Ret (None, fw)"
    and "vn_New E R cfg = Ret (Inr vn)" "net_reach NE PE vn st"
    and "(q, out) \<in> set (nr_answers st)" "dhcp_FromBytes (take 4096 q) = Inr m" "dhcp_FromBytes out = Inr d"
    and "rq_path r = ''/leases'' \<or> rq_path r = ''/services/dhcp/leases''"
  shows "\<exists>t. vn_serve PE pes ces stats (nr_vn st) r = Ret (LeaseTable t, nr_vn st)
    \<and> t (dotted (YourIPAddr d)) = Some (MAC_String (ClientHWAddr m))"
proof -
  have vn: "vn = network_spec cfg b n g mac fw" using vn_New_eq [OF assms(1-4)] assms(5) by simp
  have "net_wf vn st" using net_wf_reach [OF assms(6) [unfolded vn] assms(1,4)] vn by simp
  then have "leases (nr_pool st) (dotted (YourIPAddr d)) = Some (MAC_String (ClientHWAddr m))"
    using assms(7-9) by (auto simp: net_wf_def list_all_iff answer_recorded_def)
  moreover have "vn_serve PE pes ces stats (nr_vn st) r = Ret (LeaseTable (leases (nr_pool st)), nr_vn st)"
    using assms(10) by (auto simp: vn_serve_def vn_route_spec vn_paths_def Leases_def dhcp_Mux_leases_def)
  ultimately show ?thesis by blast
qed

subsection \<open>Witnesses\<close>

definition discover_bytes :: bytes where
  "discover_bytes = [1, 1, 6, 0, 1, 2, 3, 4] @ replicate 20 0 @ [0x5a, 0x94, 0xef, 0xe4, 0x0c, 0xee] @ replicate 10 0
     @ replicate 192 0 @ [99, 130, 83, 99, 53, 1, 1, 255]"

lemma discover_parsed:
  "\<exists>m. dhcp_FromBytes (take 4096 discover_bytes) = Inr m \<and> MAC_String (ClientHWAddr m) = ''5a:94:ef:e4:0c:ee''
     \<and> answer_type (MessageType m) = Some MessageTypeOffer"
proof -
  have "case dhcp_FromBytes discover_bytes of Inl _ \<Rightarrow> False
    | Inr m \<Rightarrow> MAC_String (ClientHWAddr m) = ''5a:94:ef:e4:0c:ee'' \<and> answer_type (MessageType m) = Some MessageTypeOffer"
    by code_simp
  moreover have "take 4096 discover_bytes = discover_bytes" by (simp add: discover_bytes_def)
  ultimately show ?thesis by (auto split: sum.splits)
qed

definition sample_vn :: VirtualNetwork where
  "sample_vn = network_spec sample_net [192, 168, 127, 0] 24 [192, 168, 127, 1] gateway_mac NewPortsForwarder"

lemma sample_vn_New: "vn_New quiet_stack sample_orders sample_net = Ret (Inr sample_vn)"
  using vn_New_eq [OF sample_ok sample_env] by (simp add: sample_vn_def)

lemma sample_leases:
  "enumerates [(''192.168.127.1'', ''5a:94:ef:e4:0c:dd''), (''192.168.127.2'', ''5a:94:ef:e4:0c:ee'')] (leases (vn_ipPool sample_vn))"
  using network_pool(1) [OF sample_ok] by (simp add: sample_vn_def sample_reservations enumerates_def fun_upd_twist)

text \<open>The client with the static lease asks, and is answered.\<close>

lemma sample_answered_run:
  "\<exists>st out. net_reach quiet_env free_ports sample_vn st \<and> nr_answers st = [(discover_bytes, out)]"
proof -
  let ?es = "[(''192.168.127.1'', ''5a:94:ef:e4:0c:dd''), (''192.168.127.2'', ''5a:94:ef:e4:0c:ee'')]"
  let ?st = "\<lparr>nr_vn = sample_vn, nr_active = Map.empty, nr_answers = []\<rparr>"
  have cfg: "vn_configuration sample_vn = sample_net" by (simp add: sample_vn_def network_spec_def)
  obtain m where m: "dhcp_FromBytes (take 4096 discover_bytes) = Inr m" "MAC_String (ClientHWAddr m) = ''5a:94:ef:e4:0c:ee''"
    "answer_type (MessageType m) = Some MessageTypeOffer" using discover_parsed by blast
  have wf: "pool_wf (vn_ipPool sample_vn)" using network_pool(2) [OF sample_ok] by (simp add: sample_vn_def)
  have "leases (vn_ipPool sample_vn) ''192.168.127.2'' = Some ''5a:94:ef:e4:0c:ee''"
    using sample_leases by (simp add: enumerates_in_set [symmetric, OF sample_leases])
  then have known: "MAC_String (ClientHWAddr m) \<in> ran (leases (vn_ipPool sample_vn))" using m(2) by (auto intro: ranI)
  obtain p' out where "handler sample_net ?es (Inr [9, 9, 9, 9]) (vn_ipPool sample_vn) m = Ret (p', Some out)"
    using known m(3) by (cases rule: handler_cases [OF wf sample_leases request_ok_FromBytes [OF m(1)] config_subnet [OF sample_ok], of "[9, 9, 9, 9]"]) auto
  then have "\<exists>to. serve_datagram sample_net ?es (Inr [9, 9, 9, 9]) (vn_ipPool sample_vn) [] discover_bytes = Ret (p', Some (to, out))"
    using m(1) by (simp add: serve_datagram_def)
  then obtain to where d: "serve_datagram (vn_configuration (nr_vn ?st)) ?es (Inr [9, 9, 9, 9]) (nr_pool ?st) [] discover_bytes = Ret (p', Some (to, out))"
    using cfg by auto
  have "net_reach quiet_env free_ports sample_vn (?st\<lparr>nr_vn := (nr_vn ?st)\<lparr>vn_ipPool := p'\<rparr>, nr_answers := nr_answers ?st @ [(discover_bytes, out)]\<rparr>)"
    using net_next [OF net_init net_dhcp [OF _ d]] sample_leases by simp
  then show ?thesis by (intro exI conjI) auto
qed

theorem network_type_safe_witness:
  "\<exists>st. net_reach quiet_env free_ports sample_vn st \<and> nr_answers st \<noteq> [] \<and> net_wf sample_vn st"
proof -
  obtain st out where st: "net_reach quiet_env free_ports sample_vn st" "nr_answers st = [(discover_bytes, out)]"
    using sample_answered_run by blast
  then show ?thesis using network_type_safe [OF sample_ok sample_env sample_vn_New st(1)] by auto
qed

definition leases_request :: request where
  "leases_request = get_leases\<lparr>rq_path := ''/leases''\<rparr>"

theorem told_leases_listed_witness:
  "\<exists>st out d t. net_reach quiet_env free_ports sample_vn st \<and> (discover_bytes, out) \<in> set (nr_answers st) \<and> dhcp_FromBytes out = Inr d
     \<and> vn_serve free_ports [] [] [] (nr_vn st) leases_request = Ret (LeaseTable t, nr_vn st)
     \<and> t (dotted (YourIPAddr d)) = Some ''5a:94:ef:e4:0c:ee''"
proof -
  obtain st out where st: "net_reach quiet_env free_ports sample_vn st" "nr_answers st = [(discover_bytes, out)]"
    using sample_answered_run by blast
  obtain m where m: "dhcp_FromBytes (take 4096 discover_bytes) = Inr m" "MAC_String (ClientHWAddr m) = ''5a:94:ef:e4:0c:ee''"
    using discover_parsed by blast
  have "net_wf sample_vn st"
    using net_wf_reach [OF st(1) [unfolded sample_vn_def] sample_ok sample_env(3)] by (simp add: sample_vn_def)
  then obtain d where d: "dhcp_FromBytes out = Inr d" using st(2) by (auto simp: net_wf_def answer_recorded_def)
  have "(discover_bytes, out) \<in> set (nr_answers st)" "rq_path leases_request = ''/leases'' \<or> rq_path leases_request = ''/services/dhcp/leases''"
    using st(2) by (simp_all add: leases_request_def)
  then show ?thesis
    using told_leases_listed [OF sample_ok sample_env sample_vn_New st(1) _ m(1) d, of leases_request "[]" "[]" "[]"] st d m(2) by auto
qed

end
