(* ===== verification/Gvproxy.thy ===== *)
theory Gvproxy
  imports GoFlag Transport VirtualNetwork
begin

text \<open>
  The command \<open>gvproxy\<close>, \<open>cmd/gvproxy/main.go\<close>: its flags, the checks on them, the configuration it
  builds, the HTTP interfaces it serves and the tasks \<open>run\<close> starts. The tasks are data: what runs in
  them is modelled where it is defined. The file system and the signals are parameters.

  The lemmas connect the command to the builder of its command line in \<open>pkg/types\<close>, and to the
  components it configures.
\<close>

subsection \<open>Flags\<close>

record gv_flags =
  gv_debug :: bool
  gv_mtu :: int
  gv_endpoints :: "string list"
  vpnkitSocket :: string
  qemuSocket :: string
  bessSocket :: string
  stdioSocket :: string
  vfkitSocket :: string
  forwardSocket :: "string list"
  forwardDest :: "string list"
  forwardUser :: "string list"
  forwardIdentify :: "string list"
  gv_sshPort :: int
  pidFile :: string
  showVersion :: bool

definition gv_defaults :: gv_flags where
  "gv_defaults = \<lparr>gv_debug = False, gv_mtu = 1500, gv_endpoints = [], vpnkitSocket = [], qemuSocket = [], bessSocket = [],
     stdioSocket = [], vfkitSocket = [], forwardSocket = [], forwardDest = [], forwardUser = [], forwardIdentify = [],
     gv_sshPort = 2222, pidFile = [], showVersion = False\<rparr>"

definition arrayFlags_Set :: "string list \<Rightarrow> string \<Rightarrow> string list" where
  "arrayFlags_Set i value = i @ [value]"

definition gv_flag_names :: "string list" where
  "gv_flag_names = [''listen'', ''mtu'', ''ssh-port'', ''listen-vpnkit'', ''listen-qemu'', ''listen-bess'', ''listen-stdio'',
     ''listen-vfkit'', ''forward-sock'', ''forward-dest'', ''forward-user'', ''forward-identity'', ''pid-file'']"

definition gv_formal :: "string \<Rightarrow> bool option" where
  "gv_formal name =
     (if name = ''debug'' \<or> name = ''version'' then Some True
      else if name \<in> set gv_flag_names then Some False else None)"

definition gv_set :: "string \<Rightarrow> string \<Rightarrow> gv_flags \<Rightarrow> gv_flags result" where
  "gv_set name v f =
     (if name = ''version'' then (case set_bool v of Inl err \<Rightarrow> Inl err | Inr b \<Rightarrow> Inr (f\<lparr>showVersion := b\<rparr>))
      else if name = ''listen'' then Inr (f\<lparr>gv_endpoints := arrayFlags_Set (gv_endpoints f) v\<rparr>)
      else if name = ''debug'' then (case set_bool v of Inl err \<Rightarrow> Inl err | Inr b \<Rightarrow> Inr (f\<lparr>gv_debug := b\<rparr>))
      else if name = ''mtu'' then (case set_int v of Inl err \<Rightarrow> Inl err | Inr i \<Rightarrow> Inr (f\<lparr>gv_mtu := i\<rparr>))
      else if name = ''ssh-port'' then (case set_int v of Inl err \<Rightarrow> Inl err | Inr i \<Rightarrow> Inr (f\<lparr>gv_sshPort := i\<rparr>))
      else if name = ''listen-vpnkit'' then Inr (f\<lparr>vpnkitSocket := v\<rparr>)
      else if name = ''listen-qemu'' then Inr (f\<lparr>qemuSocket := v\<rparr>)
      else if name = ''listen-bess'' then Inr (f\<lparr>bessSocket := v\<rparr>)
      else if name = ''listen-stdio'' then Inr (f\<lparr>stdioSocket := v\<rparr>)
      else if name = ''listen-vfkit'' then Inr (f\<lparr>vfkitSocket := v\<rparr>)
      else if name = ''forward-sock'' then Inr (f\<lparr>forwardSocket := arrayFlags_Set (forwardSocket f) v\<rparr>)
      else if name = ''forward-dest'' then Inr (f\<lparr>forwardDest := arrayFlags_Set (forwardDest f) v\<rparr>)
      else if name = ''forward-user'' then Inr (f\<lparr>forwardUser := arrayFlags_Set (forwardUser f) v\<rparr>)
      else if name = ''forward-identity'' then Inr (f\<lparr>forwardIdentify := arrayFlags_Set (forwardIdentify f) v\<rparr>)
      else Inr (f\<lparr>pidFile := v\<rparr>))"

definition gv_flag_set :: "gv_flags flag_set" where
  "gv_flag_set = \<lparr>formal = gv_formal, flag_Set = gv_set\<rparr>"

subsection \<open>Checks\<close>

text \<open>\<open>Stat\<close> returns no error for a file that exists.\<close>

record main_env =
  os_Stat :: "string \<Rightarrow> gerror option"
  pid_Create :: "string \<Rightarrow> gerror option"
  pid_WriteString :: "string \<Rightarrow> gerror option"
  GOOS :: string
  resolv_conf :: "(string list \<times> gerror option) result"

text \<open>The program exits at the first check that fails.\<close>

fun first_error :: "gerror option list \<Rightarrow> gerror option" where
  "first_error [] = None"
| "first_error (c # cs) = (case c of Some err \<Rightarrow> Some err | None \<Rightarrow> first_error cs)"

definition already_exists :: "main_env \<Rightarrow> string \<Rightarrow> gerror option" where
  "already_exists E path = (if os_Stat E path = None then Some (quote path @ '' already exists'') else None)"

definition check_qemu :: "main_env \<Rightarrow> string \<Rightarrow> gerror option" where
  "check_qemu E sock =
     (if sock = [] then None
      else (case url_Parse sock of
          Inl err \<Rightarrow> Some (Wrap err ''invalid value for listen-qemu'')
        | Inr uri \<Rightarrow> if Scheme uri = ''unix'' then already_exists E (url_Path uri) else None))"

definition check_bess :: "main_env \<Rightarrow> string \<Rightarrow> gerror option" where
  "check_bess E sock =
     (if sock = [] then None
      else (case url_Parse sock of
          Inl err \<Rightarrow> Some (Wrap err ''invalid value for listen-bess'')
        | Inr uri \<Rightarrow>
            if Scheme uri \<noteq> ''unixpacket'' then Some ''listen-bess must be unixpacket:// address''
            else already_exists E (url_Path uri)))"

definition check_vfkit :: "main_env \<Rightarrow> string \<Rightarrow> gerror option" where
  "check_vfkit E sock =
     (if sock = [] then None
      else (case url_Parse sock of
          Inl err \<Rightarrow> Some (Wrap err ''invalid value for listen-vfkit'')
        | Inr uri \<Rightarrow>
            if Scheme uri \<noteq> ''unixgram'' then Some ''listen-vfkit must be unixgram:// address''
            else already_exists E (url_Path uri)))"

definition exclusive :: "string \<Rightarrow> string \<Rightarrow> string \<Rightarrow> string \<Rightarrow> gerror option" where
  "exclusive a b na nb =
     (if a \<noteq> [] \<and> b \<noteq> [] then Some (''cannot use '' @ na @ '' and '' @ nb @ '' protocol at the same time'') else None)"

definition check_forwards :: "main_env \<Rightarrow> gv_flags \<Rightarrow> gerror option" where
  "check_forwards E f =
     (let c = length (forwardSocket f) in
      if c \<noteq> length (forwardDest f) \<or> c \<noteq> length (forwardUser f) \<or> c \<noteq> length (forwardIdentify f)
      then Some (''-forward-sock, --forward-dest, --forward-user, and --forward-identity must all be specified together, '' @
             ''the same number of times, or not at all'')
      else first_error (map (\<lambda>i. case os_Stat E (forwardIdentify f ! i) of
               Some err \<Rightarrow> Some (Wrap err (''Identity file '' @ forwardIdentify f ! i @ '' can'' @ [CHR 0x27] @ ''t be loaded''))
             | None \<Rightarrow> None) [0..<c]))"

definition gv_check :: "main_env \<Rightarrow> gv_flags \<Rightarrow> gerror option" where
  "gv_check E f =
     first_error
       [check_qemu E (qemuSocket f), check_bess E (bessSocket f), check_vfkit E (vfkitSocket f),
        exclusive (vpnkitSocket f) (qemuSocket f) ''qemu'' ''vpnkit'',
        exclusive (vpnkitSocket f) (bessSocket f) ''bess'' ''vpnkit'',
        exclusive (qemuSocket f) (bessSocket f) ''qemu'' ''bess'',
        if gv_sshPort f < 1024 \<or> 65535 < gv_sshPort f then Some ''ssh-port value must be between 1024 and 65535'' else None,
        check_forwards E f]"

definition gv_protocol :: "gv_flags \<Rightarrow> Protocol" where
  "gv_protocol f =
     (let protocol = HyperKitProtocol;
          protocol = (if qemuSocket f \<noteq> [] then QemuProtocol else protocol);
          protocol = (if bessSocket f \<noteq> [] then BessProtocol else protocol)
      in if vfkitSocket f \<noteq> [] then VfkitProtocol else protocol)"

subsection \<open>The configuration\<close>

definition gatewayIP :: string where "gatewayIP = ''192.168.127.1''"
definition sshHostPort :: string where "sshHostPort = ''192.168.127.2:22''"
definition hostIP :: string where "hostIP = ''192.168.127.254''"

definition captureFile :: "gv_flags \<Rightarrow> string" where
  "captureFile f = (if \<not> gv_debug f then [] else ''capture.pcap'')"

text \<open>The lines a scanner reads from the file, up to the first that lists search domains, and the error that ended it.\<close>

definition searchDomains :: "main_env \<Rightarrow> string list" where
  "searchDomains E =
     (if GOOS E = ''darwin'' \<or> GOOS E = ''linux'' then
        (case resolv_conf E of
           Inl err \<Rightarrow> []
         | Inr (lines, _) \<Rightarrow>
             (case filter (\<lambda>l. HasPrefix l ''search '') lines of
                l # _ \<Rightarrow> Split (TrimPrefix l ''search '') (CHR '' '')
              | [] \<Rightarrow> []))
      else [])"

definition gv_records :: "Record list" where
  "gv_records = [\<lparr>rec_Name = ''gateway'', rec_IP = ParseIP gatewayIP, rec_Regexp = None\<rparr>,
     \<lparr>rec_Name = ''host'', rec_IP = ParseIP hostIP, rec_Regexp = None\<rparr>]"

definition gv_config :: "main_env \<Rightarrow> gv_flags \<Rightarrow> Configuration" where
  "gv_config E f = \<lparr>cfg_Debug = gv_debug f, cfg_CaptureFile = captureFile f, cfg_MTU = gv_mtu f,
     cfg_Subnet = ''192.168.127.0/24'', cfg_GatewayIP = gatewayIP, cfg_GatewayMacAddress = ''5a:94:ef:e4:0c:dd'',
     cfg_DNS = [\<lparr>zone_Name = ''containers.internal.'', zone_Records = gv_records, zone_DefaultIP = []\<rparr>,
       \<lparr>zone_Name = ''docker.internal.'', zone_Records = gv_records, zone_DefaultIP = []\<rparr>],
     cfg_DNSSearchDomains = searchDomains E,
     cfg_Forwards = [''127.0.0.1:'' @ Itoa (gv_sshPort f) \<mapsto> sshHostPort],
     cfg_NAT = [hostIP \<mapsto> ''127.0.0.1''], cfg_GatewayVirtualIPs = [hostIP],
     cfg_DHCPStaticLeases = [''192.168.127.2'' \<mapsto> ''5a:94:ef:e4:0c:ee''],
     cfg_VpnKitUUIDMacAddresses = [''c3d68012-0208-11ea-9fd7-f2189899ab08'' \<mapsto> ''5a:94:ef:e4:0c:ee''],
     cfg_Protocol = gv_protocol f\<rparr>"

subsection \<open>main\<close>

text \<open>
  The command up to the start of the tasks: it exits with a status, or goes on with a
  configuration. Invalid flags exit with status 2, help and the version with 0, failed checks
  with 1.
\<close>

datatype gv_outcome = GvExit nat | GvRun gv_flags Configuration

definition gv_pid_file :: "main_env \<Rightarrow> string \<Rightarrow> gv_flags \<Rightarrow> gerror option" where
  "gv_pid_file E pid f =
     (if pidFile f = [] then None
      else (case pid_Create E (pidFile f) of Some err \<Rightarrow> Some err | None \<Rightarrow> pid_WriteString E pid))"

definition gv_main :: "main_env \<Rightarrow> string \<Rightarrow> string list \<Rightarrow> gv_outcome" where
  "gv_main E pid args =
     (case flag_Parse gv_flag_set args gv_defaults of
        Inl ErrHelp \<Rightarrow> GvExit 0
      | Inl (FlagFailed _) \<Rightarrow> GvExit 2
      | Inr (f, _) \<Rightarrow>
          if showVersion f then GvExit 0
          else if gv_check E f \<noteq> None then GvExit 1
          else if gv_pid_file E pid f \<noteq> None then GvExit 1
          else GvRun f (gv_config E f))"

text \<open>
  The end of the program: \<open>defer os.Exit(exitCode)\<close> evaluates its argument when it is executed, before
  any task has run, and the assignment at the end comes too late.
\<close>

definition gv_exitCode :: "gerror option \<Rightarrow> nat" where
  "gv_exitCode waitErr =
     (let exitCode = 0;
          deferred = exitCode;
          exitCode = (case waitErr of Some _ \<Rightarrow> 1 | None \<Rightarrow> exitCode)
      in deferred)"

subsection \<open>HTTP interfaces\<close>

text \<open>The multiplexer of the control endpoints is that of the network, with the profiler in debug mode.\<close>

definition pprof_patterns :: "(string \<times> string) list" where
  "pprof_patterns = [(''/debug/pprof/'', ''Index''), (''/debug/pprof/cmdline'', ''Cmdline''),
     (''/debug/pprof/profile'', ''Profile''), (''/debug/pprof/symbol'', ''Symbol'')]"

definition withProfiler :: "bool \<Rightarrow> (string \<times> (vn_handler + string)) list" where
  "withProfiler dbg =
     map (\<lambda>(p, h). (p, Inl h)) vn_patterns @ (if dbg then map (\<lambda>(p, h). (p, Inr h)) pprof_patterns else [])"

definition control_route :: "bool \<Rightarrow> string \<Rightarrow> (endpoint + string) option" where
  "control_route dbg path =
     (case mux_match (withProfiler dbg) path of
        Some (Inl VnServices) \<Rightarrow> map_option Inl (Option.bind (StripPrefix ''/services'' path) services_route)
      | Some (Inl (VnEndpoint h)) \<Rightarrow> Some (Inl h)
      | Some (Inr p) \<Rightarrow> Some (Inr p)
      | None \<Rightarrow> None)"

text \<open>The multiplexer on port 80 of the gateway, which virtual machines can reach.\<close>

definition gateway_patterns :: "(string \<times> (string \<Rightarrow> endpoint option)) list" where
  "gateway_patterns = [(''/services/forwarder/all'', vn_route), (''/services/forwarder/expose'', vn_route),
     (''/services/forwarder/unexpose'', vn_route)]"

definition gateway_route :: "string \<Rightarrow> endpoint option" where
  "gateway_route path = (case mux_match gateway_patterns path of Some h \<Rightarrow> h path | None \<Rightarrow> None)"

subsection \<open>run\<close>

datatype gv_listener = HostListener listen_target | StackListener FullAddress

datatype gv_handler = ControlMux bool | GatewayMux

datatype gv_task =
    CloseOnDone gv_listener
  | ServeHTTP gv_listener gv_handler
  | DebugLog
  | VpnKitLoop listen_target
  | CloseAndRemove listen_target string
  | AcceptOne listen_target Protocol
  | AcceptVfkitConn listen_target
  | AcceptStdioConn
  | SSHForwardLoop string URL URL string

text \<open>A part of \<open>run\<close>: the tasks it starts, and the error with which it returns; parts after an error are not reached.\<close>

type_synonym gv_step = "gv_task list \<times> gerror option"

fun gv_steps :: "gv_step list \<Rightarrow> gv_step" where
  "gv_steps [] = ([], None)"
| "gv_steps ((ts, Some err) # _) = (ts, Some err)"
| "gv_steps ((ts, None) # ss) = (case gv_steps ss of (us, err) \<Rightarrow> (ts @ us, err))"

definition httpServe :: "gv_listener \<Rightarrow> gv_handler \<Rightarrow> gv_task list" where
  "httpServe ln h = [CloseOnDone ln, ServeHTTP ln h]"

text \<open>A listener that is opened for a socket flag, if it is set.\<close>

definition socket_step :: "string \<Rightarrow> (string \<Rightarrow> listen_target result) \<Rightarrow> (listen_target \<Rightarrow> gv_task list) \<Rightarrow> gv_step" where
  "socket_step sock listen tasks =
     (if sock = [] then ([], None)
      else (case listen sock of Inl err \<Rightarrow> ([], Some err) | Inr l \<Rightarrow> (tasks l, None)))"

definition endpoint_step :: "platform \<Rightarrow> os_env \<Rightarrow> gv_flags \<Rightarrow> string \<Rightarrow> gv_step" where
  "endpoint_step pf OS f endpoint =
     (case Listen pf OS endpoint of
        Inl err \<Rightarrow> ([], Some (Wrap err ''cannot listen''))
      | Inr l \<Rightarrow> (httpServe (HostListener l) (ControlMux (gv_debug f)), None))"

definition gateway_step :: "stack_env \<Rightarrow> gv_step exec" where
  "gateway_step E =
     bind_exec (vn_Listen (\<lambda>a. case env_bind E ''tcp'' a of Some err \<Rightarrow> Inl err | None \<Rightarrow> Inr a) ''tcp'' (gatewayIP @ '':80''))
       (\<lambda>r. Ret (case r of Inl err \<Rightarrow> ([], Some err) | Inr a \<Rightarrow> (httpServe (StackListener a) GatewayMux, None)))"

text \<open>The \<open>i\<close>-th forwarded socket; \<^const>\<open>check_forwards\<close> has made sure that the four lists have the same length.\<close>

definition forward_step :: "gv_flags \<Rightarrow> nat \<Rightarrow> gv_step" where
  "forward_step f i =
     (let sock = forwardSocket f ! i;
          dest = empty_URL\<lparr>Scheme := ''ssh'', url_User := Some (forwardUser f ! i, None), url_Host := sshHostPort,
                   url_Path := forwardDest f ! i\<rparr>
      in case (if Contains sock ''://'' then url_Parse sock else Inr (empty_URL\<lparr>Scheme := ''unix'', url_Path := sock\<rparr>)) of
           Inl err \<Rightarrow> ([], Some err)
         | Inr src \<Rightarrow> ([SSHForwardLoop sock src dest (forwardIdentify f ! i)], None))"

text \<open>The parts of \<open>run\<close> once the control endpoints (\<open>ts\<close>) and the gateway (\<open>gw\<close>) are served.\<close>

definition run_steps :: "platform \<Rightarrow> os_env \<Rightarrow> gv_flags \<Rightarrow> gv_task list \<Rightarrow> gv_step \<Rightarrow> gv_step list" where
  "run_steps pf OS f ts gw =
     [(ts, None), gw,
      (if gv_debug f then [DebugLog] else [], None),
      socket_step (vpnkitSocket f) (Listen pf OS) (\<lambda>l. [VpnKitLoop l]),
      socket_step (qemuSocket f) (Listen pf OS) (\<lambda>l. [CloseAndRemove l (qemuSocket f), AcceptOne l QemuProtocol]),
      socket_step (bessSocket f) (Listen pf OS) (\<lambda>l. [CloseAndRemove l (bessSocket f), AcceptOne l BessProtocol]),
      socket_step (vfkitSocket f) (ListenUnixgram pf OS) (\<lambda>l. [CloseAndRemove l (vfkitSocket f), AcceptVfkitConn l]),
      (if stdioSocket f \<noteq> [] then [AcceptStdioConn] else [], None)]
     @ map (forward_step f) [0..<length (forwardSocket f)]"

definition gv_run :: "platform \<Rightarrow> os_env \<Rightarrow> stack_env \<Rightarrow> orders \<Rightarrow> gv_flags \<Rightarrow> Configuration \<Rightarrow> (VirtualNetwork option \<times> gv_step) exec" where
  "gv_run pf OS E R f cfg =
     bind_exec (vn_New E R cfg) (\<lambda>r. case r of
         Inl err \<Rightarrow> Ret (None, [], Some err)
       | Inr vn \<Rightarrow>
           (case gv_steps (map (endpoint_step pf OS f) (gv_endpoints f)) of
              (ts, Some err) \<Rightarrow> Ret (Some vn, ts, Some err)
            | (ts, None) \<Rightarrow>
                bind_exec (gateway_step E) (\<lambda>gw. Ret (Some vn, gv_steps (run_steps pf OS f ts gw)))))"

text \<open>What cleaning up after a socket returns: it is removed under the name of its flag.\<close>

definition close_and_remove :: "os_env \<Rightarrow> string \<Rightarrow> gerror option" where
  "close_and_remove OS sock = os_Remove OS sock"

subsection \<open>The command line that is built is the command line that is read\<close>

text \<open>The commands that a client of the builder can make: the operations, and assignments to the exported fields.\<close>

inductive cmd_built :: "GvproxyCommand \<Rightarrow> bool" where
  built_New: "cmd_built NewGvproxyCommand"
| built_Debug: "cmd_built c \<Longrightarrow> cmd_built (c\<lparr>cmd_Debug := b\<rparr>)"
| built_MTU: "cmd_built c \<Longrightarrow> - (2 ^ 63) \<le> i \<Longrightarrow> i < 2 ^ 63 \<Longrightarrow> cmd_built (c\<lparr>cmd_MTU := i\<rparr>)"
| built_SSHPort: "cmd_built c \<Longrightarrow> - (2 ^ 63) \<le> i \<Longrightarrow> i < 2 ^ 63 \<Longrightarrow> cmd_built (c\<lparr>cmd_SSHPort := i\<rparr>)"
| built_PidFile: "cmd_built c \<Longrightarrow> cmd_built (c\<lparr>cmd_PidFile := s\<rparr>)"
| built_Endpoint: "cmd_built c \<Longrightarrow> cmd_built (AddEndpoint c s)"
| built_Vpnkit: "cmd_built c \<Longrightarrow> cmd_built (AddVpnkitSocket c s)"
| built_Qemu: "cmd_built c \<Longrightarrow> cmd_built (AddQemuSocket c s)"
| built_Bess: "cmd_built c \<Longrightarrow> cmd_built (AddBessSocket c s)"
| built_Stdio: "cmd_built c \<Longrightarrow> cmd_built (AddStdioSocket c s)"
| built_Vfkit: "cmd_built c \<Longrightarrow> cmd_built (AddVfkitSocket c s)"
| built_Sock: "cmd_built c \<Longrightarrow> cmd_built (AddForwardSock c s)"
| built_Dest: "cmd_built c \<Longrightarrow> cmd_built (AddForwardDest c s)"
| built_User: "cmd_built c \<Longrightarrow> cmd_built (AddForwardUser c s)"
| built_Identity: "cmd_built c \<Longrightarrow> cmd_built (AddForwardIdentity c s)"

definition socket_flags :: "string list" where
  "socket_flags = [''listen-vpnkit'', ''listen-qemu'', ''listen-bess'', ''listen-stdio'', ''listen-vfkit'']"

definition forward_flags :: "string list" where
  "forward_flags = [''forward-sock'', ''forward-dest'', ''forward-user'', ''forward-identity'']"

definition cmd_wf :: "GvproxyCommand \<Rightarrow> bool" where
  "cmd_wf c \<longleftrightarrow> dom (cmd_sockets c) \<subseteq> set socket_flags \<and> dom (cmd_forwardInfo c) \<subseteq> set forward_flags
     \<and> - (2 ^ 63) \<le> cmd_MTU c \<and> cmd_MTU c < 2 ^ 63 \<and> - (2 ^ 63) \<le> cmd_SSHPort c \<and> cmd_SSHPort c < 2 ^ 63"

lemmas builder_defs = AddEndpoint_def AddVpnkitSocket_def AddQemuSocket_def AddBessSocket_def AddStdioSocket_def
  AddVfkitSocket_def AddForwardSock_def AddForwardDest_def AddForwardUser_def AddForwardIdentity_def addForwardInfo_def
  checkForwardInfoInitialized_def

lemma cmd_built_wf: "cmd_built c \<Longrightarrow> cmd_wf c"
  by (induction rule: cmd_built.induct)
    (simp_all add: cmd_wf_def NewGvproxyCommand_def builder_defs socket_flags_def forward_flags_def)

text \<open>The flags a command stands for: empty strings are left out.\<close>

definition nonempty :: "string list \<Rightarrow> string list" where
  "nonempty = filter (\<lambda>s. s \<noteq> [])"

definition socket_of :: "(string \<rightharpoonup> string) \<Rightarrow> string \<Rightarrow> string" where
  "socket_of m k = (case m k of None \<Rightarrow> [] | Some s \<Rightarrow> s)"

definition info_of :: "(string \<rightharpoonup> string list) \<Rightarrow> string \<Rightarrow> string list" where
  "info_of m k = (case m k of None \<Rightarrow> [] | Some vs \<Rightarrow> nonempty vs)"

definition flags_of :: "GvproxyCommand \<Rightarrow> gv_flags" where
  "flags_of c = \<lparr>gv_debug = cmd_Debug c, gv_mtu = cmd_MTU c, gv_endpoints = nonempty (cmd_endpoints c),
     vpnkitSocket = socket_of (cmd_sockets c) ''listen-vpnkit'', qemuSocket = socket_of (cmd_sockets c) ''listen-qemu'',
     bessSocket = socket_of (cmd_sockets c) ''listen-bess'', stdioSocket = socket_of (cmd_sockets c) ''listen-stdio'',
     vfkitSocket = socket_of (cmd_sockets c) ''listen-vfkit'', forwardSocket = info_of (cmd_forwardInfo c) ''forward-sock'',
     forwardDest = info_of (cmd_forwardInfo c) ''forward-dest'', forwardUser = info_of (cmd_forwardInfo c) ''forward-user'',
     forwardIdentify = info_of (cmd_forwardInfo c) ''forward-identity'', gv_sshPort = cmd_SSHPort c,
     pidFile = cmd_PidFile c, showVersion = False\<rparr>"

lemma gv_value_flags: "list_all (\<lambda>name. flag_name name \<and> gv_formal name = Some False) gv_flag_names"
  by code_simp

interpretation gv_command: flag_command gv_flag_set gv_flag_names
  using gv_value_flags by unfold_locales (simp add: list_all_iff gv_flag_set_def)

lemma gv_parse_value:
  assumes "name \<in> set gv_flag_names" "gv_set name v f = Inr f'"
  shows "flag_Parse gv_flag_set ((CHR ''-'' # name) # v # args) f = flag_Parse gv_flag_set args f'"
  using gv_command.parse_value [OF assms(1)] assms(2) by (simp add: gv_flag_set_def)

text \<open>A repeated flag whose setter appends.\<close>

lemma gv_parse_repeated:
  assumes "name \<in> set gv_flag_names" "\<And>v f. gv_set name v f = Inr (add v f)"
  shows "flag_Parse gv_flag_set (forward_args name vs @ args) f = flag_Parse gv_flag_set args (fold add (nonempty vs) f)"
  by (induction vs arbitrary: f) (simp_all add: nonempty_def gv_parse_value [OF assms])

lemma fold_append_field:
  assumes "\<And>v f. get (add v f) = get f @ [v]" "\<And>v f. add v f = upd (\<lambda>_. get f @ [v]) f"
    and "\<And>g h f. upd (\<lambda>_. g) (upd (\<lambda>_. h) f) = upd (\<lambda>_. g) f" "\<And>f. upd (\<lambda>_. get f) f = f"
  shows "fold add vs f = upd (\<lambda>_. get f @ vs) f"
proof (induction vs arbitrary: f)
  case (Cons v vs)
  have "fold add (v # vs) f = upd (\<lambda>_. get f @ v # vs) (add v f)" using Cons by (simp add: assms(1))
  then show ?case by (subst (asm) assms(2)) (simp add: assms(3))
qed (simp add: assms(4))

lemma gv_parse_endpoints:
  "flag_Parse gv_flag_set (endpointsToCmdline es @ args) f =
   flag_Parse gv_flag_set args (f\<lparr>gv_endpoints := gv_endpoints f @ nonempty es\<rparr>)"
proof -
  have "fold (\<lambda>v f. f\<lparr>gv_endpoints := arrayFlags_Set (gv_endpoints f) v\<rparr>) vs f = f\<lparr>gv_endpoints := gv_endpoints f @ vs\<rparr>" for vs
    by (rule fold_append_field [where get = gv_endpoints and upd = gv_endpoints_update]) (simp_all add: arrayFlags_Set_def)
  then show ?thesis
    using gv_parse_repeated [of "''listen''" "\<lambda>v f. f\<lparr>gv_endpoints := arrayFlags_Set (gv_endpoints f) v\<rparr>"]
    by (simp add: endpointsToCmdline_def gv_flag_names_def gv_set_def)
qed

text \<open>The value a list of entries leaves in a field: the last non-empty one, and all that are appended.\<close>

fun pick :: "(string \<times> string) list \<Rightarrow> string \<Rightarrow> string \<Rightarrow> string" where
  "pick [] k d = d"
| "pick ((k', v) # so) k d = pick so k (if k' = k \<and> v \<noteq> [] then v else d)"

fun gather :: "(string \<times> string list) list \<Rightarrow> string \<Rightarrow> string list \<Rightarrow> string list" where
  "gather [] k acc = acc"
| "gather ((k', vs) # fo) k acc = gather fo k (if k' = k then acc @ nonempty vs else acc)"

lemma pick_absent: "k \<notin> fst ` set so \<Longrightarrow> pick so k d = d"
  by (induction so k d rule: pick.induct) auto

lemma pick_socket_of: "distinct (map fst so) \<Longrightarrow> pick so k [] = socket_of (map_of so) k"
  by (induction so) (auto simp: socket_of_def pick_absent)

lemma gather_absent: "k \<notin> fst ` set fo \<Longrightarrow> gather fo k acc = acc"
  by (induction fo k acc rule: gather.induct) auto

lemma gather_info_of: "distinct (map fst fo) \<Longrightarrow> gather fo k [] = info_of (map_of fo) k"
  by (induction fo) (auto simp: info_of_def gather_absent)

definition with_sockets :: "(string \<times> string) list \<Rightarrow> gv_flags \<Rightarrow> gv_flags" where
  "with_sockets so f = f\<lparr>vpnkitSocket := pick so ''listen-vpnkit'' (vpnkitSocket f), qemuSocket := pick so ''listen-qemu'' (qemuSocket f),
     bessSocket := pick so ''listen-bess'' (bessSocket f), stdioSocket := pick so ''listen-stdio'' (stdioSocket f),
     vfkitSocket := pick so ''listen-vfkit'' (vfkitSocket f)\<rparr>"

definition with_forwards :: "(string \<times> string list) list \<Rightarrow> gv_flags \<Rightarrow> gv_flags" where
  "with_forwards fo f = f\<lparr>forwardSocket := gather fo ''forward-sock'' (forwardSocket f), forwardDest := gather fo ''forward-dest'' (forwardDest f),
     forwardUser := gather fo ''forward-user'' (forwardUser f), forwardIdentify := gather fo ''forward-identity'' (forwardIdentify f)\<rparr>"

lemma gv_set_socket:
  assumes "k \<in> set socket_flags" "v \<noteq> []"
  shows "gv_set k v f = Inr (with_sockets [(k, v)] f)" "k \<in> set gv_flag_names"
proof -
  consider "k = ''listen-vpnkit''" | "k = ''listen-qemu''" | "k = ''listen-bess''" | "k = ''listen-stdio''" | "k = ''listen-vfkit''"
    using assms(1) unfolding socket_flags_def by fastforce
  then show "gv_set k v f = Inr (with_sockets [(k, v)] f)"
    by cases (cases f; simp add: gv_set_def with_sockets_def assms(2))+
  show "k \<in> set gv_flag_names" using assms(1) unfolding socket_flags_def gv_flag_names_def by fastforce
qed

lemma with_sockets_Cons: "with_sockets (kv # so) f = with_sockets so (with_sockets [kv] f)"
  by (cases kv) (simp add: with_sockets_def)

lemma with_sockets_empty: "with_sockets [(k, [])] f = f"
  by (simp add: with_sockets_def)

lemma gv_parse_sockets:
  "fst ` set so \<subseteq> set socket_flags \<Longrightarrow>
   flag_Parse gv_flag_set (socketsToCmdline so @ args) f = flag_Parse gv_flag_set args (with_sockets so f)"
proof (induction so arbitrary: f)
  case Nil
  then show ?case by (simp add: with_sockets_def)
next
  case (Cons kv so)
  obtain k v where kv: "kv = (k, v)" by fastforce
  have k: "k \<in> set socket_flags" using Cons.prems kv by simp
  note IH = Cons.IH [of "with_sockets [(k, v)] f"]
  show ?case
  proof (cases "v = []")
    case True
    then show ?thesis using IH Cons.prems kv by (simp add: with_sockets_Cons [of _ so] with_sockets_empty)
  next
    case False
    then show ?thesis
      using IH Cons.prems kv gv_parse_value [OF gv_set_socket(2) gv_set_socket(1), OF k False k False]
      by (simp add: with_sockets_Cons [of _ so])
  qed
qed

lemma with_forwards_Cons: "with_forwards (kv # fo) f = with_forwards fo (with_forwards [kv] f)"
  by (cases kv) (simp add: with_forwards_def)

lemma gv_parse_forward:
  assumes "k \<in> set forward_flags"
  shows "flag_Parse gv_flag_set (forward_args k vs @ args) f = flag_Parse gv_flag_set args (with_forwards [(k, vs)] f)"
proof -
  have names: "k \<in> set gv_flag_names" using assms unfolding forward_flags_def gv_flag_names_def by fastforce
  have set: "gv_set k v f = Inr (with_forwards [(k, [v])] f)" if "v \<noteq> []" for v f
  proof -
    consider "k = ''forward-sock''" | "k = ''forward-dest''" | "k = ''forward-user''" | "k = ''forward-identity''"
      using assms unfolding forward_flags_def by fastforce
    then show ?thesis by cases (cases f; simp add: gv_set_def with_forwards_def arrayFlags_Set_def nonempty_def that)+
  qed
  show ?thesis
  proof (induction vs arbitrary: f)
    case Nil
    then show ?case by (simp add: with_forwards_def nonempty_def)
  next
    case (Cons v vs)
    have "with_forwards [(k, vs)] (with_forwards [(k, [v])] f) = with_forwards [(k, v # vs)] f"
      by (simp add: with_forwards_def nonempty_def)
    moreover have "with_forwards [(k, [] # vs)] f = with_forwards [(k, vs)] f"
      by (simp add: with_forwards_def nonempty_def)
    ultimately show ?case
      using Cons gv_parse_value [OF names set] by (cases "v = []") simp_all
  qed
qed

lemma gv_parse_forwards:
  "fst ` set fo \<subseteq> set forward_flags \<Longrightarrow>
   flag_Parse gv_flag_set (forwardInfoToCmdline fo @ args) f = flag_Parse gv_flag_set args (with_forwards fo f)"
proof (induction fo arbitrary: f)
  case Nil
  then show ?case by (simp add: with_forwards_def)
next
  case (Cons kv fo)
  then show ?case
    using gv_parse_forward [of "fst kv" "snd kv"] by (cases kv) (simp add: with_forwards_Cons [of _ fo])
qed

lemma gv_parse_rest:
  "flag_Parse gv_flag_set ((if b then [''-debug''] else []) @ args) f =
   flag_Parse gv_flag_set args (if b then f\<lparr>gv_debug := True\<rparr> else f)"
  "flag_Parse gv_flag_set (if p \<noteq> [] then [''-pid-file'', p] else []) f = Inr (if p \<noteq> [] then f\<lparr>pidFile := p\<rparr> else f, [])"
  "- (2 ^ 63) \<le> i \<Longrightarrow> i < 2 ^ 63 \<Longrightarrow>
   flag_Parse gv_flag_set (''-mtu'' # Itoa i # args) f = flag_Parse gv_flag_set args (f\<lparr>gv_mtu := i\<rparr>)"
  "- (2 ^ 63) \<le> i \<Longrightarrow> i < 2 ^ 63 \<Longrightarrow>
   flag_Parse gv_flag_set (''-ssh-port'' # Itoa i # args) f = flag_Parse gv_flag_set args (f\<lparr>gv_sshPort := i\<rparr>)"
proof -
  have "flag_Parse gv_flag_set (''-debug'' # args) f = flag_Parse gv_flag_set args (f\<lparr>gv_debug := True\<rparr>)"
    by (rule flag_Parse_bool) (simp_all add: flag_name_def gv_flag_set_def gv_formal_def gv_set_def set_bool_def ParseBool_def)
  then show "flag_Parse gv_flag_set ((if b then [''-debug''] else []) @ args) f =
    flag_Parse gv_flag_set args (if b then f\<lparr>gv_debug := True\<rparr> else f)" by simp
  show "flag_Parse gv_flag_set (if p \<noteq> [] then [''-pid-file'', p] else []) f = Inr (if p \<noteq> [] then f\<lparr>pidFile := p\<rparr> else f, [])"
    using gv_parse_value [of "''pid-file''" p f "f\<lparr>pidFile := p\<rparr>" "[]"] by (simp add: gv_flag_names_def gv_set_def)
  assume i: "- (2 ^ 63) \<le> i" "i < 2 ^ 63"
  show "flag_Parse gv_flag_set (''-mtu'' # Itoa i # args) f = flag_Parse gv_flag_set args (f\<lparr>gv_mtu := i\<rparr>)"
    by (rule gv_parse_value) (simp_all add: gv_flag_names_def gv_set_def set_int_Itoa [OF i])
  show "flag_Parse gv_flag_set (''-ssh-port'' # Itoa i # args) f = flag_Parse gv_flag_set args (f\<lparr>gv_sshPort := i\<rparr>)"
    by (rule gv_parse_value) (simp_all add: gv_flag_names_def gv_set_def set_int_Itoa [OF i])
qed

text \<open>
  C13. What the builder writes, the command reads: for every command that can be built, and for every
  order in which its maps are visited, parsing the arguments it is printed to gives the flags
  with exactly the values of the command, in the same order where a flag is repeated. Values that
  look like flags are not mistaken for flags; only empty strings are lost.
\<close>

theorem cmdline_roundtrip:
  assumes "cmd_built c" "enumerates so (cmd_sockets c)" "enumerates fo (cmd_forwardInfo c)"
  shows "flag_Parse gv_flag_set (ToCmdline c so fo) gv_defaults = Inr (flags_of c, [])"
proof -
  have wf: "- (2 ^ 63) \<le> cmd_MTU c" "cmd_MTU c < 2 ^ 63" "- (2 ^ 63) \<le> cmd_SSHPort c" "cmd_SSHPort c < 2 ^ 63"
    "dom (cmd_sockets c) \<subseteq> set socket_flags" "dom (cmd_forwardInfo c) \<subseteq> set forward_flags"
    using cmd_built_wf [OF assms(1)] unfolding cmd_wf_def by blast+
  have "fst ` set so \<subseteq> set socket_flags" "fst ` set fo \<subseteq> set forward_flags"
    using wf(5,6) enumerates_dom [OF assms(2)] enumerates_dom [OF assms(3)] by auto
  note steps = gv_parse_endpoints gv_parse_rest(1) gv_parse_rest(3) [OF wf(1,2)] gv_parse_rest(4) [OF wf(3,4)]
    gv_parse_sockets [OF this(1)] gv_parse_forwards [OF this(2)] gv_parse_rest(2)
  have picks: "pick so k [] = socket_of (cmd_sockets c) k" "gather fo k [] = info_of (cmd_forwardInfo c) k" for k
    using pick_socket_of [of so k] gather_info_of [of fo k] assms(2,3) by (simp_all add: enumerates_def)
  show ?thesis
    unfolding ToCmdline_def append.simps steps
    by (simp add: flags_of_def gv_defaults_def with_sockets_def with_forwards_def picks)
qed

subsection \<open>What virtual machines can ask for\<close>

text \<open>
  C36. Virtual machines can reach port 80 of the gateway, and there they find the three operations on
  exposed ports and nothing else: no request from inside changes DNS zones, connects to the switch,
  opens a tunnel or reads the state of the network.
\<close>

theorem gateway_serves_ports_only:
  "gateway_route path =
     (if path = ''/services/forwarder/all'' then Some EpPortsAll
      else if path = ''/services/forwarder/expose'' then Some EpExpose
      else if path = ''/services/forwarder/unexpose'' then Some EpUnexpose
      else None)"
proof -
  have "mux_match gateway_patterns path = map_of gateway_patterns path"
    by (rule mux_match_exact_only) (simp add: gateway_patterns_def HasSuffix_def)
  then show ?thesis by (simp add: gateway_route_def gateway_patterns_def vn_route_spec vn_paths_def)
qed

lemma mux_match_map: "mux_match (map (\<lambda>(p, h). (p, g h)) ps) path = map_option g (mux_match ps path)"
proof -
  have "map_of (map (\<lambda>(p, h). (p, g h)) ps) path = map_option g (map_of ps path)" by (induction ps) auto
  moreover have "longest_prefix (map (\<lambda>(p, h). (p, g h)) ps) path = map_option (\<lambda>(p, h). (p, g h)) (longest_prefix ps path)"
    by (induction ps path rule: longest_prefix.induct) (auto simp: Let_def split: option.split)
  ultimately show ?thesis by (cases "longest_prefix ps path") (auto simp: mux_match_def split: option.split)
qed

lemma control_route_plain: "control_route False path = map_option Inl (vn_route path)"
  using mux_match_map [of Inl vn_patterns path]
  by (auto simp: control_route_def withProfiler_def vn_route_def split: option.split vn_handler.split)

subsection \<open>The network of the command\<close>

lemma first_error_None: "first_error cs = None \<longleftrightarrow> (\<forall>c \<in> set cs. c = None)"
  by (induction cs) (auto split: option.splits)

lemma gv_main_run:
  assumes "gv_main M pid args = GvRun f cfg"
  shows "cfg = gv_config M f" "1024 \<le> gv_sshPort f" "gv_sshPort f \<le> 65535"
    and "length (forwardDest f) = length (forwardSocket f)" "length (forwardUser f) = length (forwardSocket f)"
    and "length (forwardIdentify f) = length (forwardSocket f)"
proof -
  have c: "cfg = gv_config M f" "gv_check M f = None"
    using assms by (auto simp: gv_main_def split: sum.splits flag_error.splits prod.splits if_splits)
  have "(if gv_sshPort f < 1024 \<or> 65535 < gv_sshPort f then Some ''ssh-port value must be between 1024 and 65535'' else None) = None"
    "check_forwards M f = None"
    using c(2) unfolding gv_check_def first_error_None by auto
  then show "1024 \<le> gv_sshPort f" "gv_sshPort f \<le> 65535"
    "length (forwardDest f) = length (forwardSocket f)" "length (forwardUser f) = length (forwardSocket f)"
    "length (forwardIdentify f) = length (forwardSocket f)"
    by (auto simp: check_forwards_def Let_def split: if_splits)
  show "cfg = gv_config M f" by (rule c(1))
qed

lemma gv_config_ok: "config_ok (gv_config M f) [192, 168, 127, 0] 24 [192, 168, 127, 1] gateway_mac"
proof -
  have "ipv4_key ''192.168.127.2''" "ipv4_key ''192.168.127.254''" "ipv4_key ''127.0.0.1''"
    unfolding ipv4_key_def sample_dotted(3-5) by (rule exI, rule conjI [rotated], rule refl, simp)+
  then show ?thesis
    using sample_dotted(1,2) gateway_mac_parse by (auto simp: config_ok_def gv_config_def gatewayIP_def hostIP_def)
qed

lemma enumerates_single: "enumerates es [k \<mapsto> v] \<longleftrightarrow> es = [(k, v)]"
proof
  assume e: "enumerates es [k \<mapsto> v]"
  then have "set es = {(k, v)}" using enumerates_in_set [OF e] by (auto split: if_splits)
  moreover have "distinct es" using e by (simp add: enumerates_def distinct_map)
  ultimately show "es = [(k, v)]"
    by (cases es) (auto simp: subset_singleton_iff dest: subset_singletonD)
qed (simp add: enumerates_def)

definition ssh_target :: dial_fn where
  "ssh_target = DialTCP \<lparr>fa_NIC = 1, fa_Addr = [192, 168, 127, 2], fa_Port = 22\<rparr>"

definition ssh_forward :: "int \<Rightarrow> PortsForwarder" where
  "ssh_forward port = (let local = ''127.0.0.1:'' @ Itoa port in
     \<lparr>proxies = [key TCP local \<mapsto> \<lparr>proxy_Local = local, proxy_Remote = sshHostPort, proxy_Protocol = TCP, underlying = CloseProxy [0]\<rparr>],
      sockets = [0 \<mapsto> (''tcp'', local, ssh_target)], ssh_clients = {}, fresh_sock = 1\<rparr>)"

lemma ssh_exposed:
  assumes "env_listen E Map.empty ''tcp'' (''127.0.0.1:'' @ Itoa port) = None"
  shows "forwardHostVM E [(''127.0.0.1:'' @ Itoa port, sshHostPort)] NewPortsForwarder = Ret (None, ssh_forward port)"
proof -
  let ?local = "''127.0.0.1:'' @ Itoa port"
  have "''192.168.127.2:22'' = dotted [192, 168, 127, 2] @ CHR '':'' # itoa_nat 22" by code_simp
  then have "tcpipAddress 1 sshHostPort = Ret (Inr \<lparr>fa_NIC = 1, fa_Addr = [192, 168, 127, 2], fa_Port = 22\<rparr>)"
    using tcpipAddress_print [of "[192, 168, 127, 2]" 22 1] by (simp add: sshHostPort_def)
  moreover have "new_tcp_proxy\<lparr>ListenFunc := None\<rparr> = new_tcp_proxy" by (simp add: new_tcp_proxy_def)
  ultimately have "Expose E TCP ?local sshHostPort NewPortsForwarder = Ret (None, ssh_forward port)"
    using assms tcp_proxy_Start_route [of E None]
    by (simp add: Expose_def expose_tcp_def netListen_def net_Listen_def NewPortsForwarder_def ssh_forward_def ssh_target_def
        TransportProtocol_defs Let_def)
  moreover have "\<not> HasPrefix ?local ''udp:''" by (simp add: HasPrefix_def)
  ultimately show ?thesis by simp
qed

lemma gv_network_up_eq:
  assumes "gv_main M pid args = GvRun f cfg" "env_quiet E" "orders_ok R cfg"
    and "env_listen (env_ports E) Map.empty ''tcp'' (''127.0.0.1:'' @ Itoa (gv_sshPort f)) = None"
  shows "vn_New E R cfg = Ret (Inr (network_spec cfg [192, 168, 127, 0] 24 [192, 168, 127, 1] gateway_mac (ssh_forward (gv_sshPort f))))"
proof -
  note cfg = gv_main_run(1) [OF assms(1)]
  have "ord_forwards R = [(''127.0.0.1:'' @ Itoa (gv_sshPort f), sshHostPort)]"
    using assms(3) by (simp add: orders_ok_def cfg gv_config_def enumerates_single)
  then show ?thesis
    using vn_New_eq [OF gv_config_ok assms(2)] assms(3) ssh_exposed [OF assms(4)] cfg by simp
qed

text \<open>
  C15. Every command line that is accepted gives a working network: if the operating system and the
  network stack refuse nothing, the network the configuration describes comes up, whatever the
  order in which the maps are visited, and the only port it exposes at first is the one asked for,
  on the loopback address, forwarded to the SSH port of the virtual machine.
\<close>

theorem gv_network_up:
  assumes "gv_main M pid args = GvRun f cfg" "env_quiet E" "orders_ok R cfg"
    and "env_listen (env_ports E) Map.empty ''tcp'' (''127.0.0.1:'' @ Itoa (gv_sshPort f)) = None"
  shows "vn_New E R cfg = Ret (Inr (network_spec cfg [192, 168, 127, 0] 24 [192, 168, 127, 1] gateway_mac (ssh_forward (gv_sshPort f))))"
  by (rule gv_network_up_eq [OF assms])

subsection \<open>What run starts\<close>

lemma gv_steps_ok:
  "gv_steps ss = (ts, None) \<Longrightarrow> (ts', err) \<in> set ss \<Longrightarrow> err = None \<and> set ts' \<subseteq> set ts"
  by (induction ss arbitrary: ts rule: gv_steps.induct) (auto split: prod.splits)

lemma gateway_listener:
  "gateway_step E = Ret (case env_bind E ''tcp'' \<lparr>fa_NIC = 1, fa_Addr = [192, 168, 127, 1], fa_Port = 80\<rparr> of
      Some err \<Rightarrow> ([], Some err)
    | None \<Rightarrow> (httpServe (StackListener \<lparr>fa_NIC = 1, fa_Addr = [192, 168, 127, 1], fa_Port = 80\<rparr>) GatewayMux, None))"
proof -
  have a: "gatewayIP @ '':80'' = dotted [192, 168, 127, 1] @ CHR '':'' # itoa_nat 80" by code_simp
  have "set (dotted [192, 168, 127, 1]) \<inter> {CHR '':'', CHR ''['', CHR '']''} = {}"
    "set (itoa_nat 80) \<inter> {CHR '':'', CHR ''['', CHR '']''} = {}" by code_simp+
  then have "SplitHostPort (gatewayIP @ '':80'') = Inr (dotted [192, 168, 127, 1], itoa_nat 80)"
    unfolding a by (intro SplitHostPort_join)
  then have "splitIPPort ''tcp'' (gatewayIP @ '':80'') = Inr (ParseIP (dotted [192, 168, 127, 1]), 80)"
    using ParseUint_itoa [of 80 16] ParseIP_dotted [of "[192, 168, 127, 1]"] by (simp add: splitIPPort_def)
  then show ?thesis
    using ParseIP_dotted [of "[192, 168, 127, 1]"]
    by (simp add: gateway_step_def vn_Listen_def vn_address_def AddrFrom4Slice_def split: option.split)
qed

lemma socket_step_ok:
  assumes "gv_steps ss = (ts, None)" "socket_step sock listen tasks \<in> set ss" "sock \<noteq> []"
  shows "\<exists>l. listen sock = Inr l \<and> set (tasks l) \<subseteq> set ts"
  using gv_steps_ok [OF assms(1), of "fst (socket_step sock listen tasks)" "snd (socket_step sock listen tasks)"] assms(2,3)
  by (auto simp: socket_step_def split: sum.splits)

text \<open>
  When \<open>run\<close> returns without an error, everything that was asked for is served: every control
  endpoint by the full interface of the network, port 80 of the gateway by the operations on ports,
  and every socket of a hypervisor by the protocol of that hypervisor.
\<close>

lemma gv_run_serves:
  assumes "gv_run pf OS E R f cfg = Ret (vn, ts, None)"
  shows "(\<forall>e \<in> set (gv_endpoints f). \<exists>l. Listen pf OS e = Inr l \<and> ServeHTTP (HostListener l) (ControlMux (gv_debug f)) \<in> set ts)
    \<and> ServeHTTP (StackListener \<lparr>fa_NIC = 1, fa_Addr = [192, 168, 127, 1], fa_Port = 80\<rparr>) GatewayMux \<in> set ts
    \<and> (vpnkitSocket f \<noteq> [] \<longrightarrow> (\<exists>l. Listen pf OS (vpnkitSocket f) = Inr l \<and> VpnKitLoop l \<in> set ts))
    \<and> (qemuSocket f \<noteq> [] \<longrightarrow> (\<exists>l. Listen pf OS (qemuSocket f) = Inr l \<and> AcceptOne l QemuProtocol \<in> set ts))
    \<and> (bessSocket f \<noteq> [] \<longrightarrow> (\<exists>l. Listen pf OS (bessSocket f) = Inr l \<and> AcceptOne l BessProtocol \<in> set ts))
    \<and> (vfkitSocket f \<noteq> [] \<longrightarrow> (\<exists>l. ListenUnixgram pf OS (vfkitSocket f) = Inr l \<and> AcceptVfkitConn l \<in> set ts))"
proof -
  obtain r where r: "vn_New E R cfg = Ret r" using assms by (auto simp: gv_run_def bind_exec_Ret_iff)
  obtain ts0 err where ts0: "gv_steps (map (endpoint_step pf OS f) (gv_endpoints f)) = (ts0, err)" by fastforce
  have "err = None" using assms r ts0 by (cases err) (auto simp: gv_run_def split: sum.splits)
  note ts0 = ts0 [unfolded this]
  obtain gw where gw: "gateway_step E = Ret gw" "gv_steps (run_steps pf OS f ts0 gw) = (ts, None)"
    using assms r ts0 by (auto simp: gv_run_def bind_exec_Ret_iff split: sum.splits)
  note ts = gw(2) and gw = gw(1) and ss = run_steps_def
  have sub: "set ts0 \<subseteq> set ts" using gv_steps_ok [OF ts, of ts0 None] by (simp add: ss)
  have "\<exists>l. Listen pf OS e = Inr l \<and> ServeHTTP (HostListener l) (ControlMux (gv_debug f)) \<in> set ts"
    if "e \<in> set (gv_endpoints f)" for e
    using gv_steps_ok [OF ts0, of "fst (endpoint_step pf OS f e)" "snd (endpoint_step pf OS f e)"] that sub
    by (auto simp: endpoint_step_def httpServe_def split: sum.splits)
  moreover have "snd gw = None" "set (fst gw) \<subseteq> set ts" using gv_steps_ok [OF ts, of "fst gw" "snd gw"] by (simp_all add: ss)
  then have "ServeHTTP (StackListener \<lparr>fa_NIC = 1, fa_Addr = [192, 168, 127, 1], fa_Port = 80\<rparr>) GatewayMux \<in> set ts"
    using gw by (auto simp: gateway_listener httpServe_def split: option.splits)
  moreover note socks = socket_step_ok [OF ts, of "vpnkitSocket f" "Listen pf OS" "\<lambda>l. [VpnKitLoop l]"]
    socket_step_ok [OF ts, of "qemuSocket f" "Listen pf OS" "\<lambda>l. [CloseAndRemove l (qemuSocket f), AcceptOne l QemuProtocol]"]
    socket_step_ok [OF ts, of "bessSocket f" "Listen pf OS" "\<lambda>l. [CloseAndRemove l (bessSocket f), AcceptOne l BessProtocol]"]
    socket_step_ok [OF ts, of "vfkitSocket f" "ListenUnixgram pf OS" "\<lambda>l. [CloseAndRemove l (vfkitSocket f), AcceptVfkitConn l]"]
  ultimately show ?thesis by (simp add: ss) blast
qed

text \<open>The exit status does not tell whether a task failed.\<close>

lemma exit_status_lost: "gv_exitCode waitErr = 0"
  by (simp add: gv_exitCode_def Let_def)

subsection \<open>Witnesses\<close>

definition sample_cmd :: GvproxyCommand where
  "sample_cmd = AddForwardSock (AddVpnkitSocket (AddEndpoint NewGvproxyCommand ''unix:///run/x.sock'') ''-debug'') ''a''"

theorem cmdline_roundtrip_witness:
  "flag_Parse gv_flag_set [''-listen'', ''unix:///run/x.sock'', ''-mtu'', ''1500'', ''-ssh-port'', ''2222'', ''-listen-vpnkit'', ''-debug'',
       ''-forward-sock'', ''a''] gv_defaults
   = Inr (gv_defaults\<lparr>gv_endpoints := [''unix:///run/x.sock''], vpnkitSocket := ''-debug'', forwardSocket := [''a'']\<rparr>, [])"
proof -
  have i: "Itoa 1500 = ''1500''" "Itoa 2222 = ''2222''" by code_simp+
  have c: "cmd_built sample_cmd" unfolding sample_cmd_def by (intro cmd_built.intros)
  have m: "cmd_sockets sample_cmd = [''listen-vpnkit'' \<mapsto> ''-debug'']" "cmd_forwardInfo sample_cmd = [''forward-sock'' \<mapsto> [''a'']]"
    by (simp_all add: sample_cmd_def builder_defs NewGvproxyCommand_def)
  have "enumerates [(''listen-vpnkit'', ''-debug'')] (cmd_sockets sample_cmd)"
    "enumerates [(''forward-sock'', [''a''])] (cmd_forwardInfo sample_cmd)"
    unfolding m by (simp_all add: enumerates_def)
  from cmdline_roundtrip [OF c this] show ?thesis
    by (simp add: ToCmdline_def endpointsToCmdline_def flags_of_def sample_cmd_def builder_defs NewGvproxyCommand_def i
        gv_defaults_def nonempty_def socket_of_def info_of_def)
qed

definition quiet_main :: main_env where
  "quiet_main = \<lparr>os_Stat = (\<lambda>_. Some ''file does not exist''), pid_Create = (\<lambda>_. None), pid_WriteString = (\<lambda>_. None),
     GOOS = ''windows'', resolv_conf = Inl ''file does not exist''\<rparr>"

lemma sample_main: "gv_main quiet_main ''1'' [] = GvRun gv_defaults (gv_config quiet_main gv_defaults)"
  by (simp add: gv_main_def gv_check_def gv_defaults_def check_qemu_def check_bess_def check_vfkit_def exclusive_def check_forwards_def
      gv_pid_file_def)

definition gv_orders :: "gv_flags \<Rightarrow> orders" where
  "gv_orders f = \<lparr>ord_leases = [(''192.168.127.2'', ''5a:94:ef:e4:0c:ee'')], ord_NAT = [(hostIP, ''127.0.0.1'')],
     ord_forwards = [(''127.0.0.1:'' @ Itoa (gv_sshPort f), sshHostPort)]\<rparr>"

lemma gv_orders_ok: "orders_ok (gv_orders f) (gv_config M f)"
  by (simp add: orders_ok_def gv_orders_def gv_config_def enumerates_single)

theorem gv_network_up_witness:
  "\<exists>vn. vn_New quiet_stack (gv_orders gv_defaults) (gv_config quiet_main gv_defaults) = Ret (Inr vn)
     \<and> sockets (sv_ports (vn_services vn)) 0 = Some (''tcp'', ''127.0.0.1:2222'', ssh_target)"
proof -
  have "env_listen (env_ports quiet_stack) Map.empty ''tcp'' (''127.0.0.1:'' @ Itoa (gv_sshPort gv_defaults)) = None"
    by (simp add: quiet_stack_def free_ports_def)
  from gv_network_up [OF sample_main sample_env(1) gv_orders_ok this]
  have "vn_New quiet_stack (gv_orders gv_defaults) (gv_config quiet_main gv_defaults) =
    Ret (Inr (network_spec (gv_config quiet_main gv_defaults) [192, 168, 127, 0] 24 [192, 168, 127, 1] gateway_mac (ssh_forward 2222)))"
    by (simp add: gv_defaults_def)
  moreover have "Itoa 2222 = ''2222''" by code_simp
  ultimately show ?thesis by (simp add: network_spec_def ssh_forward_def Let_def)
qed

definition free_os :: os_env where
  "free_os = \<lparr>os_Listen = (\<lambda>_. None), os_Remove = (\<lambda>_. None), os_IsNotExist = (\<lambda>_. False), GUIDFromString = (\<lambda>s. Inr s),
     os_CurrentUser = Inr ''0''\<rparr>"

end
