(* ===== verification/Errgroup.thy ===== *)
theory Errgroup
  imports Prelude
begin

text \<open>
  Groups of goroutines, \<open>errgroup.Group\<close> of \<open>golang.org/x/sync\<close>, and the interleavings of their members.

  A \<open>Group\<close> is the counter of its wait group, the first error, and whether its context is done.
  The goroutines of a program are described by a \<open>behaviour\<close>: what one of them can do at a point of
  its code, given whether the context is done and what the goroutines share. A step is either the
  program's own, or needs something from outside: a connection, a packet, a signal, a clock.
  \<open>group_step\<close> interleaves the members, one step of one of them at a time.

  The interface of a program that shuts down is the locale \<open>shutdown\<close>: measures for its points, and
  the promise that with a cancelled context some member can go on unless all of them wait for
  the outside. Its client lemmas say that such a program ends.
\<close>

subsection \<open>The group\<close>

record Group =
  g_done :: bool
  g_wg :: nat
  g_err :: "gerror option"

definition WithContext :: Group where
  "WithContext = \<lparr>g_done = False, g_wg = 0, g_err = None\<rparr>"

definition group_Go :: "Group \<Rightarrow> Group" where
  "group_Go g = g\<lparr>g_wg := g_wg g + 1\<rparr>"

text \<open>Cancelling the context, or the one it was derived from.\<close>

definition group_cancel :: "Group \<Rightarrow> Group" where
  "group_cancel g = g\<lparr>g_done := True\<rparr>"

text \<open>
  What follows the function of a member: the first error is kept and cancels the context, and the
  wait group is decremented, which panics below zero. \<open>errOnce\<close> has run when there is an error.
\<close>

definition group_done :: "gerror option \<Rightarrow> Group \<Rightarrow> Group exec" where
  "group_done r g =
     (let g' = (case r of
          Some err \<Rightarrow> (case g_err g of None \<Rightarrow> group_cancel (g\<lparr>g_err := Some err\<rparr>) | Some _ \<Rightarrow> g)
        | None \<Rightarrow> g)
      in if g_wg g' = 0 then Panic else Ret (g'\<lparr>g_wg := g_wg g' - 1\<rparr>))"

text \<open>\<open>Wait\<close> blocks, which is \<open>None\<close>, until no member is left.\<close>

definition group_Wait :: "Group \<Rightarrow> (gerror option \<times> Group) option" where
  "group_Wait g = (if g_wg g = 0 then Some (g_err g, group_cancel g) else None)"

subsection \<open>Goroutines\<close>

text \<open>What a step of a goroutine ends in: its next point, a new member and its next point, or its result.\<close>

datatype 'p outcome = Goto 'p | Spawn 'p 'p | Return "gerror option"

text \<open>
  \<open>R dn sh p own (sh', c) out\<close>: with the context done or not (\<open>dn\<close>) and the shared state \<open>sh\<close>, a
  goroutine at \<open>p\<close> can step to \<open>out\<close>, changing the shared state to \<open>sh'\<close> and cancelling the context if \<open>c\<close>.
\<close>

type_synonym ('sh, 'p) behaviour = "bool \<Rightarrow> 'sh \<Rightarrow> 'p \<Rightarrow> bool \<Rightarrow> 'sh \<times> bool \<Rightarrow> 'p outcome \<Rightarrow> bool"

text \<open>\<open>gs_results\<close> lists the results of the members that have ended, in that order.\<close>

record ('sh, 'p) gstate =
  gs_shared :: 'sh
  gs_group :: Group
  gs_members :: "'p list"
  gs_results :: "gerror option list"

definition init_group :: "'sh \<Rightarrow> 'p list \<Rightarrow> ('sh, 'p) gstate" where
  "init_group sh ps = \<lparr>gs_shared = sh, gs_group = fold (\<lambda>_. group_Go) ps WithContext, gs_members = ps, gs_results = []\<rparr>"

definition advance :: "('sh, 'p) gstate \<Rightarrow> 'p list \<Rightarrow> 'p list \<Rightarrow> 'sh \<times> bool \<Rightarrow> 'p outcome \<Rightarrow> ('sh, 'p) gstate exec" where
  "advance s ps qs eff out =
     (let g = (if snd eff then group_cancel (gs_group s) else gs_group s);
          s' = s\<lparr>gs_shared := fst eff, gs_group := g\<rparr>
      in case out of
           Goto p \<Rightarrow> Ret (s'\<lparr>gs_members := ps @ p # qs\<rparr>)
         | Spawn q p \<Rightarrow> Ret (s'\<lparr>gs_group := group_Go g, gs_members := ps @ p # qs @ [q]\<rparr>)
         | Return r \<Rightarrow> bind_exec (group_done r g)
             (\<lambda>g'. Ret (s'\<lparr>gs_group := g', gs_members := ps @ qs, gs_results := gs_results s @ [r]\<rparr>)))"

inductive group_step :: "('sh, 'p) behaviour \<Rightarrow> bool \<Rightarrow> ('sh, 'p) gstate \<Rightarrow> ('sh, 'p) gstate \<Rightarrow> bool" for R own where
  member: "gs_members s = ps @ p # qs \<Longrightarrow> R (g_done (gs_group s)) (gs_shared s) p own eff out
    \<Longrightarrow> advance s ps qs eff out = Ret s' \<Longrightarrow> group_step R own s s'"

inductive_cases group_stepE: "group_step R own s s'"

text \<open>Runs of any steps, and runs of a number of own steps.\<close>

inductive group_reach :: "('sh, 'p) behaviour \<Rightarrow> ('sh, 'p) gstate \<Rightarrow> ('sh, 'p) gstate \<Rightarrow> bool" for R s where
  reach_refl: "group_reach R s s"
| reach_step: "group_reach R s t \<Longrightarrow> group_step R own t u \<Longrightarrow> group_reach R s u"

inductive own_run :: "('sh, 'p) behaviour \<Rightarrow> nat \<Rightarrow> ('sh, 'p) gstate \<Rightarrow> ('sh, 'p) gstate \<Rightarrow> bool" for R where
  own_refl: "own_run R 0 s s"
| own_step: "group_step R True s t \<Longrightarrow> own_run R n t u \<Longrightarrow> own_run R (Suc n) s u"

inductive_cases own_runE: "own_run R n s u"

definition settled :: "('sh, 'p) behaviour \<Rightarrow> ('sh, 'p) gstate \<Rightarrow> bool" where
  "settled R s \<longleftrightarrow> (\<forall>t. \<not> group_step R True s t)"

subsection \<open>Bookkeeping\<close>

fun first_Some :: "'a option list \<Rightarrow> 'a option" where
  "first_Some [] = None"
| "first_Some (Some a # xs) = Some a"
| "first_Some (None # xs) = first_Some xs"

lemma first_Some_append: "first_Some (xs @ ys) = (case first_Some xs of None \<Rightarrow> first_Some ys | Some a \<Rightarrow> Some a)"
  by (induction xs rule: first_Some.induct) simp_all

text \<open>The counter is the number of members, and the error is the first one returned, which has cancelled the context.\<close>

definition group_ok :: "('sh, 'p) gstate \<Rightarrow> bool" where
  "group_ok s \<longleftrightarrow> g_wg (gs_group s) = length (gs_members s) \<and> g_err (gs_group s) = first_Some (gs_results s)
     \<and> (g_err (gs_group s) \<noteq> None \<longrightarrow> g_done (gs_group s))"

lemma fold_Go: "fold (\<lambda>_. group_Go) ps g = g\<lparr>g_wg := g_wg g + length ps\<rparr>"
  by (induction ps arbitrary: g) (simp_all add: group_Go_def)

lemma group_ok_init: "group_ok (init_group sh ps)"
  by (simp add: group_ok_def init_group_def WithContext_def fold_Go)

lemma group_done_Ret:
  "0 < g_wg g \<Longrightarrow> group_done r g = Ret (g\<lparr>g_wg := g_wg g - 1, g_err := (case g_err g of None \<Rightarrow> r | Some e \<Rightarrow> Some e),
     g_done := (g_done g \<or> g_err g = None \<and> r \<noteq> None)\<rparr>)"
  by (cases g; cases r; cases "g_err g") (simp_all add: group_done_def group_cancel_def)

lemmas group_simps = group_done_Ret group_cancel_def group_Go_def Let_def

text \<open>With the counter right, no step panics.\<close>

lemma advance_returns:
  assumes "group_ok s" "gs_members s = ps @ p # qs"
  shows "\<exists>s'. advance s ps qs eff out = Ret s'"
  using assms by (cases out) (simp_all add: advance_def group_ok_def group_simps)

lemma advance_ok:
  assumes "group_ok s" "gs_members s = ps @ p # qs" "advance s ps qs eff out = Ret s'"
  shows "group_ok s'"
proof (cases out)
  case (Return r)
  then show ?thesis
    using assms by (cases r; cases "first_Some (gs_results s)")
      (auto simp: advance_def group_ok_def group_simps first_Some_append)
qed (use assms in \<open>auto simp: advance_def group_ok_def group_simps\<close>)

lemma group_step_ok: "group_step R own s s' \<Longrightarrow> group_ok s \<Longrightarrow> group_ok s'"
  by (erule group_stepE) (rule advance_ok)

lemma group_reach_ok: "group_reach R s t \<Longrightarrow> group_ok s \<Longrightarrow> group_ok t"
  by (induction rule: group_reach.induct) (auto intro: group_step_ok)

lemma group_step_exists:
  assumes "group_ok s" "p \<in> set (gs_members s)" "R (g_done (gs_group s)) (gs_shared s) p own eff out"
  shows "\<exists>s'. group_step R own s s'"
  using assms advance_returns by (metis in_set_conv_decomp member)

lemma advance_sel:
  assumes "advance s ps qs eff out = Ret s'"
  shows "gs_shared s' = fst eff" "g_done (gs_group s) \<Longrightarrow> g_done (gs_group s')"
    "gs_members s' = ps @ (case out of Goto p \<Rightarrow> p # qs | Spawn q p \<Rightarrow> p # qs @ [q] | Return r \<Rightarrow> qs)"
  using assms
  by (auto simp: advance_def Let_def group_done_def group_cancel_def group_Go_def bind_exec_eq_Ret
      split: outcome.splits option.splits if_splits)

lemma group_step_done: "group_step R own s s' \<Longrightarrow> g_done (gs_group s) \<Longrightarrow> g_done (gs_group s')"
  by (auto elim: group_stepE dest: advance_sel(2))

lemma group_reach_trans: "group_reach R t u \<Longrightarrow> group_reach R s t \<Longrightarrow> group_reach R s u"
  by (induction rule: group_reach.induct) (auto intro: reach_step)

lemma own_run_reach: "own_run R n s t \<Longrightarrow> group_reach R s t"
proof (induction rule: own_run.induct)
  case (own_step s t n u)
  then show ?case using group_reach_trans reach_step [OF reach_refl own_step(1)] by blast
qed (rule reach_refl)

text \<open>The members of an outcome, and a bound on the own steps they can take.\<close>

fun outcome_members :: "'p outcome \<Rightarrow> 'p list \<Rightarrow> 'p list" where
  "outcome_members (Goto p) qs = p # qs"
| "outcome_members (Spawn q p) qs = p # qs @ [q]"
| "outcome_members (Return r) qs = qs"

definition total_weight :: "('p \<Rightarrow> nat) \<Rightarrow> 'p list \<Rightarrow> nat" where
  "total_weight weight ps = sum_list (map (Suc \<circ> weight) ps)"

lemma advance_members: "advance s ps qs eff out = Ret s' \<Longrightarrow> gs_members s' = ps @ outcome_members out qs"
  by (drule advance_sel(3)) (cases out; simp)

lemma total_weight_simps [simp]:
  "total_weight w [] = 0" "total_weight w (p # ps) = Suc (w p) + total_weight w ps"
  "total_weight w (ps @ qs) = total_weight w ps + total_weight w qs"
  by (simp_all add: total_weight_def)

lemma total_weight_outcome: "total_weight w (outcome_members out qs) = total_weight w (outcome_members out []) + total_weight w qs"
  by (cases out) simp_all

subsection \<open>Shutting down\<close>

locale shutdown =
  fixes R :: "('sh, 'p) behaviour"
    and weight :: "'p \<Rightarrow> nat"
    and waits :: "'p \<Rightarrow> bool"
    and inv :: "'sh \<Rightarrow> 'p list \<Rightarrow> bool"
  assumes own_decreases: "R True sh p True eff out \<Longrightarrow> total_weight weight (outcome_members out []) < Suc (weight p)"
    and own_keeps: "R True sh p True eff out \<Longrightarrow> \<not> waits p \<Longrightarrow> q \<in> set (outcome_members out []) \<Longrightarrow> \<not> waits q"
    and inv_kept: "R True sh p own eff out \<Longrightarrow> inv sh (ps @ p # qs) \<Longrightarrow> inv (fst eff) (ps @ outcome_members out qs)"
    and progress: "inv sh ps \<Longrightarrow> p \<in> set ps \<Longrightarrow> \<not> waits p \<Longrightarrow> \<exists>q\<in>set ps. \<exists>eff out. R True sh q True eff out"
begin

abbreviation cancelled :: "('sh, 'p) gstate \<Rightarrow> bool" where
  "cancelled s \<equiv> g_done (gs_group s) \<and> group_ok s \<and> inv (gs_shared s) (gs_members s)"

lemma step_cancelled: "group_step R own s t \<Longrightarrow> cancelled s \<Longrightarrow> cancelled t"
proof (intro conjI)
  assume st: "group_step R own s t" and c: "cancelled s"
  show "g_done (gs_group t)" using st c group_step_done by blast
  show "group_ok t" using st c group_step_ok by blast
  from st show "inv (gs_shared t) (gs_members t)"
  proof cases
    case (member ps p qs eff out)
    have "inv (fst eff) (ps @ outcome_members out qs)" using inv_kept member c by (metis (full_types))
    then show ?thesis using advance_sel(1) [OF member(3)] advance_members [OF member(3)] by simp
  qed
qed

lemma own_step_weight:
  assumes "group_step R True s t" "cancelled s"
  shows "total_weight weight (gs_members t) < total_weight weight (gs_members s)"
  using assms(1)
proof cases
  case (member ps p qs eff out)
  have "total_weight weight (outcome_members out []) < Suc (weight p)"
    using own_decreases member(2) assms(2) by (metis (full_types))
  then show ?thesis using member(1) advance_members [OF member(3)] total_weight_outcome [of weight out qs] by simp
qed

lemma own_run_bounded: "own_run R n s t \<Longrightarrow> cancelled s \<Longrightarrow> n \<le> total_weight weight (gs_members s)"
proof (induction rule: own_run.induct)
  case (own_step s t n u)
  then show ?case using own_step_weight [OF own_step(1)] step_cancelled [OF own_step(1)] by fastforce
qed simp

lemma own_run_cancelled: "own_run R n s t \<Longrightarrow> cancelled s \<Longrightarrow> cancelled t"
  by (induction rule: own_run.induct) (use step_cancelled in blast)+

lemma settles: "cancelled s \<Longrightarrow> \<exists>n t. own_run R n s t \<and> settled R t"
proof (induction "total_weight weight (gs_members s)" arbitrary: s rule: less_induct)
  case less
  show ?case
  proof (cases "settled R s")
    case True
    then show ?thesis using own_refl by blast
  next
    case False
    then obtain t where t: "group_step R True s t" by (auto simp: settled_def)
    then obtain n u where "own_run R n t u" "settled R u"
      using less.hyps [OF own_step_weight [OF t less.prems]] step_cancelled [OF t less.prems] by blast
    then show ?thesis using t own_step by blast
  qed
qed

lemma settled_waits: "settled R s \<Longrightarrow> cancelled s \<Longrightarrow> p \<in> set (gs_members s) \<Longrightarrow> waits p"
proof (rule ccontr)
  assume a: "settled R s" "cancelled s" "p \<in> set (gs_members s)" "\<not> waits p"
  then obtain q eff out where "q \<in> set (gs_members s)" "R True (gs_shared s) q True eff out"
    using progress by blast
  then have "\<exists>t. group_step R True s t" using a(2) group_step_exists [of s q R True eff out] by simp
  then show False using a(1) by (simp add: settled_def)
qed

lemma own_step_keeps:
  assumes "group_step R True s t" "cancelled s" "\<forall>p\<in>set (gs_members s). \<not> waits p"
  shows "\<forall>p\<in>set (gs_members t). \<not> waits p"
  using assms(1)
proof cases
  case (member ps p qs eff out)
  have "\<forall>q\<in>set (outcome_members out []). \<not> waits q"
    using own_keeps member(1,2) assms(2,3) by (metis (full_types) in_set_conv_decomp)
  moreover have "set (outcome_members out qs) = set (outcome_members out []) \<union> set qs" by (cases out) auto
  ultimately show ?thesis using member(1) advance_members [OF member(3)] assms(3) by auto
qed

text \<open>If nobody waits for the outside, the members end, and \<open>Wait\<close> returns the first error.\<close>

lemma completes:
  assumes "cancelled s" "\<forall>p\<in>set (gs_members s). \<not> waits p" "own_run R n s t" "settled R t"
  shows "gs_members t = [] \<and> group_Wait (gs_group t) = Some (first_Some (gs_results t), gs_group t)"
proof -
  have "\<forall>p\<in>set (gs_members t). \<not> waits p"
    using assms(3,1,2) by (induction rule: own_run.induct) (use own_step_keeps step_cancelled in blast)+
  moreover have c: "cancelled t" using own_run_cancelled assms by blast
  ultimately have "p \<notin> set (gs_members t)" for p using settled_waits [OF assms(4) c, of p] by auto
  then have "gs_members t = []" by (cases "gs_members t") auto
  then show ?thesis using c by (simp add: group_Wait_def group_ok_def group_cancel_def)
qed

end

end
