(* ===== verification/Lifecycle.thy ===== *)
theory Lifecycle
  imports Gvproxy Errgroup
begin

text \<open>
  How \<open>gvproxy\<close> runs and ends: the goroutines that \<open>main\<close> and \<open>run\<close> of \<open>cmd/gvproxy/main.go\<close> start in
  one \<open>errgroup.Group\<close>, as points of their code and a step relation (\<open>gv_behaviour\<close>), on top of
  \<open>Errgroup\<close>. The tasks are those that \<open>gv_run\<close> computes. Shared between them are the listeners that
  are closed and the files that are removed. What a packet does to the network is the matter of the
  other theories; here a packet only wakes its goroutine.

  The lemmas say which error \<open>Wait\<close> returns, that the program ends after a signal when no goroutine
  waits for a peer, and that a loop for VPNKit clients keeps it from ending.
\<close>

subsection \<open>Points\<close>

datatype gv_point =
    PRun "gv_task list" "gerror option"
  | PSignal
  | PWaitClose gv_listener
  | PServe gv_listener gv_handler
  | PDebugLog
  | PVpnTop listen_target
  | PVpnAccept listen_target
  | PVpnConn
  | PWaitRemove listen_target string
  | PAccept listen_target Protocol
  | PVfkitMagic listen_target
  | PSwitchTop Protocol "gv_listener option"
  | PSwitchRead Protocol "gv_listener option"
  | PForwardCreate string
  | PForwardTop string
  | PForwardAccept string
  | PForwardTunnel string

text \<open>
  Where the goroutine of a task begins. The connection of \<open>vfkit\<close> is the listening socket itself, so it
  is closed with it; other connections are not closed by another task.
\<close>

fun start_point :: "gv_task \<Rightarrow> gv_point" where
  "start_point (CloseOnDone ln) = PWaitClose ln"
| "start_point (ServeHTTP ln h) = PServe ln h"
| "start_point DebugLog = PDebugLog"
| "start_point (VpnKitLoop l) = PVpnTop l"
| "start_point (CloseAndRemove l sock) = PWaitRemove l sock"
| "start_point (AcceptOne l p) = PAccept l p"
| "start_point (AcceptVfkitConn l) = PVfkitMagic l"
| "start_point AcceptStdioConn = PSwitchTop StdioProtocol None"
| "start_point (SSHForwardLoop sock src dest identity) = PForwardCreate sock"

record gv_shared =
  sh_closed :: "gv_listener set"
  sh_removed :: "string list"

definition gv_shared0 :: gv_shared where
  "gv_shared0 = \<lparr>sh_closed = {}, sh_removed = []\<rparr>"

definition close_listener :: "gv_listener \<Rightarrow> gv_shared \<Rightarrow> gv_shared" where
  "close_listener ln sh = sh\<lparr>sh_closed := insert ln (sh_closed sh)\<rparr>"

definition remove_file :: "string \<Rightarrow> gv_shared \<Rightarrow> gv_shared" where
  "remove_file path sh = sh\<lparr>sh_removed := sh_removed sh @ [path]\<rparr>"

text \<open>The switch closes a connection when it is done with it; that of \<open>vfkit\<close> is the listening socket.\<close>

definition close_conn :: "gv_listener option \<Rightarrow> gv_shared \<Rightarrow> gv_shared" where
  "close_conn c sh = (case c of None \<Rightarrow> sh | Some ln \<Rightarrow> close_listener ln sh)"

definition accept_error :: "Protocol \<Rightarrow> gerror \<Rightarrow> gerror" where
  "accept_error p err = Wrap err (if p = QemuProtocol then ''qemu accept error'' else ''bess accept error'')"

subsection \<open>Steps\<close>

text \<open>
  Accepting on a closed listener, and reading from a closed connection, fail without help from
  outside; what they return otherwise, what \<open>Close\<close> returns and what an HTTP server or a VM makes of
  a connection, is not determined. The SSH forwards are closed by a goroutine outside of the group
  once the context is done, which ends a pending accept.
\<close>

inductive gv_behaviour :: "os_env \<Rightarrow> (gv_shared, gv_point) behaviour" for OS where
  run_start: "gv_behaviour OS dn sh (PRun (t # ts) err) True (sh, False) (Spawn (start_point t) (PRun ts err))"
| run_return: "gv_behaviour OS dn sh (PRun [] err) True (sh, False) (Return err)"
| signal_caught: "gv_behaviour OS dn sh PSignal False (sh, True) (Return (Some ''signal caught''))"
| signal_done: "gv_behaviour OS True sh PSignal True (sh, False) (Return None)"
| close_on_done: "gv_behaviour OS True sh (PWaitClose ln) True (close_listener ln sh, False) (Return r)"
| serve_request: "gv_behaviour OS dn sh (PServe ln h) False (sh, False) (Goto (PServe ln h))"
| serve_failed: "own \<longleftrightarrow> ln \<in> sh_closed sh
    \<Longrightarrow> gv_behaviour OS dn sh (PServe ln h) own (close_listener ln sh, False) (Return (Some err))"
| debug_tick: "gv_behaviour OS dn sh PDebugLog False (sh, False) (Goto PDebugLog)"
| debug_done: "gv_behaviour OS True sh PDebugLog True (sh, False) (Return None)"
| vpn_done: "gv_behaviour OS True sh (PVpnTop l) True (sh, False) (Return None)"
| vpn_next: "gv_behaviour OS False sh (PVpnTop l) True (sh, False) (Goto (PVpnAccept l))"
| vpn_accepted: "gv_behaviour OS dn sh (PVpnAccept l) False (sh, False) (Spawn PVpnConn (PVpnTop l))"
| vpn_accept_error: "gv_behaviour OS dn sh (PVpnAccept l) False (sh, False) (Goto (PVpnTop l))"
| vpn_conn_ends: "gv_behaviour OS dn sh PVpnConn False (sh, False) (Return None)"
| remove_on_done: "gv_behaviour OS True sh (PWaitRemove l sock) True
    (remove_file sock (close_listener (HostListener l) sh), False) (Return (close_and_remove OS sock))"
| accepted: "HostListener l \<notin> sh_closed sh
    \<Longrightarrow> gv_behaviour OS dn sh (PAccept l p) False (sh, False) (Goto (PSwitchTop p None))"
| accept_failed: "own \<longleftrightarrow> HostListener l \<in> sh_closed sh
    \<Longrightarrow> gv_behaviour OS dn sh (PAccept l p) own (sh, False) (Return (Some (accept_error p err)))"
| vfkit_accepted: "HostListener l \<notin> sh_closed sh
    \<Longrightarrow> gv_behaviour OS dn sh (PVfkitMagic l) False (sh, False) (Goto (PSwitchTop VfkitProtocol (Some (HostListener l))))"
| vfkit_failed: "own \<longleftrightarrow> HostListener l \<in> sh_closed sh
    \<Longrightarrow> gv_behaviour OS dn sh (PVfkitMagic l) own (sh, False) (Return (Some err))"
| switch_done: "gv_behaviour OS True sh (PSwitchTop p c) True (close_conn c sh, False) (Return None)"
| switch_next: "gv_behaviour OS False sh (PSwitchTop p c) True (sh, False) (Goto (PSwitchRead p c))"
| switch_packet: "gv_behaviour OS dn sh (PSwitchRead p c) False (sh, False) (Goto (PSwitchTop p c))"
| switch_read_failed: "own \<longleftrightarrow> (\<exists>ln \<in> sh_closed sh. c = Some ln)
    \<Longrightarrow> gv_behaviour OS dn sh (PSwitchRead p c) own (close_conn c sh, False) (Return (Some err))"
| forward_created: "gv_behaviour OS dn sh (PForwardCreate sock) False (sh, False) (Goto (PForwardTop sock))"
| forward_failed: "gv_behaviour OS dn sh (PForwardCreate sock) False (remove_file sock sh, False) (Return (Some err))"
| forward_done: "gv_behaviour OS True sh (PForwardTop sock) True (remove_file sock sh, False) (Return None)"
| forward_next: "gv_behaviour OS False sh (PForwardTop sock) True (sh, False) (Goto (PForwardAccept sock))"
| forward_accepted: "gv_behaviour OS dn sh (PForwardAccept sock) False (sh, False) (Goto (PForwardTunnel sock))"
| forward_accept_failed: "gv_behaviour OS dn sh (PForwardAccept sock) dn (sh, False) (Goto (PForwardTop sock))"
| forward_tunnelled: "gv_behaviour OS dn sh (PForwardTunnel sock) False (sh, False) (Goto (PForwardTop sock))"

inductive_cases gv_behaviourE: "gv_behaviour OS dn sh p own eff out"

text \<open>\<open>main\<close> starts two members: \<open>run\<close>, with what \<^const>\<open>gv_run\<close> has computed, and the one that waits for a signal.\<close>

definition gv_start :: "gv_task list \<Rightarrow> gerror option \<Rightarrow> (gv_shared, gv_point) gstate" where
  "gv_start ts err = init_group gv_shared0 [PRun ts err, PSignal]"

text \<open>
  The end of \<open>main\<close>: \<open>None\<close> while \<open>Wait\<close> blocks; then the file with the process number is removed and the
  program exits with the status that was deferred.
\<close>

definition gv_finish :: "gv_flags \<Rightarrow> Group \<Rightarrow> (string list \<times> nat) option" where
  "gv_finish f g =
     (case group_Wait g of
        None \<Rightarrow> None
      | Some (err, _) \<Rightarrow> Some (if pidFile f = [] then [] else [pidFile f], gv_exitCode err))"

subsection \<open>Who waits for a peer, and who closes what\<close>

fun is_forward :: "gv_task \<Rightarrow> bool" where
  "is_forward (SSHForwardLoop _ _ _ _) = True"
| "is_forward _ = False"

fun waits :: "gv_point \<Rightarrow> bool" where
  "waits (PRun ts err) = list_ex is_forward ts"
| "waits (PVpnAccept l) = True"
| "waits PVpnConn = True"
| "waits (PSwitchRead p c) = (c = None)"
| "waits (PForwardCreate sock) = True"
| "waits (PForwardTunnel sock) = True"
| "waits _ = False"

fun gv_weight :: "gv_point \<Rightarrow> nat" where
  "gv_weight (PRun ts err) = 2 * length ts"
| "gv_weight (PForwardAccept sock) = 1"
| "gv_weight _ = 0"

text \<open>The listeners without which a goroutine could not go on, and those that it will close.\<close>

fun task_uses :: "gv_task \<Rightarrow> gv_listener set" where
  "task_uses (ServeHTTP ln h) = {ln}"
| "task_uses (AcceptOne l p) = {HostListener l}"
| "task_uses (AcceptVfkitConn l) = {HostListener l}"
| "task_uses _ = {}"

fun task_closes :: "gv_task \<Rightarrow> gv_listener set" where
  "task_closes (CloseOnDone ln) = {ln}"
| "task_closes (CloseAndRemove l sock) = {HostListener l}"
| "task_closes _ = {}"

fun uses :: "gv_point \<Rightarrow> gv_listener set" where
  "uses (PRun ts err) = \<Union> (task_uses ` set ts)"
| "uses (PServe ln h) = {ln}"
| "uses (PAccept l p) = {HostListener l}"
| "uses (PVfkitMagic l) = {HostListener l}"
| "uses (PSwitchTop p c) = set_option c"
| "uses (PSwitchRead p c) = set_option c"
| "uses _ = {}"

fun closes :: "gv_point \<Rightarrow> gv_listener set" where
  "closes (PRun ts err) = \<Union> (task_closes ` set ts)"
| "closes (PWaitClose ln) = {ln}"
| "closes (PWaitRemove l sock) = {HostListener l}"
| "closes _ = {}"

definition closers_ok :: "gv_shared \<Rightarrow> gv_point list \<Rightarrow> bool" where
  "closers_ok sh ps \<longleftrightarrow> \<Union> (uses ` set ps) \<subseteq> sh_closed sh \<union> \<Union> (closes ` set ps)"

lemma start_point_simps [simp]:
  "uses (start_point t) = task_uses t" "closes (start_point t) = task_closes t" "gv_weight (start_point t) = 0"
  "waits (start_point t) = is_forward t"
  by (cases t; simp)+

lemma shared_simps [simp]:
  "sh_closed (close_listener ln sh) = insert ln (sh_closed sh)" "sh_closed (remove_file path sh) = sh_closed sh"
  "sh_closed (close_conn c sh) = sh_closed sh \<union> set_option c"
  by (auto simp: close_listener_def remove_file_def close_conn_def split: option.splits)

lemma behaviour_closers:
  assumes "gv_behaviour OS dn sh p own eff out"
  shows "\<Union> (uses ` set (outcome_members out [])) \<subseteq> uses p"
    "sh_closed sh \<union> closes p \<subseteq> sh_closed (fst eff) \<union> \<Union> (closes ` set (outcome_members out []))"
  using assms by (cases; fastforce)+

lemma set_outcome_members: "set (outcome_members out qs) = set (outcome_members out []) \<union> set qs"
  by (cases out) auto

lemma closers_sets:
  "A \<union> u \<subseteq> C \<union> (B \<union> c) \<Longrightarrow> u' \<subseteq> u \<Longrightarrow> C \<union> c \<subseteq> C' \<union> c' \<Longrightarrow> A \<union> u' \<subseteq> C' \<union> (B \<union> c')"
  by blast

lemma closers_ok_split:
  "set ms = set ps \<union> set qs \<union> X \<Longrightarrow> closers_ok sh ms \<longleftrightarrow>
   \<Union> (uses ` (set ps \<union> set qs)) \<union> \<Union> (uses ` X) \<subseteq> sh_closed sh \<union> (\<Union> (closes ` (set ps \<union> set qs)) \<union> \<Union> (closes ` X))"
  by (simp add: closers_ok_def image_Un)

lemma closers_ok_kept:
  assumes "gv_behaviour OS dn sh p own eff out" "closers_ok sh (ps @ p # qs)"
  shows "closers_ok (fst eff) (ps @ outcome_members out qs)"
proof -
  have "set (ps @ p # qs) = set ps \<union> set qs \<union> {p}"
    "set (ps @ outcome_members out qs) = set ps \<union> set qs \<union> set (outcome_members out [])"
    using set_outcome_members [of out qs] by auto
  note split = this [THEN closers_ok_split]
  have "\<Union> (uses ` (set ps \<union> set qs)) \<union> uses p \<subseteq> sh_closed sh \<union> (\<Union> (closes ` (set ps \<union> set qs)) \<union> closes p)"
    using assms(2) split(1) [of sh] by simp
  from closers_sets [OF this behaviour_closers [OF assms(1)]] show ?thesis using split(2) by blast
qed

lemma run_can_step: "\<exists>sh' c out. gv_behaviour OS dn sh (PRun ts err) True (sh', c) out"
  by (cases ts) (metis run_return, metis run_start)

lemma closer_steps: "ln \<in> closes q \<Longrightarrow> \<exists>eff out. gv_behaviour OS True sh q True eff out"
  by (cases q) (auto simp: run_can_step intro: gv_behaviour.intros)

lemma read_closed:
  "ln \<in> sh_closed sh \<Longrightarrow> gv_behaviour OS dn sh (PSwitchRead p (Some ln)) True (close_conn (Some ln) sh, False) (Return (Some err))"
  by (rule switch_read_failed) simp

lemma closed_user_steps:
  "ln \<in> uses q \<Longrightarrow> ln \<in> sh_closed sh \<Longrightarrow> \<exists>eff out. gv_behaviour OS True sh q True eff out"
  by (cases q) (auto simp: run_can_step intro: gv_behaviour.intros read_closed)

text \<open>Without a listener to wait for, and without a peer, a goroutine can go on once the context is done.\<close>

lemma free_steps: "uses q = {} \<Longrightarrow> \<not> waits q \<Longrightarrow> \<exists>eff out. gv_behaviour OS True sh q True eff out"
  by (cases q) (auto simp: run_can_step intro: gv_behaviour.intros)

lemma gv_progress:
  assumes "closers_ok sh ps" "p \<in> set ps" "\<not> waits p"
  shows "\<exists>q\<in>set ps. \<exists>eff out. gv_behaviour OS True sh q True eff out"
proof (cases "uses p = {}")
  case True
  then show ?thesis using assms(2,3) free_steps by blast
next
  case False
  then obtain ln where ln: "ln \<in> uses p" by blast
  then consider "ln \<in> sh_closed sh" | q where "q \<in> set ps" "ln \<in> closes q"
    using assms(1,2) unfolding closers_ok_def by blast
  then show ?thesis
  proof cases
    case 1
    then show ?thesis using ln assms(2) closed_user_steps by blast
  next
    case 2
    then show ?thesis using closer_steps by blast
  qed
qed

interpretation gv_shutdown: shutdown "gv_behaviour OS" gv_weight waits closers_ok for OS
proof
  show "total_weight gv_weight (outcome_members out []) < Suc (gv_weight p)" if "gv_behaviour OS True sh p True eff out" for sh p eff out
    using that by (cases; simp)
  show "\<not> waits q" if "gv_behaviour OS True sh p True eff out" "\<not> waits p" "q \<in> set (outcome_members out [])" for sh p eff out q
    using that by (cases; auto)
qed (use closers_ok_kept gv_progress in auto)

subsection \<open>The tasks of \<open>run\<close>\<close>

text \<open>Every listener that a task of \<open>run\<close> serves is closed by another of its tasks; the one for VPNKit clients is not.\<close>

definition closed_tasks :: "gv_task list \<Rightarrow> bool" where
  "closed_tasks ts \<longleftrightarrow> \<Union> (task_uses ` set ts) \<subseteq> \<Union> (task_closes ` set ts)"

lemma closed_tasks_simps [simp]:
  "closed_tasks []" "closed_tasks [DebugLog]" "closed_tasks [VpnKitLoop l]" "closed_tasks [AcceptStdioConn]"
  "closed_tasks (httpServe ln h)" "closed_tasks [CloseAndRemove l sock, AcceptOne l p]"
  "closed_tasks [CloseAndRemove l sock, AcceptVfkitConn l]" "closed_tasks [SSHForwardLoop sock src dest i]"
  by (simp_all add: closed_tasks_def httpServe_def)

lemma closed_tasks_append: "closed_tasks ts \<Longrightarrow> closed_tasks us \<Longrightarrow> closed_tasks (ts @ us)"
  by (auto simp: closed_tasks_def)

lemma gv_steps_closed: "\<forall>x \<in> set ss. closed_tasks (fst x) \<Longrightarrow> closed_tasks (fst (gv_steps ss))"
  by (induction ss rule: gv_steps.induct) (auto split: prod.splits intro: closed_tasks_append)

lemma step_closed:
  "closed_tasks (fst (endpoint_step pf OS f ep))" "closed_tasks (fst (forward_step f i))"
  "\<forall>l. closed_tasks (tasks l) \<Longrightarrow> closed_tasks (fst (socket_step sock listen tasks))"
  by (auto simp: endpoint_step_def forward_step_def socket_step_def Let_def split: sum.splits if_splits)

lemma gateway_step_closed:
  assumes "gateway_step E = Ret gw"
  shows "closed_tasks (fst gw)"
proof -
  obtain r where "gw = (case r of Inl err \<Rightarrow> ([], Some err) | Inr a \<Rightarrow> (httpServe (StackListener a) GatewayMux, None))"
    using assms unfolding gateway_step_def bind_exec_eq_Ret by auto
  then show ?thesis by (cases r) simp_all
qed

lemma run_steps_closed:
  "closed_tasks ts \<Longrightarrow> closed_tasks (fst gw) \<Longrightarrow> \<forall>x \<in> set (run_steps pf OS f ts gw). closed_tasks (fst x)"
  unfolding run_steps_def by (auto intro: step_closed)

lemma gv_run_closed:
  assumes "gv_run pf OS E R f cfg = Ret (vn, ts, err)"
  shows "closed_tasks ts"
proof -
  obtain us e where us: "gv_steps (map (endpoint_step pf OS f) (gv_endpoints f)) = (us, e)" by force
  have "closed_tasks (fst (gv_steps (map (endpoint_step pf OS f) (gv_endpoints f))))"
    by (rule gv_steps_closed) (auto intro: step_closed)
  then have cu: "closed_tasks us" using us by simp
  obtain r where r: "vn_New E R cfg = Ret r" using assms by (cases "vn_New E R cfg") (simp_all add: gv_run_def)
  show ?thesis
  proof (cases "isl r \<or> e \<noteq> None")
    case True
    then show ?thesis using assms r us cu by (cases r) (auto simp: gv_run_def)
  next
    case False
    then obtain gw where gw: "gateway_step E = Ret gw" "gv_steps (run_steps pf OS f us gw) = (ts, err)"
      using assms r us by (cases r) (auto simp: gv_run_def bind_exec_eq_Ret)
    show ?thesis using gv_steps_closed [OF run_steps_closed [OF cu gateway_step_closed [OF gw(1)]]] gw(2) by (metis fst_conv)
  qed
qed

lemma closers_ok_start: "closed_tasks ts \<Longrightarrow> closers_ok (gs_shared (gv_start ts err)) (gs_members (gv_start ts err))"
  by (simp add: closers_ok_def gv_start_def init_group_def closed_tasks_def gv_shared0_def)

lemma group_ok_start: "group_ok (gv_start ts err)"
  by (simp add: gv_start_def group_ok_init)

lemma closers_ok_step:
  assumes "group_step (gv_behaviour OS) own s t" "closers_ok (gs_shared s) (gs_members s)"
  shows "closers_ok (gs_shared t) (gs_members t)"
  using assms(1)
proof cases
  case (member ps p qs eff out)
  then show ?thesis using closers_ok_kept assms(2) advance_sel(1) advance_members by metis
qed

lemma closers_ok_reach:
  assumes "group_reach (gv_behaviour OS) (gv_start ts err) s" "closed_tasks ts"
  shows "closers_ok (gs_shared s) (gs_members s)"
  using assms by (induction rule: group_reach.induct) (auto intro: closers_ok_start closers_ok_step)

subsection \<open>Waiting for the tasks\<close>

text \<open>
  C19. Whatever the goroutines of the program do, the counter of the wait group never falls below zero;
  \<open>Wait\<close> returns exactly when all of them have ended, and returns the first error that one
  of them returned; and any error cancels the context of all of them.
\<close>

theorem gv_wait_result:
  assumes "group_reach (gv_behaviour OS) (gv_start ts err) s"
  shows "(\<forall>ps p qs eff out. gs_members s = ps @ p # qs \<longrightarrow> advance s ps qs eff out \<noteq> Panic)
    \<and> group_Wait (gs_group s) =
        (if gs_members s = [] then Some (first_Some (gs_results s), group_cancel (gs_group s)) else None)
    \<and> (first_Some (gs_results s) \<noteq> None \<longrightarrow> g_done (gs_group s))"
proof -
  have ok: "group_ok s" using group_reach_ok [OF assms group_ok_start] .
  then have "advance s ps qs eff out \<noteq> Panic" if "gs_members s = ps @ p # qs" for ps p qs eff out
    using advance_returns [OF ok that] by (metis exec.distinct(1))
  then show ?thesis using ok by (auto simp: group_ok_def group_Wait_def)
qed

text \<open>
  C4. Shutting down: once the context is cancelled and no goroutine waits for a peer, the program ends by
  itself. The number of own steps is bounded, they can be taken until none is left, and then all tasks
  have ended, \<open>Wait\<close> returns the first error, the file with the process number is removed
  and the program exits.
\<close>

theorem gv_shutdown_completes:
  assumes "gv_run pf OS E R f cfg = Ret (vn, ts, err)"
    and "group_reach (gv_behaviour OS) (gv_start ts err) s" "g_done (gs_group s)" "list_all (\<lambda>p. \<not> waits p) (gs_members s)"
  shows "(\<forall>n t. own_run (gv_behaviour OS) n s t \<longrightarrow> n \<le> total_weight gv_weight (gs_members s))
    \<and> (\<exists>n t. own_run (gv_behaviour OS) n s t \<and> settled (gv_behaviour OS) t)
    \<and> (\<forall>n t. own_run (gv_behaviour OS) n s t \<and> settled (gv_behaviour OS) t \<longrightarrow>
         gs_members t = [] \<and> group_Wait (gs_group t) = Some (first_Some (gs_results t), gs_group t)
         \<and> gv_finish f (gs_group t) = Some (if pidFile f = [] then [] else [pidFile f], 0))"
proof -
  have c: "g_done (gs_group s) \<and> group_ok s \<and> closers_ok (gs_shared s) (gs_members s)"
    using assms(3) group_reach_ok [OF assms(2) group_ok_start] closers_ok_reach [OF assms(2) gv_run_closed [OF assms(1)]] by blast
  have w: "\<forall>p \<in> set (gs_members s). \<not> waits p" using assms(4) by (simp add: list_all_iff)
  have "gv_finish f g = Some (if pidFile f = [] then [] else [pidFile f], 0)" if "group_Wait g = Some (e, g')" for g e g'
    using that by (simp add: gv_finish_def gv_exitCode_def)
  then show ?thesis
    using gv_shutdown.own_run_bounded [OF _ c] gv_shutdown.settles [OF c] gv_shutdown.completes [OF c w] by blast
qed

text \<open>A goroutine without own steps stays where it is while others take theirs.\<close>

lemma stuck_stays:
  assumes "own_run R n s t" "p \<in> set (gs_members s)" "\<And>dn sh eff out. \<not> R dn sh p True eff out"
  shows "p \<in> set (gs_members t)"
  using assms
proof (induction rule: own_run.induct)
  case (own_step s t n u)
  from own_step(1) have "p \<in> set (gs_members t)"
  proof cases
    case (member ps q qs eff out)
    then have "p \<noteq> q" using own_step(5) by blast
    then show ?thesis
      using member(1) own_step(4) advance_members [OF member(3)] set_outcome_members [of out qs] by auto
  qed
  then show ?case using own_step by blast
qed

text \<open>
  C39. The loop for VPNKit clients keeps the program from ending: nothing closes its listener, so once it waits
  for a client, no number of own steps of the program makes \<open>Wait\<close> return, although a signal has
  cancelled the context; only another client would.
\<close>

theorem vpnkit_blocks_shutdown:
  assumes "group_reach (gv_behaviour OS) (gv_start ts err) s" "PVpnAccept l \<in> set (gs_members s)"
    and "own_run (gv_behaviour OS) n s t"
  shows "PVpnAccept l \<in> set (gs_members t) \<and> gv_finish f (gs_group t) = None"
proof -
  have "\<not> gv_behaviour OS dn sh (PVpnAccept l) True eff out" for dn sh eff out
    by (auto elim: gv_behaviour.cases)
  then have m: "PVpnAccept l \<in> set (gs_members t)" using stuck_stays [OF assms(3,2)] by blast
  have "group_ok t" using group_reach_ok [OF group_reach_trans [OF own_run_reach [OF assms(3)] assms(1)] group_ok_start] .
  then have "group_Wait (gs_group t) = None" using m by (auto simp: group_Wait_def group_ok_def)
  then show ?thesis using m by (simp add: gv_finish_def)
qed

subsection \<open>Witnesses\<close>

lemma member_step:
  assumes "R (g_done (gs_group s)) (gs_shared s) p own eff out" "gs_members s = ps @ p # qs" "advance s ps qs eff out = Ret t"
    and "group_reach R u s"
  shows "group_reach R u t"
  using assms(1-3) by (intro reach_step [OF assms(4) group_step.member])

definition gateway80 :: gv_listener where
  "gateway80 = StackListener \<lparr>fa_NIC = 1, fa_Addr = [192, 168, 127, 1], fa_Port = 80\<rparr>"

lemma sample_run:
  "\<exists>vn. gv_run Linux free_os quiet_stack (gv_orders gv_defaults) gv_defaults (gv_config quiet_main gv_defaults)
     = Ret (vn, httpServe gateway80 GatewayMux, None)"
proof -
  have "env_listen (env_ports quiet_stack) Map.empty ''tcp'' (''127.0.0.1:'' @ Itoa (gv_sshPort gv_defaults)) = None"
    by (simp add: quiet_stack_def free_ports_def)
  note vn = gv_network_up_eq [OF sample_main sample_env(1) gv_orders_ok this]
  have "gateway_step quiet_stack = Ret (httpServe gateway80 GatewayMux, None)"
    by (simp add: gateway_listener quiet_stack_def gateway80_def)
  then show ?thesis
    unfolding gv_run_def vn by (simp add: run_steps_def socket_step_def gv_defaults_def)
qed

lemma signal_reach:
  "group_reach (gv_behaviour OS) (gv_start ts err)
     \<lparr>gs_shared = gv_shared0, gs_group = \<lparr>g_done = True, g_wg = 1, g_err = Some ''signal caught''\<rparr>,
      gs_members = [PRun ts err], gs_results = [Some ''signal caught'']\<rparr>"
proof (rule member_step [where R = "gv_behaviour OS", OF signal_caught _ _ reach_refl])
  show "gs_members (gv_start ts err) = [PRun ts err] @ PSignal # []" by (simp add: gv_start_def init_group_def)
  show "advance (gv_start ts err) [PRun ts err] [] (gs_shared (gv_start ts err), True) (Return (Some ''signal caught'')) = Ret
     \<lparr>gs_shared = gv_shared0, gs_group = \<lparr>g_done = True, g_wg = 1, g_err = Some ''signal caught''\<rparr>,
      gs_members = [PRun ts err], gs_results = [Some ''signal caught'']\<rparr>"
    by (simp add: advance_def gv_start_def init_group_def WithContext_def group_simps)
qed

theorem gv_wait_result_witness:
  "\<exists>s. group_reach (gv_behaviour free_os) (gv_start [] None) s \<and> gs_members s \<noteq> [] \<and> group_Wait (gs_group s) = None
     \<and> g_done (gs_group s)"
  using signal_reach [of free_os "[]" None] gv_wait_result [OF signal_reach [of free_os "[]" None]]
  by (intro exI conjI) auto

theorem gv_shutdown_completes_witness:
  "\<exists>ts s n t. group_reach (gv_behaviour free_os) (gv_start ts None) s \<and> own_run (gv_behaviour free_os) n s t
     \<and> settled (gv_behaviour free_os) t \<and> gv_finish gv_defaults (gs_group t) = Some ([], 0)"
proof -
  obtain vn where run: "gv_run Linux free_os quiet_stack (gv_orders gv_defaults) gv_defaults (gv_config quiet_main gv_defaults)
     = Ret (vn, httpServe gateway80 GatewayMux, None)" using sample_run by blast
  let ?s = "\<lparr>gs_shared = gv_shared0, gs_group = \<lparr>g_done = True, g_wg = 1, g_err = Some ''signal caught''\<rparr>,
      gs_members = [PRun (httpServe gateway80 GatewayMux) None], gs_results = [Some ''signal caught'']\<rparr>"
  have s: "group_reach (gv_behaviour free_os) (gv_start (httpServe gateway80 GatewayMux) None) ?s" by (rule signal_reach)
  have d: "g_done (gs_group ?s)" "list_all (\<lambda>p. \<not> waits p) (gs_members ?s)" by (simp_all add: httpServe_def)
  note c = gv_shutdown_completes [OF run s d]
  obtain n t where t: "own_run (gv_behaviour free_os) n ?s t" "settled (gv_behaviour free_os) t"
    using c [THEN conjunct2, THEN conjunct1] by blast
  then have "gv_finish gv_defaults (gs_group t) = Some (if pidFile gv_defaults = [] then [] else [pidFile gv_defaults], 0)"
    using c [THEN conjunct2, THEN conjunct2] by blast
  then have "gv_finish gv_defaults (gs_group t) = Some ([], 0)" by (simp add: gv_defaults_def)
  then show ?thesis using s t by (intro exI conjI)
qed

definition vpn_listener :: listen_target where
  "vpn_listener = LUnix ''/run/vpnkit.sock''"

definition vpn_stuck :: "(gv_shared, gv_point) gstate" where
  "vpn_stuck = \<lparr>gs_shared = gv_shared0, gs_group = \<lparr>g_done = True, g_wg = 2, g_err = Some ''signal caught''\<rparr>,
     gs_members = [PRun [] None, PVpnAccept vpn_listener], gs_results = [Some ''signal caught'']\<rparr>"

lemma vpn_stuck_reach: "group_reach (gv_behaviour OS) (gv_start [VpnKitLoop vpn_listener] None) vpn_stuck"
proof -
  let ?s = "\<lambda>ms. \<lparr>gs_shared = gv_shared0, gs_group = \<lparr>g_done = False, g_wg = 3, g_err = None\<rparr>, gs_members = ms, gs_results = []\<rparr>"
  let ?r = "group_reach (gv_behaviour OS) (gv_start [VpnKitLoop vpn_listener] None)"
  note step = member_step [where R = "gv_behaviour OS"]
  have "?r (?s [PRun [] None, PSignal, PVpnTop vpn_listener])"
    by (rule step [where s = "gv_start [VpnKitLoop vpn_listener] None" and p = "PRun [VpnKitLoop vpn_listener] None"
          and out = "Spawn (start_point (VpnKitLoop vpn_listener)) (PRun [] None)" and eff = "(gv_shared0, False)"
          and ps = "[]" and qs = "[PSignal]" and own = True, rotated 3, OF reach_refl])
      (simp_all add: gv_start_def init_group_def advance_def WithContext_def group_simps run_start del: start_point.simps,
       simp add: start_point.simps)
  then have "?r (?s [PRun [] None, PSignal, PVpnAccept vpn_listener])"
    by (rule step [where p = "PVpnTop vpn_listener" and out = "Goto (PVpnAccept vpn_listener)" and eff = "(gv_shared0, False)"
          and ps = "[PRun [] None, PSignal]" and qs = "[]" and own = True, rotated 3])
      (simp_all add: advance_def vpn_next)
  then show ?thesis
    by (rule step [where p = PSignal and out = "Return (Some ''signal caught'')" and eff = "(gv_shared0, True)"
          and ps = "[PRun [] None]" and qs = "[PVpnAccept vpn_listener]" and own = False, rotated 3])
      (simp_all add: advance_def signal_caught group_simps vpn_stuck_def)
qed

theorem vpnkit_blocks_shutdown_witness:
  "\<exists>s t. group_reach (gv_behaviour free_os) (gv_start [VpnKitLoop vpn_listener] None) s \<and> g_done (gs_group s)
     \<and> own_run (gv_behaviour free_os) 1 s t \<and> PVpnAccept vpn_listener \<in> set (gs_members t) \<and> gv_finish gv_defaults (gs_group t) = None"
proof -
  let ?t = "vpn_stuck\<lparr>gs_group := \<lparr>g_done = True, g_wg = 1, g_err = Some ''signal caught''\<rparr>,
     gs_members := [PVpnAccept vpn_listener], gs_results := [Some ''signal caught'', None]\<rparr>"
  have "group_step (gv_behaviour free_os) True vpn_stuck ?t"
    by (rule group_step.member [where R = "gv_behaviour free_os" and ps = "[]", OF _ run_return]) (simp_all add: vpn_stuck_def advance_def group_simps)
  then have own: "own_run (gv_behaviour free_os) 1 vpn_stuck ?t" using own_step [OF _ own_refl] by simp
  have "PVpnAccept vpn_listener \<in> set (gs_members vpn_stuck)" "g_done (gs_group vpn_stuck)" by (simp_all add: vpn_stuck_def)
  then show ?thesis using vpnkit_blocks_shutdown [OF vpn_stuck_reach _ own] vpn_stuck_reach own by blast
qed

end
