(* ===== verification/Ssh.thy ===== *)
theory Ssh
  imports Ports Transport
begin

text \<open>
  The SSH client, \<open>pkg/sshclient\<close>: a connection to an SSH server (the bastion) through which sockets
  of the virtual machine are reached, its set-up with retries, and the tunnelling of accepted
  connections. The SSH library, the sockets and the clock are parameters: every call returns what
  an environment says, which may depend on the calls made before. The calls are recorded.
\<close>

datatype ssh_event =
    EvUmask "32 word"
  | EvListen string string
  | EvConnect
  | EvSleep nat
  | EvClientConn string
  | EvDial string
  | EvAlive
  | EvAccept
  | EvCopy bool
  | EvCloseWrite bool
  | EvClose string

type_synonym ssh_trace = "ssh_event list"

text \<open>
  \<open>env_done\<close> says whether the context is cancelled, \<open>env_sleep\<close> whether a sleep was not interrupted,
  \<open>env_halfclose\<close> whether an accepted connection supports half-close.
\<close>

record ssh_env =
  env_connect :: "ssh_trace \<Rightarrow> gerror option"
  env_clientConn :: "ssh_trace \<Rightarrow> gerror option"
  env_sshDial :: "ssh_trace \<Rightarrow> gerror option"
  env_alive :: "ssh_trace \<Rightarrow> gerror option"
  env_done :: "ssh_trace \<Rightarrow> bool"
  env_sleep :: "ssh_trace \<Rightarrow> bool"
  env_accept :: "ssh_trace \<Rightarrow> gerror option"
  env_halfclose :: "ssh_trace \<Rightarrow> bool"

subsection \<open>Keys\<close>

text \<open>Reading and parsing a private key: the last component says that a passphrase is missing.\<close>

record key_env =
  ReadFile :: "string \<Rightarrow> string result"
  ParsePrivateKey :: "string \<Rightarrow> (gerror \<times> bool) + string"
  ParsePrivateKeyWithPassphrase :: "string \<Rightarrow> string \<Rightarrow> string result"

definition PublicKey :: "key_env \<Rightarrow> string \<Rightarrow> string \<Rightarrow> string result" where
  "PublicKey K path passphrase =
     (case ReadFile K path of
        Inl err \<Rightarrow> Inl err
      | Inr pem \<Rightarrow>
          (case ParsePrivateKey K pem of
             Inr signer \<Rightarrow> Inr signer
           | Inl (err, missing) \<Rightarrow>
               if \<not> missing then Inl err else ParsePrivateKeyWithPassphrase K pem passphrase))"

text \<open>The lines of the file \<open>known_hosts\<close>, parsed: the hosts and the key of a line, or an error, which skips the line.\<close>

fun host_key :: "string \<Rightarrow> string \<Rightarrow> (gerror + string list \<times> string) list \<Rightarrow> string option" where
  "host_key host hashhost [] = None"
| "host_key host hashhost (Inl err # ls) = host_key host hashhost ls"
| "host_key host hashhost (Inr (hosts, k) # ls) =
     (if list_ex (\<lambda>h. h = host \<or> h = hashhost) hosts then Some k else host_key host hashhost ls)"

definition HostKey :: "(gerror + string list \<times> string) list result \<Rightarrow> (string \<Rightarrow> string) \<Rightarrow> string \<Rightarrow> string option" where
  "HostKey knownHosts HashHostname host =
     (case knownHosts of Inl err \<Rightarrow> None | Inr ls \<Rightarrow> host_key host (HashHostname host) ls)"

text \<open>\<open>home\<close> is the result of \<open>UserHomeDir\<close>, \<open>user\<close> that of \<open>LookupId\<close>.\<close>

definition getHome :: "string result \<Rightarrow> string result \<Rightarrow> string" where
  "getHome home user =
     (case home of
        Inr env \<Rightarrow> if env \<noteq> [] then env else (case user of Inl err \<Rightarrow> [] | Inr d \<Rightarrow> d)
      | Inl err \<Rightarrow> (case user of Inl err \<Rightarrow> [] | Inr d \<Rightarrow> d))"

subsection \<open>Bastion\<close>

datatype auth_method = AuthPublicKey string | AuthPassword string

datatype host_key_callback = InsecureIgnoreHostKey | FixedHostKey string

record ClientConfig =
  cc_User :: string
  cc_Auth :: "auth_method list"
  cc_HostKeyCallback :: host_key_callback
  cc_Timeout :: nat

record Bastion =
  bst_Client :: bool
  bst_Config :: ClientConfig
  bst_Host :: string
  bst_Port :: string
  bst_Path :: string

text \<open>\<open>reconnect\<close>; the flag says that a connection is given.\<close>

definition reconnect :: "ssh_env \<Rightarrow> Bastion \<Rightarrow> bool \<Rightarrow> ssh_trace \<Rightarrow> gerror option \<times> Bastion \<times> ssh_trace" where
  "reconnect E b conn tr =
     (let tr1 = (if conn then tr else tr @ [EvConnect])
      in case (if conn then None else env_connect E tr) of
           Some err \<Rightarrow> (Some (Wrap err (''Connection to bastion host ('' @ bst_Host b @ '') failed'')), b, tr1)
         | None \<Rightarrow>
             (let tr2 = tr1 @ [EvClientConn (JoinHostPort (bst_Host b) (bst_Port b))]
              in case env_clientConn E tr1 of
                   Some err \<Rightarrow> (Some err, b, tr2)
                 | None \<Rightarrow> (None, b\<lparr>bst_Client := True\<rparr>, tr2)))"

definition Reconnect :: "ssh_env \<Rightarrow> Bastion \<Rightarrow> ssh_trace \<Rightarrow> gerror option \<times> Bastion \<times> ssh_trace" where
  "Reconnect E b tr = reconnect E b False tr"

definition bastion_Close :: "Bastion \<Rightarrow> ssh_trace \<Rightarrow> ssh_trace" where
  "bastion_Close b tr = (if bst_Client b then tr @ [EvClose ''client''] else tr)"

definition auth_methods :: "key_env \<Rightarrow> URL \<Rightarrow> string \<Rightarrow> string \<Rightarrow> auth_method list result" where
  "auth_methods K u passPhrase identity =
     (case (if identity \<noteq> [] then
              (case PublicKey K identity passPhrase of
                 Inl err \<Rightarrow> Inl (Wrap err (''failed to parse identity '' @ quote identity))
               | Inr s \<Rightarrow> Inr [AuthPublicKey s])
            else Inr []) of
        Inl err \<Rightarrow> Inl err
      | Inr ms \<Rightarrow>
          (let ms = ms @ (case url_User u of Some (_, Some pw) \<Rightarrow> [AuthPassword pw] | _ \<Rightarrow> [])
           in if ms = [] then Inl ''No available auth methods'' else Inr ms))"

definition bastion_port :: "URL \<Rightarrow> string" where
  "bastion_port u = (if url_Port u = [] then ''22'' else url_Port u)"

definition host_key_callback_for :: "(string \<Rightarrow> string option) \<Rightarrow> URL \<Rightarrow> host_key_callback" where
  "host_key_callback_for hostKey u =
     (if ParseBool (query_Get (url_Query u) ''secure'') = Inr True then
        (let port = bastion_port u;
             host = (if port \<noteq> ''22'' then CHR ''['' # Hostname u @ '']:'' @ port else Hostname u)
         in case hostKey host of Some k \<Rightarrow> FixedHostKey k | None \<Rightarrow> InsecureIgnoreHostKey)
      else InsecureIgnoreHostKey)"

text \<open>The timeout is in milliseconds.\<close>

definition CreateBastion ::
  "ssh_env \<Rightarrow> key_env \<Rightarrow> (string \<Rightarrow> string option) \<Rightarrow> URL \<Rightarrow> string \<Rightarrow> string \<Rightarrow> bool \<Rightarrow> ssh_trace
     \<Rightarrow> gerror option \<times> Bastion option \<times> ssh_trace" where
  "CreateBastion E K hostKey u passPhrase identity initial tr =
     (case auth_methods K u passPhrase identity of
        Inl err \<Rightarrow> (Some err, None, tr)
      | Inr ms \<Rightarrow>
          (let config = \<lparr>cc_User = (case url_User u of Some (name, _) \<Rightarrow> name | None \<Rightarrow> []), cc_Auth = ms,
                 cc_HostKeyCallback = host_key_callback_for hostKey u, cc_Timeout = 5000\<rparr>;
               b = \<lparr>bst_Client = False, bst_Config = config, bst_Host = Hostname u, bst_Port = bastion_port u, bst_Path = url_Path u\<rparr>
           in case reconnect E b initial tr of (err, b', tr') \<Rightarrow> (err, Some b', tr')))"

subsection \<open>Retries\<close>

text \<open>Delays are in milliseconds.\<close>

definition backOff :: "nat \<Rightarrow> nat" where
  "backOff delay = (let d = (if delay = 0 then 5 else delay * 2) in if 1000 < d then 1000 else d)"

text \<open>Whether a sleep was not interrupted.\<close>

definition sleep :: "ssh_env \<Rightarrow> nat \<Rightarrow> ssh_trace \<Rightarrow> bool \<times> ssh_trace" where
  "sleep E wait tr = (env_sleep E tr, tr @ [EvSleep wait])"

lemma sleep_sel [simp]: "fst (sleep E wait tr) = env_sleep E tr" "snd (sleep E wait tr) = tr @ [EvSleep wait]"
  by (simp_all add: sleep_def)

text \<open>The loop of \<open>initialConnection\<close> at its \<open>i\<close>-th attempt; the error is that of the last attempt, if there was one.\<close>

function initial_loop :: "ssh_env \<Rightarrow> nat \<Rightarrow> nat \<Rightarrow> gerror option \<Rightarrow> bool \<Rightarrow> ssh_trace \<Rightarrow> gerror option \<times> bool \<times> ssh_trace" where
  "initial_loop E i backoff err conn tr =
     (if 60 \<le> i \<or> env_done E tr then (err, conn, tr)
      else (case env_connect E tr of
          None \<Rightarrow> (None, True, tr @ [EvConnect])
        | Some e \<Rightarrow> initial_loop E (Suc i) (backOff backoff) (Some e) False (snd (sleep E backoff (tr @ [EvConnect])))))"
  by pat_completeness auto
termination by (relation "measure (\<lambda>(E, i, _). 60 - i)") auto

declare initial_loop.simps [simp del]

definition initialConnection :: "ssh_env \<Rightarrow> ssh_trace \<Rightarrow> gerror option \<times> bool \<times> ssh_trace" where
  "initialConnection E tr = initial_loop E 0 100 None False tr"

text \<open>The inner loop of \<open>connectForward\<close>, and the whole.\<close>

function reconnect_loop :: "ssh_env \<Rightarrow> nat \<Rightarrow> Bastion \<Rightarrow> ssh_trace \<Rightarrow> gerror option \<times> Bastion \<times> ssh_trace" where
  "reconnect_loop E bastionRetries b tr =
     (case Reconnect E b tr of
        (None, b', tr') \<Rightarrow> (None, b', tr')
      | (Some err, b', tr') \<Rightarrow>
          if 2 < bastionRetries then (Some err, b', tr')
          else if \<not> fst (sleep E 200 tr') then (Some err, b', snd (sleep E 200 tr'))
          else reconnect_loop E (Suc bastionRetries) b' (snd (sleep E 200 tr')))"
  by pat_completeness auto
termination by (relation "measure (\<lambda>(E, n, _). 3 - n)") auto

declare reconnect_loop.simps [simp del]

function connect_loop :: "ssh_env \<Rightarrow> nat \<Rightarrow> Bastion \<Rightarrow> ssh_trace \<Rightarrow> gerror option \<times> Bastion \<times> ssh_trace" where
  "connect_loop E retries b tr =
     (let tr1 = tr @ [EvDial (bst_Path b)] in
      case env_sshDial E tr of
        None \<Rightarrow> (None, b, tr1)
      | Some err \<Rightarrow>
          if 2 < retries then (Some (Wrap err (''Couldn'' @ [CHR 0x27] @ ''t reestablish ssh tunnel on path: '' @ bst_Path b)), b, tr1)
          else (let tr2 = tr1 @ [EvAlive] in
            case (if env_alive E tr1 = None then (None, b, tr2) else reconnect_loop E 1 b tr2) of
              (Some err, b', tr3) \<Rightarrow> (Some (Wrap err (''Couldn'' @ [CHR 0x27] @ ''t reestablish ssh connection: '' @ bst_Host b)), b', tr3)
            | (None, b', tr3) \<Rightarrow>
                connect_loop E (Suc (if fst (sleep E 200 tr3) then retries else 3)) b' (snd (sleep E 200 tr3))))"
  by pat_completeness auto
termination by (relation "measure (\<lambda>(E, n, _). 4 - n)") auto

declare connect_loop.simps [simp del]

definition connectForward :: "ssh_env \<Rightarrow> Bastion \<Rightarrow> ssh_trace \<Rightarrow> gerror option \<times> Bastion \<times> ssh_trace" where
  "connectForward E b tr = connect_loop E 1 b tr"

subsection \<open>Setting up a forwarded socket\<close>

text \<open>\<open>Umask\<close> of \<open>pkg/fs\<close>: what it returns, and the mask of the process after it.\<close>

definition Umask_unix :: "32 word \<Rightarrow> 32 word \<Rightarrow> 32 word \<times> 32 word" where
  "Umask_unix newmask cur = (cur, newmask AND 0x1FF)"

definition Umask_windows :: "32 word \<Rightarrow> 32 word \<Rightarrow> 32 word \<times> 32 word" where
  "Umask_windows newmask cur = (0, cur)"

definition Umask :: "platform \<Rightarrow> 32 word \<Rightarrow> 32 word \<Rightarrow> 32 word \<times> 32 word" where
  "Umask pf = (if pf = Windows then Umask_windows else Umask_unix)"

text \<open>\<open>umask\<close> is the mask of the process.\<close>

definition listenUnix :: "platform \<Rightarrow> os_env \<Rightarrow> 32 word \<Rightarrow> URL \<Rightarrow> ssh_trace \<Rightarrow> gerror option \<times> ssh_trace" where
  "listenUnix pf OS umask socketURI tr =
     (let path = (if pf = Windows then TrimPrefix (url_Path socketURI) ''/'' else url_Path socketURI);
          removed = os_Remove OS path
      in if removed \<noteq> None \<and> \<not> os_IsNotExist OS (the removed) then (removed, tr)
         else (map_option (\<lambda>e. Wrap e (''Error listening on socket: '' @ url_Path socketURI)) (os_Listen OS (LUnix path)),
           tr @ [EvUmask 0x7F, EvListen ''unix'' path, EvUmask (fst (Umask pf 0x7F umask))]))"

definition SddlDevObjSysAllAdmAll :: string where
  "SddlDevObjSysAllAdmAll = ''D:P(A;;GA;;;SY)(A;;GA;;;BA)''"

text \<open>\<open>shown\<close> is the printed form of the URL.\<close>

definition ListenNpipe_windows :: "os_env \<Rightarrow> (URL \<Rightarrow> string) \<Rightarrow> URL \<Rightarrow> listen_target result" where
  "ListenNpipe_windows OS shown socketURI =
     (case os_CurrentUser OS of
        Inl err \<Rightarrow> Inl err
      | Inr uid \<Rightarrow>
          (let sddl = SddlDevObjSysAllAdmAll @ ''(A;;GA;;;'' @ uid @ '')'';
               config = \<lparr>SecurityDescriptor = sddl, MessageMode = True, InputBufferSize = 65536, OutputBufferSize = 65536\<rparr>;
               path = map (\<lambda>c. if c = CHR ''/'' then CHR 0x5C else c) (url_Path socketURI)
           in case os_Listen OS (LNpipe path config) of
                Some err \<Rightarrow> Inl (Wrap err (''Error listening on socket: '' @ shown socketURI))
              | None \<Rightarrow> Inr (LNpipe path config)))"

definition ListenNpipe_on :: "platform \<Rightarrow> os_env \<Rightarrow> (URL \<Rightarrow> string) \<Rightarrow> URL \<Rightarrow> listen_target result" where
  "ListenNpipe_on pf OS shown = (if pf = Windows then ListenNpipe_windows OS shown else ListenNpipe)"

record SSHForward =
  fwd_listener :: bool
  fwd_bastion :: "Bastion option"
  fwd_sock :: URL

definition empty_forward :: SSHForward where
  "empty_forward = \<lparr>fwd_listener = False, fwd_bastion = None, fwd_sock = empty_URL\<rparr>"

text \<open>The listener of the socket: an error, or whether there is one.\<close>

definition proxy_listener :: "platform \<Rightarrow> os_env \<Rightarrow> 32 word \<Rightarrow> (URL \<Rightarrow> string) \<Rightarrow> URL \<Rightarrow> ssh_trace \<Rightarrow> bool result \<times> ssh_trace" where
  "proxy_listener pf OS umask shown socketURI tr =
     (if Scheme socketURI = ''unix'' then
        (case listenUnix pf OS umask socketURI tr of (Some err, tr') \<Rightarrow> (Inl err, tr') | (None, tr') \<Rightarrow> (Inr True, tr'))
      else if Scheme socketURI = ''npipe'' then
        (case ListenNpipe_on pf OS shown socketURI of
           Inl err \<Rightarrow> (Inl err, tr)
         | Inr _ \<Rightarrow> (Inr True, tr @ [EvListen ''npipe'' (url_Path socketURI)]))
      else if Scheme socketURI = [] then (Inr False, tr)
      else (Inl (''URI scheme not supported: '' @ Scheme socketURI), tr))"

definition setupProxy ::
  "platform \<Rightarrow> os_env \<Rightarrow> 32 word \<Rightarrow> (URL \<Rightarrow> string) \<Rightarrow> ssh_env \<Rightarrow> key_env \<Rightarrow> (string \<Rightarrow> string option) \<Rightarrow> URL \<Rightarrow> URL \<Rightarrow> string \<Rightarrow> string \<Rightarrow> ssh_trace
     \<Rightarrow> gerror option \<times> SSHForward \<times> ssh_trace" where
  "setupProxy pf OS umask shown E K hostKey socketURI dest identity passphrase tr =
     (case proxy_listener pf OS umask shown socketURI tr of
        (Inl err, tr1) \<Rightarrow> (Some err, empty_forward, tr1)
      | (Inr listener, tr1) \<Rightarrow>
          (case initialConnection E tr1 of
             (Some err, _, tr2) \<Rightarrow> (Some err, empty_forward, tr2)
           | (None, conn, tr2) \<Rightarrow>
               (case CreateBastion E K hostKey dest passphrase identity conn tr2 of
                  (None, Some b, tr3) \<Rightarrow> (None, \<lparr>fwd_listener = listener, fwd_bastion = Some b, fwd_sock = socketURI\<rparr>, tr3)
                | (err, _, tr3) \<Rightarrow> (err, empty_forward, tr3))))"

definition CreateSSHForward ::
  "platform \<Rightarrow> os_env \<Rightarrow> 32 word \<Rightarrow> (URL \<Rightarrow> string) \<Rightarrow> ssh_env \<Rightarrow> key_env \<Rightarrow> (string \<Rightarrow> string option) \<Rightarrow> URL \<Rightarrow> URL \<Rightarrow> string \<Rightarrow> ssh_trace
     \<Rightarrow> gerror option \<times> SSHForward \<times> ssh_trace" where
  "CreateSSHForward pf OS umask shown E K hostKey src dest identity tr = setupProxy pf OS umask shown E K hostKey src dest identity [] tr"

definition CreateSSHForwardPassphrase ::
  "platform \<Rightarrow> os_env \<Rightarrow> 32 word \<Rightarrow> (URL \<Rightarrow> string) \<Rightarrow> ssh_env \<Rightarrow> key_env \<Rightarrow> (string \<Rightarrow> string option) \<Rightarrow> URL \<Rightarrow> URL \<Rightarrow> string \<Rightarrow> string \<Rightarrow> ssh_trace
     \<Rightarrow> gerror option \<times> SSHForward \<times> ssh_trace" where
  "CreateSSHForwardPassphrase pf OS umask shown E K hostKey src dest identity passphrase tr =
     setupProxy pf OS umask shown E K hostKey src dest identity passphrase tr"

definition forward_Close :: "SSHForward \<Rightarrow> ssh_trace \<Rightarrow> ssh_trace" where
  "forward_Close f tr =
     (let tr1 = (if fwd_listener f then tr @ [EvClose ''listener''] else tr)
      in case fwd_bastion f of Some b \<Rightarrow> bastion_Close b tr1 | None \<Rightarrow> tr1)"

subsection \<open>Tunnelling\<close>

text \<open>
  One direction of a tunnel: everything is copied and then the other end is told that there is no
  more. The two directions run side by side, and when both have ended both connections are closed;
  \<open>il\<close> is the order in which their steps happen to run, one of the shuffles of the two.
\<close>

definition forward_copy :: "bool \<Rightarrow> ssh_trace" where
  "forward_copy dir = [EvCopy dir, EvCloseWrite dir]"

definition acceptConnection :: "ssh_env \<Rightarrow> Bastion \<Rightarrow> URL \<Rightarrow> ssh_trace \<Rightarrow> ssh_trace \<Rightarrow> gerror option \<times> Bastion \<times> ssh_trace" where
  "acceptConnection E b socketURI il tr =
     (case env_accept E tr of
        Some err \<Rightarrow> (Some (Wrap err (''Error accepting on socket: '' @ url_Path socketURI)), b, tr @ [EvAccept])
      | None \<Rightarrow>
          (let tr1 = tr @ [EvAccept] in
           if \<not> env_halfclose E tr1 then (None, b, tr1 @ [EvClose ''src''])
           else (case connectForward E b tr1 of
               (Some err, b', tr2) \<Rightarrow> (None, b', tr2 @ [EvClose ''src''])
             | (None, b', tr2) \<Rightarrow>
                 (None, b', tr2 @ il @ [EvClose ''src'', EvClose ''dest'']))))"

text \<open>The methods of a forward: a nil listener panics at once, a nil bastion when it is dialled.\<close>

definition AcceptAndTunnel :: "ssh_env \<Rightarrow> SSHForward \<Rightarrow> ssh_trace \<Rightarrow> ssh_trace \<Rightarrow> (gerror option \<times> SSHForward \<times> ssh_trace) exec" where
  "AcceptAndTunnel E f il tr =
     (if \<not> fwd_listener f then Panic
      else (case fwd_bastion f of
          Some b \<Rightarrow> (case acceptConnection E b (fwd_sock f) il tr of (err, b', tr') \<Rightarrow> Ret (err, f\<lparr>fwd_bastion := Some b'\<rparr>, tr'))
        | None \<Rightarrow>
            (case env_accept E tr of
               Some err \<Rightarrow> Ret (Some (Wrap err (''Error accepting on socket: '' @ url_Path (fwd_sock f))), f, tr @ [EvAccept])
             | None \<Rightarrow> if \<not> env_halfclose E (tr @ [EvAccept]) then Ret (None, f, tr @ [EvAccept, EvClose ''src'']) else Panic)))"

definition forward_Tunnel :: "ssh_env \<Rightarrow> SSHForward \<Rightarrow> ssh_trace \<Rightarrow> (gerror option \<times> SSHForward \<times> ssh_trace) exec" where
  "forward_Tunnel E f tr =
     (case fwd_bastion f of
        None \<Rightarrow> Panic
      | Some b \<Rightarrow> (case connectForward E b tr of (err, b', tr') \<Rightarrow> Ret (err, f\<lparr>fwd_bastion := Some b'\<rparr>, tr')))"

subsection \<open>Retries are bounded\<close>

fun is_dial :: "ssh_event \<Rightarrow> bool" where
  "is_dial (EvDial _) = True"
| "is_dial _ = False"

fun is_retry :: "ssh_event \<Rightarrow> bool" where
  "is_retry (EvDial _) = True"
| "is_retry EvAlive = True"
| "is_retry EvConnect = True"
| "is_retry (EvClientConn _) = True"
| "is_retry (EvSleep _) = True"
| "is_retry _ = False"

fun slept :: "ssh_trace \<Rightarrow> nat" where
  "slept [] = 0"
| "slept (EvSleep n # tr) = n + slept tr"
| "slept (_ # tr) = slept tr"

lemma slept_append [simp]: "slept (a @ b) = slept a + slept b"
  by (induction a rule: slept.induct) simp_all

definition dials :: "ssh_trace \<Rightarrow> nat" where
  "dials tr = length (filter is_dial tr)"

definition connects :: "ssh_trace \<Rightarrow> nat" where
  "connects tr = length (filter (\<lambda>e. e = EvConnect) tr)"

lemma counts_append [simp]:
  "dials (a @ b) = dials a + dials b" "connects (a @ b) = connects a + connects b"
  "dials [] = 0" "connects [] = 0" "dials (e # a) = (if is_dial e then 1 else 0) + dials a"
  "connects (e # a) = (if e = EvConnect then 1 else 0) + connects a"
  by (simp_all add: dials_def connects_def)

text \<open>What a loop adds to the trace: how many dials, connections and how much sleep at most.\<close>

definition extends :: "ssh_trace \<Rightarrow> ssh_trace \<Rightarrow> nat \<Rightarrow> nat \<Rightarrow> nat \<Rightarrow> bool" where
  "extends tr tr' d c w \<longleftrightarrow> (\<exists>us. tr' = tr @ us \<and> list_all is_retry us \<and> dials us \<le> d \<and> connects us \<le> c \<and> slept us \<le> w)"

lemma extends_refl: "extends tr tr d c w"
  by (simp add: extends_def)

lemma extends_add:
  assumes "extends tr tr1 d c w" "list_all is_retry us"
  shows "extends tr (tr1 @ us) (d + dials us) (c + connects us) (w + slept us)"
proof -
  obtain vs where "tr1 = tr @ vs" "list_all is_retry vs" "dials vs \<le> d" "connects vs \<le> c" "slept vs \<le> w"
    using assms(1) unfolding extends_def by blast
  then show ?thesis using assms(2) unfolding extends_def by (intro exI [of _ "vs @ us"]) simp
qed

lemma extends_trans:
  assumes "extends tr tr1 d c w" "extends tr1 tr2 d' c' w'"
  shows "extends tr tr2 (d + d') (c + c') (w + w')"
proof -
  obtain us where "tr2 = tr1 @ us" "list_all is_retry us" "dials us \<le> d'" "connects us \<le> c'" "slept us \<le> w'"
    using assms(2) unfolding extends_def by blast
  moreover obtain vs where "tr1 = tr @ vs" "list_all is_retry vs" "dials vs \<le> d" "connects vs \<le> c" "slept vs \<le> w"
    using assms(1) unfolding extends_def by blast
  ultimately show ?thesis unfolding extends_def by (intro exI [of _ "vs @ us"]) simp
qed

lemma extends_mono: "extends tr tr' d c w \<Longrightarrow> d \<le> d' \<Longrightarrow> c \<le> c' \<Longrightarrow> w \<le> w' \<Longrightarrow> extends tr tr' d' c' w'"
  unfolding extends_def using order_trans by auto

lemma Reconnect_extends:
  assumes "Reconnect E b tr = (r, b', tr')"
  shows "extends tr tr' 0 1 0 \<and> bst_Path b' = bst_Path b \<and> bst_Host b' = bst_Host b"
proof -
  have "(\<exists>addr. tr' = tr @ [EvConnect, EvClientConn addr]) \<or> tr' = tr @ [EvConnect]"
    "bst_Path b' = bst_Path b \<and> bst_Host b' = bst_Host b"
    using assms by (auto simp: Reconnect_def reconnect_def Let_def split: option.splits)
  then show ?thesis unfolding extends_def by auto
qed

lemma reconnect_loop_extends:
  "reconnect_loop E n b tr = (r, b', tr') \<Longrightarrow> n \<le> 3 \<Longrightarrow>
   extends tr tr' 0 (4 - n) (200 * (3 - n)) \<and> bst_Path b' = bst_Path b"
proof (induction E n b tr arbitrary: r b' tr' rule: reconnect_loop.induct)
  case (1 E n b tr)
  obtain r1 b1 tr1 where R: "Reconnect E b tr = (r1, b1, tr1)" by (metis prod.exhaust)
  have x: "extends tr tr1 0 1 0" "bst_Path b1 = bst_Path b" using Reconnect_extends [OF R] by simp_all
  note s = 1(2) [unfolded reconnect_loop.simps [of E n b tr] R]
  show ?case
  proof (cases "\<exists>err. r1 = Some err \<and> \<not> 2 < n \<and> env_sleep E tr1")
    case True
    then obtain err where err: "r1 = Some err" "\<not> 2 < n" "env_sleep E tr1" by blast
    then have "reconnect_loop E (Suc n) b1 (tr1 @ [EvSleep 200]) = (r, b', tr')" using s by simp
    from 1(1) [unfolded sleep_sel, OF R [symmetric] err(1) refl err(2) _ this] err
    have y: "extends (tr1 @ [EvSleep 200]) tr' 0 (4 - Suc n) (200 * (3 - Suc n))" "bst_Path b' = bst_Path b1" by auto
    have "extends tr tr' (0 + 0) (1 + (4 - Suc n)) (0 + 200 + 200 * (3 - Suc n))"
      using extends_trans [OF extends_add [OF x(1), of "[EvSleep 200]"] y(1)] by simp
    then show ?thesis using y(2) x(2) err(2) by (auto elim!: extends_mono)
  next
    case False
    then have "tr' = tr1 \<or> tr' = tr1 @ [EvSleep 200] \<and> n \<le> 2" "b' = b1"
      using s by (auto split: option.splits if_splits)
    moreover have "extends tr (tr1 @ [EvSleep 200]) 0 1 200" using extends_add [OF x(1), of "[EvSleep 200]"] by simp
    ultimately show ?thesis using x \<open>n \<le> 3\<close> by (auto elim!: extends_mono)
  qed
qed

lemma connect_step_arith:
  assumes "\<not> 2 < n" "n' = Suc (if x then n else 3)"
  shows "1 + max 1 (4 - n') \<le> max 1 (4 - n)" "3 + 3 * (3 - n') \<le> 3 * (3 - n)" "400 + 200 + 600 * (3 - n') \<le> 600 * (3 - n)"
  using assms by (cases x; simp)+

lemma connect_loop_extends:
  "connect_loop E n b tr = (r, b', tr') \<Longrightarrow>
   extends tr tr' (max 1 (4 - n)) (3 * (3 - n)) (600 * (3 - n))
   \<and> (r = None \<longrightarrow> (\<exists>pre. tr' = pre @ [EvDial (bst_Path b)] \<and> env_sshDial E pre = None))"
proof (induction E n b tr arbitrary: r b' tr' rule: connect_loop.induct)
  case (1 E n b tr)
  let ?tr1 = "tr @ [EvDial (bst_Path b)]"
  let ?R = "if env_alive E ?tr1 = None then (None, b, ?tr1 @ [EvAlive]) else reconnect_loop E 1 b (?tr1 @ [EvAlive])"
  have x: "extends tr ?tr1 1 0 0" using extends_add [OF extends_refl [of tr 0 0 0], of "[EvDial (bst_Path b)]"] by simp
  note s = 1(2) [unfolded connect_loop.simps [of E n b tr] Let_def]
  show ?case
  proof (cases "\<exists>err. env_sshDial E tr = Some err \<and> \<not> 2 < n")
    case False
    then have "tr' = ?tr1 \<and> (r = None \<longrightarrow> env_sshDial E tr = None)"
      using s by (auto split: option.splits if_splits)
    moreover have "extends tr ?tr1 (max 1 (4 - n)) (3 * (3 - n)) (600 * (3 - n))" using x by (auto elim!: extends_mono)
    ultimately show ?thesis by blast
  next
    case True
    then obtain err where err: "env_sshDial E tr = Some err" "\<not> 2 < n" by blast
    obtain r2 b2 tr2 where R: "?R = (r2, b2, tr2)" by (metis prod.exhaust)
    have y: "extends (?tr1 @ [EvAlive]) tr2 0 3 400" "bst_Path b2 = bst_Path b"
      using R reconnect_loop_extends [of E 1 b "?tr1 @ [EvAlive]" r2 b2 tr2] extends_refl by (auto split: if_splits)
    have z: "extends tr tr2 1 3 400"
      using extends_trans [OF extends_add [OF x, of "[EvAlive]"] y(1)] by simp
    show ?thesis
    proof (cases r2)
      case (Some e2)
      then have "tr' = tr2 \<and> r \<noteq> None" using s err R by (auto split: option.splits)
      then show ?thesis using z err(2) by (auto elim!: extends_mono)
    next
      case None
      let ?n = "Suc (if env_sleep E tr2 then n else 3)"
      have C: "connect_loop E ?n b2 (tr2 @ [EvSleep 200]) = (r, b', tr')" using s err R None by simp
      have ih: "extends (tr2 @ [EvSleep 200]) tr' (max 1 (4 - ?n)) (3 * (3 - ?n)) (600 * (3 - ?n))"
        "r = None \<longrightarrow> (\<exists>pre. tr' = pre @ [EvDial (bst_Path b2)] \<and> env_sshDial E pre = None)"
        using 1(1) [unfolded sleep_sel, OF refl err refl R [symmetric] None refl C] by blast+
      note m = extends_trans [OF extends_add [OF z, of "[EvSleep 200]"] ih(1)]
      have "extends tr tr' (1 + max 1 (4 - ?n)) (3 + 3 * (3 - ?n)) (400 + 200 + 600 * (3 - ?n))" using m by simp
      then show ?thesis using ih(2) y(2) connect_step_arith [OF err(2) refl, of "env_sleep E tr2"] by (auto elim!: extends_mono)
    qed
  qed
qed


lemma backOff_le: "backOff d \<le> 1000"
  by (simp add: backOff_def Let_def)

lemma initial_loop_extends:
  "initial_loop E i w err conn tr = (r, c, tr') \<Longrightarrow> w \<le> 1000 \<Longrightarrow> \<not> conn \<Longrightarrow>
   extends tr tr' 0 (60 - i) (1000 * (60 - i))
   \<and> (c \<longrightarrow> r = None \<and> (\<exists>pre. tr' = pre @ [EvConnect] \<and> env_connect E pre = None))
   \<and> (r = None \<and> \<not> c \<longrightarrow> err = None \<and> tr' = tr \<and> (60 \<le> i \<or> env_done E tr))"
proof (induction E i w err conn tr arbitrary: r c tr' rule: initial_loop.induct)
  case (1 E i w err conn tr)
  note s = 1(2) [unfolded initial_loop.simps [of E i w err conn tr]]
  show ?case
  proof (cases "60 \<le> i \<or> env_done E tr")
    case True
    then show ?thesis using s 1(4) by (auto simp: extends_refl)
  next
    case False
    then have k: "connects [EvConnect] \<le> 60 - i" "w \<le> 1000 * (60 - i)" "1 + (60 - Suc i) \<le> 60 - i"
      "w + 1000 * (60 - Suc i) \<le> 1000 * (60 - i)" using 1(3) by auto
    show ?thesis
    proof (cases "env_connect E tr")
      case None
      then have "r = None" "c" "tr' = tr @ [EvConnect]" using s False by auto
      moreover have "extends tr (tr @ [EvConnect]) 0 1 0"
        using extends_add [OF extends_refl [of tr 0 0 0], of "[EvConnect]"] by simp
      ultimately show ?thesis using None k(1) by (auto elim!: extends_mono)
    next
      case (Some e)
      then have C: "initial_loop E (Suc i) (backOff w) (Some e) False (tr @ [EvConnect, EvSleep w]) = (r, c, tr')"
        using s False by simp
      note ih = 1(1) [unfolded sleep_sel append_assoc append_Cons append_Nil, OF False Some C backOff_le]
      have "extends tr (tr @ [EvConnect, EvSleep w]) 0 1 w"
        using extends_add [OF extends_refl [of tr 0 0 0], of "[EvConnect, EvSleep w]"] by simp
      from extends_trans [OF this, of tr' 0 "60 - Suc i" "1000 * (60 - Suc i)"] ih
      have "extends tr tr' 0 (1 + (60 - Suc i)) (w + 1000 * (60 - Suc i))" by simp
      then show ?thesis using ih k(3,4) by (auto elim!: extends_mono)
    qed
  qed
qed

text \<open>
  The first connection is tried at most sixty times. A context that is cancelled before the first
  attempt is reported as success without a connection, which makes the caller connect.
\<close>

lemma initialConnection_bounded:
  assumes "initialConnection E tr = (r, c, tr')"
  shows "extends tr tr' 0 60 60000 \<and> (c \<longrightarrow> (\<exists>pre. tr' = pre @ [EvConnect] \<and> env_connect E pre = None))
    \<and> (r = None \<and> \<not> c \<longrightarrow> env_done E tr)"
  using initial_loop_extends [of E 0 100 None False tr r c tr'] assms by (simp add: initialConnection_def)

subsection \<open>Accepted connections\<close>

lemma forward_copies:
  assumes "il \<in> shuffles (forward_copy True) (forward_copy False)"
  shows "set il = {EvCopy True, EvCloseWrite True, EvCopy False, EvCloseWrite False}"
  using set_shuffles [OF assms] by (auto simp: forward_copy_def)

lemma retry_no_close: "list_all is_retry us \<Longrightarrow> EvClose x \<notin> set us \<and> EvCopy d \<notin> set us"
  by (auto simp: list_all_iff)


subsection \<open>Forwards that can be used\<close>

text \<open>The mask of the process after the calls in a trace, and the permissions a socket gets that is opened then.\<close>

fun mask_after :: "platform \<Rightarrow> 32 word \<Rightarrow> ssh_trace \<Rightarrow> 32 word" where
  "mask_after pf cur [] = cur"
| "mask_after pf cur (EvUmask m # tr) = mask_after pf (snd (Umask pf m cur)) tr"
| "mask_after pf cur (_ # tr) = mask_after pf cur tr"

definition socket_mode :: "32 word \<Rightarrow> 32 word" where
  "socket_mode m = 0x1FF AND NOT m"

text \<open>
  The socket of a forward is open to its owner only, also if opening it fails half-way, and the mask is as
  before for the files that are created later.
\<close>

lemma listenUnix_private:
  assumes "listenUnix pf OS umask uri tr = (r, tr')" "pf \<noteq> Windows" "umask AND 0x1FF = umask"
  shows "r = None \<longrightarrow> (\<exists>path. tr' = tr @ [EvUmask 0x7F, EvListen ''unix'' path, EvUmask umask])"
    and "socket_mode (mask_after pf umask [EvUmask 0x7F]) = 0x180"
    and "\<exists>us. tr' = tr @ us \<and> mask_after pf umask us = umask"
proof -
  have m: "Umask pf m c = (c, m AND 0x1FF)" for m c using assms(2) by (simp add: Umask_def Umask_unix_def)
  show "r = None \<longrightarrow> (\<exists>path. tr' = tr @ [EvUmask 0x7F, EvListen ''unix'' path, EvUmask umask])"
    using assms(1) m by (auto simp: listenUnix_def Let_def split: if_splits)
  show "socket_mode (mask_after pf umask [EvUmask 0x7F]) = 0x180" by (simp add: m socket_mode_def)
  show "\<exists>us. tr' = tr @ us \<and> mask_after pf umask us = umask"
    using assms(1,3) m by (auto simp: listenUnix_def Let_def split: if_splits)
qed

lemma reconnect_client: "reconnect E b conn tr = (None, b', tr') \<Longrightarrow> bst_Client b'"
  by (auto simp: reconnect_def Let_def split: option.splits if_splits)

lemma CreateBastion_client:
  "CreateBastion E K hostKey u pass identity c tr = (None, x, tr') \<Longrightarrow> \<exists>b. x = Some b \<and> bst_Client b"
  by (auto simp: CreateBastion_def Let_def split: sum.splits prod.splits dest: reconnect_client)

text \<open>
  A forward that was created without an error can be used: it has a connected bastion, and unless it
  was asked for without a socket, it has a listener, so that accepting does not panic.
\<close>

lemma setupProxy_usable:
  assumes "setupProxy pf OS umask shown E K hostKey uri dest identity passphrase tr = (None, f, tr')"
  shows "\<exists>b. fwd_bastion f = Some b \<and> bst_Client b"
    and "fwd_listener f \<longleftrightarrow> Scheme uri \<noteq> []"
    and "AcceptAndTunnel E f il tr'' = Panic \<longleftrightarrow> Scheme uri = []" "forward_Tunnel E f tr'' \<noteq> Panic"
proof -
  obtain l tr1 where l: "proxy_listener pf OS umask shown uri tr = (Inr l, tr1)"
    using assms by (auto simp: setupProxy_def split: sum.splits prod.splits)
  obtain c tr2 where c: "initialConnection E tr1 = (None, c, tr2)"
    using assms l by (auto simp: setupProxy_def split: option.splits prod.splits)
  obtain b where b: "CreateBastion E K hostKey dest passphrase identity c tr2 = (None, Some b, tr')"
    "f = \<lparr>fwd_listener = l, fwd_bastion = Some b, fwd_sock = uri\<rparr>"
    using assms l c CreateBastion_client by (fastforce simp: setupProxy_def split: option.splits prod.splits)
  then have "bst_Client b" using CreateBastion_client by blast
  moreover have "l \<longleftrightarrow> Scheme uri \<noteq> []"
    using l by (auto simp: proxy_listener_def split: if_splits option.splits prod.splits sum.splits)
  ultimately show "\<exists>b. fwd_bastion f = Some b \<and> bst_Client b" "fwd_listener f \<longleftrightarrow> Scheme uri \<noteq> []"
    "AcceptAndTunnel E f il tr'' = Panic \<longleftrightarrow> Scheme uri = []" "forward_Tunnel E f tr'' \<noteq> Panic"
    using b(2) by (auto simp: AcceptAndTunnel_def forward_Tunnel_def split: prod.splits)
qed

subsection \<open>What goes wrong\<close>

text \<open>
  When the server cannot be reached, the socket that was opened for the clients stays open: the
  forward that is returned does not know it, so closing it closes nothing.
\<close>

lemma setupProxy_leaks_listener:
  assumes "proxy_listener pf OS umask shown uri tr = (Inr True, tr1)" "initialConnection E tr1 = (Some err, c, tr2)"
  shows "setupProxy pf OS umask shown E K hk uri dest identity pass tr = (Some err, empty_forward, tr2)
    \<and> (\<exists>us. tr2 = tr1 @ us \<and> EvClose ''listener'' \<notin> set us) \<and> forward_Close empty_forward tr2 = tr2"
proof -
  obtain us where "tr2 = tr1 @ us" "list_all is_retry us"
    using initialConnection_bounded [OF assms(2)] unfolding extends_def by blast
  then show ?thesis using retry_no_close [of us] assms
    by (auto simp: setupProxy_def forward_Close_def empty_forward_def)
qed

text \<open>A destination that asks for a secure connection to a server whose key is not known gets an insecure one.\<close>

lemma secure_falls_back:
  assumes "ParseBool (query_Get (url_Query u) ''secure'') = Inr True" "\<And>h. hostKey h = None"
  shows "host_key_callback_for hostKey u = InsecureIgnoreHostKey"
  using assms by (simp add: host_key_callback_for_def Let_def)

lemma fixed_key_known:
  assumes "host_key_callback_for hostKey u = FixedHostKey k"
  shows "ParseBool (query_Get (url_Query u) ''secure'') = Inr True \<and> (\<exists>h. hostKey h = Some k)"
  using assms by (auto simp: host_key_callback_for_def Let_def split: if_splits option.splits)

subsection \<open>Witnesses\<close>

definition flaky_ssh :: ssh_env where
  "flaky_ssh = \<lparr>env_connect = (\<lambda>_. None), env_clientConn = (\<lambda>_. None),
     env_sshDial = (\<lambda>tr. if length tr < 4 then Some ''EOF'' else None), env_alive = (\<lambda>_. Some ''EOF''), env_done = (\<lambda>_. False),
     env_sleep = (\<lambda>_. True), env_accept = (\<lambda>_. None), env_halfclose = (\<lambda>_. True)\<rparr>"

definition vm_bastion :: Bastion where
  "vm_bastion = \<lparr>bst_Client = True, bst_Config = \<lparr>cc_User = ''core'', cc_Auth = [], cc_HostKeyCallback = InsecureIgnoreHostKey, cc_Timeout = 5000\<rparr>,
     bst_Host = ''192.168.127.2'', bst_Port = ''22'', bst_Path = ''/run/podman.sock''\<rparr>"

lemma flaky_reconnect:
  "connectForward flaky_ssh vm_bastion [] = (None, vm_bastion, [EvDial ''/run/podman.sock'', EvAlive, EvConnect,
     EvClientConn ''192.168.127.2:22'', EvSleep 200, EvDial ''/run/podman.sock''])"
proof -
  have "JoinHostPort ''192.168.127.2'' ''22'' = ''192.168.127.2:22''" by code_simp
  then have "reconnect_loop flaky_ssh 1 vm_bastion tr = (None, vm_bastion, tr @ [EvConnect, EvClientConn ''192.168.127.2:22''])" for tr
    by (simp add: reconnect_loop.simps Reconnect_def reconnect_def flaky_ssh_def vm_bastion_def)
  then show ?thesis
    by (simp add: connectForward_def connect_loop.simps [of _ 1] connect_loop.simps [of _ 2] Let_def numeral_2_eq_2)
      (simp add: flaky_ssh_def vm_bastion_def connect_loop.simps)
qed



end
