(* ===== verification/Commands.thy ===== *)
theory Commands
  imports Ssh Client GoFlag
begin

text \<open>
  The smaller commands: \<open>win-sshproxy\<close>, which forwards pipes and sockets of a Windows host over SSH, with
  its log format, and \<open>ssh-over-vsock\<close>, which runs a command in the virtual machine through the tunnel
  of the control endpoint. Windows, the SSH library and the file system are parameters.
\<close>

subsection \<open>win-sshproxy: arguments\<close>

datatype win_args = WinVersion | WinUsage | WinRun bool string string "(string \<times> string \<times> string) list"

text \<open>The loop that collects sources, destinations and identities from position \<open>i\<close>.\<close>

function win_triples :: "string list \<Rightarrow> nat \<Rightarrow> (string \<times> string \<times> string) list" where
  "win_triples args i =
     (if int i < int (length args) - 2 then (args ! i, args ! (i + 1), args ! (i + 2)) # win_triples args (i + 3) else [])"
  by pat_completeness auto
termination by (relation "measure (\<lambda>(args, i). length args - i)") auto

declare win_triples.simps [simp del]

definition win_main :: "string list \<Rightarrow> win_args" where
  "win_main osArgs =
     (let chosen = (if 1 < length osArgs then
                      (if osArgs ! 1 = ''-version'' then None
                       else if osArgs ! 1 = ''-debug'' then Some (True, drop 2 osArgs)
                       else Some (False, drop 1 osArgs))
                    else Some (False, osArgs))
      in case chosen of
           None \<Rightarrow> WinVersion
         | Some (dbg, args) \<Rightarrow>
             if length args < 5 \<or> (length args - 2) mod 3 \<noteq> 0 then WinUsage
             else WinRun dbg (args ! 0) (args ! 1) (win_triples args 2))"

text \<open>The forwards that are started, and the error with which \<open>setupProxies\<close> returns; the caller does not look at it.\<close>

fun setupProxies :: "(string \<times> string \<times> string) list \<Rightarrow> (URL \<times> URL \<times> string) list \<times> gerror option" where
  "setupProxies [] = ([], None)"
| "setupProxies ((source, dest, identity) # ps) =
     (case (if Contains source ''://'' then url_Parse source else Inr (empty_URL\<lparr>Scheme := ''unix'', url_Path := source\<rparr>)) of
        Inl err \<Rightarrow> ([], Some err)
      | Inr src \<Rightarrow>
          (case url_Parse dest of
             Inl err \<Rightarrow> ([], Some err)
           | Inr d \<Rightarrow> (case setupProxies ps of (fs, err) \<Rightarrow> ((src, d, identity) # fs, err))))"

definition ERR_BAD_ARGS :: nat where
  "ERR_BAD_ARGS = 0x000A"

text \<open>\<open>main\<close> up to the start of the forwards: it exits with a status, or goes on; \<open>openLog\<close> is the result of opening the event log.\<close>

definition win_start ::
  "gerror option \<Rightarrow> string list \<Rightarrow> nat + (bool \<times> string \<times> string \<times> (URL \<times> URL \<times> string) list)" where
  "win_start openLog osArgs =
     (case win_main osArgs of
        WinVersion \<Rightarrow> Inl 0
      | WinUsage \<Rightarrow> Inl ERR_BAD_ARGS
      | WinRun dbg name stateDir ps \<Rightarrow>
          (case openLog of
             Some err \<Rightarrow> Inl 1
           | None \<Rightarrow> Inr (dbg, name, stateDir, fst (setupProxies ps))))"

definition saveThreadId :: "gerror option \<Rightarrow> nat \<Rightarrow> nat \<Rightarrow> string result" where
  "saveThreadId openFile pid tid =
     (case openFile of Some err \<Rightarrow> Inl err | None \<Rightarrow> Inr (itoa_nat pid @ CHR '':'' # itoa_nat tid @ [CHR 0x0A]))"

subsection \<open>win-sshproxy: log\<close>

datatype log_level = PanicLevel | FatalLevel | ErrorLevel | WarnLevel | InfoLevel | DebugLevel | TraceLevel

definition level_String :: "log_level \<Rightarrow> string" where
  "level_String l = (case l of PanicLevel \<Rightarrow> ''panic'' | FatalLevel \<Rightarrow> ''fatal'' | ErrorLevel \<Rightarrow> ''error'' | WarnLevel \<Rightarrow> ''warning''
     | InfoLevel \<Rightarrow> ''info'' | DebugLevel \<Rightarrow> ''debug'' | TraceLevel \<Rightarrow> ''trace'')"

text \<open>The levels are numbers in this order; an entry is written if its level is not above the one that is set.\<close>

fun level_number :: "log_level \<Rightarrow> nat" where
  "level_number PanicLevel = 0"
| "level_number FatalLevel = 1"
| "level_number ErrorLevel = 2"
| "level_number WarnLevel = 3"
| "level_number InfoLevel = 4"
| "level_number DebugLevel = 5"
| "level_number TraceLevel = 6"

instantiation log_level :: linorder
begin

definition less_eq_log_level :: "log_level \<Rightarrow> log_level \<Rightarrow> bool" where
  "less_eq_log_level a b \<longleftrightarrow> level_number a \<le> level_number b"

definition less_log_level :: "log_level \<Rightarrow> log_level \<Rightarrow> bool" where
  "less_log_level a b \<longleftrightarrow> level_number a < level_number b"

instance
proof
  fix a b :: log_level
  show "a \<le> b \<Longrightarrow> b \<le> a \<Longrightarrow> a = b" by (cases a; cases b; simp add: less_eq_log_level_def)
qed (auto simp: less_eq_log_level_def less_log_level_def)

end

definition hook_Levels :: "log_level list" where
  "hook_Levels = [PanicLevel, FatalLevel, ErrorLevel, WarnLevel, InfoLevel, DebugLevel, TraceLevel]"

definition setupLogging :: "bool \<Rightarrow> log_level" where
  "setupLogging dbg = (if dbg then DebugLevel else InfoLevel)"

definition is_logged :: "bool \<Rightarrow> log_level \<Rightarrow> bool" where
  "is_logged dbg l \<longleftrightarrow> l \<le> setupLogging dbg"

text \<open>\<open>%-5s\<close>\<close>

definition pad_right5 :: "string \<Rightarrow> string" where
  "pad_right5 s = s @ replicate (5 - length s) (CHR '' '')"

definition log_Format :: "string \<Rightarrow> log_level \<Rightarrow> string \<Rightarrow> (string \<times> string) list \<Rightarrow> string" where
  "log_Format name level message entries =
     ''['' @ pad_right5 (level_String level) @ ''] '' @ name @ '': '' @ message
     @ concat (map (\<lambda>(k, v). '' {'' @ k @ '' = '' @ v @ ''}'') entries) @ [CHR 0x0A]"

datatype event_kind = EventError | EventWarning | EventInfo

definition hook_Fire :: "log_level \<Rightarrow> event_kind \<times> nat" where
  "hook_Fire l = (case l of PanicLevel \<Rightarrow> (EventError, 1002) | FatalLevel \<Rightarrow> (EventError, 1001) | ErrorLevel \<Rightarrow> (EventError, 1000)
     | WarnLevel \<Rightarrow> (EventWarning, 1000) | InfoLevel \<Rightarrow> (EventInfo, 1000) | DebugLevel \<Rightarrow> (EventInfo, 1001) | TraceLevel \<Rightarrow> (EventInfo, 1001))"

subsection \<open>ssh-over-vsock\<close>

record sov_flags =
  sov_ip :: string
  sov_port :: int
  sov_user :: string
  sov_key :: string
  sov_endpoint :: string
  sov_version :: bool

definition sov_defaults :: sov_flags where
  "sov_defaults = \<lparr>sov_ip = ''192.168.127.2'', sov_port = 22, sov_user = [], sov_key = [], sov_endpoint = ''/tmp/network.sock'', sov_version = False\<rparr>"

definition sov_set :: "string \<Rightarrow> string \<Rightarrow> sov_flags \<Rightarrow> sov_flags result" where
  "sov_set name v f =
     (if name = ''version'' then (case set_bool v of Inl err \<Rightarrow> Inl err | Inr b \<Rightarrow> Inr (f\<lparr>sov_version := b\<rparr>))
      else if name = ''ip'' then Inr (f\<lparr>sov_ip := v\<rparr>)
      else if name = ''port'' then (case set_int v of Inl err \<Rightarrow> Inl err | Inr i \<Rightarrow> Inr (f\<lparr>sov_port := i\<rparr>))
      else if name = ''user'' then Inr (f\<lparr>sov_user := v\<rparr>)
      else if name = ''key'' then Inr (f\<lparr>sov_key := v\<rparr>)
      else Inr (f\<lparr>sov_endpoint := v\<rparr>))"

definition sov_flag_names :: "string list" where
  "sov_flag_names = [''ip'', ''port'', ''user'', ''key'', ''url'']"

definition sov_flag_set :: "sov_flags flag_set" where
  "sov_flag_set = \<lparr>formal = (\<lambda>name. if name = ''version'' then Some True
     else if name \<in> set sov_flag_names then Some False else None), flag_Set = sov_set\<rparr>"

interpretation sov_command: flag_command sov_flag_set sov_flag_names
  by unfold_locales (auto simp: sov_flag_names_def flag_name_def sov_flag_set_def)

text \<open>The configuration of the SSH connection; the timeout is in milliseconds.\<close>

definition newConfig :: "key_env \<Rightarrow> string \<Rightarrow> string \<Rightarrow> ClientConfig result" where
  "newConfig K user keyFile =
     (case ReadFile K keyFile of
        Inl err \<Rightarrow> Inl err
      | Inr pem \<Rightarrow>
          (case ParsePrivateKey K pem of
             Inl (err, _) \<Rightarrow> Inl err
           | Inr privateKey \<Rightarrow> Inr \<lparr>cc_User = user, cc_Auth = [AuthPublicKey privateKey], cc_HostKeyCallback = InsecureIgnoreHostKey,
               cc_Timeout = 60000\<rparr>))"

definition newClient :: "key_env \<Rightarrow> string \<Rightarrow> string \<Rightarrow> ClientConfig result" where
  "newClient K user keyFile =
     (case newConfig K user keyFile of
        Inl err \<Rightarrow> Inl (''Error getting config for native Go SSH: '' @ err)
      | Inr config \<Rightarrow> Inr config)"

text \<open>Running a command: the results of the handshake, of opening a session and of the command, and what is closed.\<close>

definition client_output :: "gerror option \<Rightarrow> gerror option \<Rightarrow> (string \<Rightarrow> string result) \<Rightarrow> string \<Rightarrow> string result \<times> string list" where
  "client_output handshake newSession combinedOutput command =
     (case handshake of
        Some err \<Rightarrow> (Inl err, [])
      | None \<Rightarrow>
          (case newSession of
             Some err \<Rightarrow> (Inl err, [''conn''])
           | None \<Rightarrow>
               (case combinedOutput command of
                  Inl err \<Rightarrow> (Inl err, [''session'', ''conn''])
                | Inr output \<Rightarrow> (Inr output, [''session'', ''conn'']))))"

definition sov_run ::
  "(string \<Rightarrow> gerror option) \<Rightarrow> (string \<Rightarrow> gerror option) \<Rightarrow> gerror \<Rightarrow> bytes \<Rightarrow> key_env \<Rightarrow> (ClientConfig \<Rightarrow> string \<Rightarrow> string result)
     \<Rightarrow> sov_flags \<Rightarrow> string result" where
  "sov_run dial write e input K output f =
     (case dial (sov_endpoint f) of
        Some err \<Rightarrow> Inl (Wrap err ''cannot connect to host'')
      | None \<Rightarrow>
          (case Tunnel write e input (sov_ip f) (sov_port f) of
             Some err \<Rightarrow> Inl err
           | None \<Rightarrow>
               (case newClient K (sov_user f) (sov_key f) of
                  Inl err \<Rightarrow> Inl err
                | Inr config \<Rightarrow> output config ''ps'')))"

text \<open>The exit status: invalid flags end with 2, an error of \<open>run\<close> with 1.\<close>

definition sov_main :: "(sov_flags \<Rightarrow> string result) \<Rightarrow> string list \<Rightarrow> nat" where
  "sov_main run args =
     (case flag_Parse sov_flag_set args sov_defaults of
        Inl ErrHelp \<Rightarrow> 0
      | Inl (FlagFailed _) \<Rightarrow> 2
      | Inr (f, _) \<Rightarrow> if sov_version f then 0 else (case run f of Inl err \<Rightarrow> 1 | Inr out \<Rightarrow> 0))"

lemma hook_Levels_all: "l \<in> set hook_Levels" "sorted hook_Levels" "distinct hook_Levels"
  by (cases l) (simp_all add: hook_Levels_def less_eq_log_level_def)

lemma not_logged: "\<not> is_logged dbg l \<longleftrightarrow> l = TraceLevel \<or> l = DebugLevel \<and> \<not> dbg"
  by (cases l) (auto simp: is_logged_def setupLogging_def less_eq_log_level_def)

subsection \<open>What the arguments of win-sshproxy mean\<close>

fun flat3 :: "(string \<times> string \<times> string) list \<Rightarrow> string list" where
  "flat3 [] = []"
| "flat3 ((a, b, c) # ts) = a # b # c # flat3 ts"

lemma win_triples_flat:
  assumes "(length args - i) mod 3 = 0" "i \<le> length args"
  shows "flat3 (win_triples args i) = drop i args"
  using assms
proof (induction args i rule: win_triples.induct)
  case (1 args i)
  show ?case
  proof (cases "i = length args")
    case True
    then show ?thesis by (simp add: win_triples.simps)
  next
    case False
    then have i: "i + 2 < length args" using 1(2,3) by presburger
    have m: "(length args - (i + 3)) mod 3 = 0" using 1(2) i by presburger
    have "drop i args = args ! i # args ! (i + 1) # args ! (i + 2) # drop (i + 3) args"
      using i by (simp add: Cons_nth_drop_Suc [symmetric] numeral_3_eq_3)
    then show ?thesis using 1(1) [OF _ m] i by (subst win_triples.simps) simp
  qed
qed

lemma win_main_run:
  assumes "win_main osArgs = WinRun dbg name dir ts"
  shows "ts \<noteq> [] \<and> (\<exists>skip. name # dir # flat3 ts = drop skip osArgs \<and> skip \<le> 2)"
proof -
  obtain skip where skip: "skip \<le> 2" "\<not> length (drop skip osArgs) < 5" "(length (drop skip osArgs) - 2) mod 3 = 0"
    "name = drop skip osArgs ! 0" "dir = drop skip osArgs ! 1" "ts = win_triples (drop skip osArgs) 2"
  proof -
    consider "1 < length osArgs" "osArgs ! 1 = ''-debug''" | "1 < length osArgs" "osArgs ! 1 \<noteq> ''-debug''" | "length osArgs \<le> 1"
      by linarith
    then show thesis
    proof cases
      case 1
      then show ?thesis using assms that [of 2] by (auto simp: win_main_def Let_def split: if_splits)
    next
      case 2
      then show ?thesis using assms that [of 1] by (auto simp: win_main_def Let_def split: if_splits)
    next
      case 3
      then show ?thesis using assms by (simp add: win_main_def)
    qed
  qed
  let ?args = "drop skip osArgs"
  have "flat3 ts = drop 2 ?args" using win_triples_flat [of ?args 2] skip(2,3,6) by simp
  moreover have "?args = ?args ! 0 # ?args ! 1 # drop 2 ?args"
    using skip(2) by (cases ?args; cases "tl ?args") auto
  ultimately have "name # dir # flat3 ts = ?args" using skip(4,5) by simp
  moreover have "ts \<noteq> []" using skip(2,6) by (simp add: win_triples.simps [of _ 2])
  ultimately show ?thesis using skip(1) by blast
qed

end
