(* ===== verification/WinProxy.thy ===== *)
theory WinProxy
  imports Commands Errgroup
begin

text \<open>
  How \<open>win-sshproxy\<close> runs and ends, \<open>cmd/win-sshproxy/main.go\<close>: every forward that \<open>setupProxies\<close> starts is a
  member of one \<open>errgroup.Group\<close>; a message of Windows that asks the program to quit cancels their
  context. The points of a forward are those of its loop; creating it and tunnelling one connection
  are operations of \<open>Ssh\<close> that wait for the SSH server.
\<close>

datatype win_point = WCreate | WTop | WAccept | WTunnel

text \<open>
  The goroutine that closes a forward when the context is done is not a member; it lets a pending accept
  fail. Errors of a single connection are only logged.
\<close>

inductive win_behaviour :: "(unit, win_point) behaviour" where
  win_created: "win_behaviour dn sh WCreate False (sh, False) (Goto WTop)"
| win_create_failed: "win_behaviour dn sh WCreate False (sh, False) (Return (Some err))"
| win_done: "win_behaviour True sh WTop True (sh, False) (Return None)"
| win_next: "win_behaviour False sh WTop True (sh, False) (Goto WAccept)"
| win_accepted: "win_behaviour dn sh WAccept False (sh, False) (Goto WTunnel)"
| win_accept_failed: "win_behaviour dn sh WAccept dn (sh, False) (Goto WTop)"
| win_tunnelled: "win_behaviour dn sh WTunnel False (sh, False) (Goto WTop)"

type_synonym win_state = "(unit, win_point) gstate"

definition win_group :: "(URL \<times> URL \<times> string) list \<Rightarrow> win_state" where
  "win_group fs = init_group () (map (\<lambda>_. WCreate) fs)"

inductive win_step :: "win_state \<Rightarrow> win_state \<Rightarrow> bool" where
  win_member: "group_step win_behaviour own s t \<Longrightarrow> win_step s t"
| win_quit: "win_step s (s\<lparr>gs_group := group_cancel (gs_group s)\<rparr>)"

inductive win_reach :: "(URL \<times> URL \<times> string) list \<Rightarrow> win_state \<Rightarrow> bool" for fs where
  win_init: "win_reach fs (win_group fs)"
| win_more: "win_reach fs s \<Longrightarrow> win_step s t \<Longrightarrow> win_reach fs t"

text \<open>The end of \<open>main\<close>: \<open>None\<close> while \<open>Wait\<close> blocks, then the status.\<close>

definition win_finish :: "Group \<Rightarrow> nat option" where
  "win_finish g = (case group_Wait g of None \<Rightarrow> None | Some (err, _) \<Rightarrow> Some (case err of Some _ \<Rightarrow> 1 | None \<Rightarrow> 0))"

subsection \<open>Ending\<close>

fun win_waits :: "win_point \<Rightarrow> bool" where
  "win_waits WCreate = True"
| "win_waits WTunnel = True"
| "win_waits _ = False"

fun win_weight :: "win_point \<Rightarrow> nat" where
  "win_weight WAccept = 1"
| "win_weight _ = 0"

lemma win_free_steps: "\<not> win_waits p \<Longrightarrow> \<exists>eff out. win_behaviour True sh p True eff out"
  by (cases p) (auto intro: win_behaviour.intros)

interpretation win_shutdown: shutdown win_behaviour win_weight win_waits "\<lambda>_ _. True"
proof
  show "total_weight win_weight (outcome_members out []) < Suc (win_weight p)" if "win_behaviour True sh p True eff out" for sh p eff out
    using that by cases simp_all
  show "\<not> win_waits q" if "win_behaviour True sh p True eff out" "\<not> win_waits p" "q \<in> set (outcome_members out [])" for sh p eff out q
    using that by cases auto
  show "\<exists>q\<in>set ps. \<exists>eff out. win_behaviour True sh q True eff out" if "p \<in> set ps" "\<not> win_waits p" for sh :: unit and ps p
    using that win_free_steps by blast
qed simp

lemma win_group_ok: "win_reach fs s \<Longrightarrow> group_ok s"
proof (induction rule: win_reach.induct)
  case win_init
  show ?case by (simp add: win_group_def group_ok_init)
next
  case (win_more s t)
  from win_more(2) show ?case
  proof cases
    case (win_member own)
    then show ?thesis using win_more(3) by (rule group_step_ok)
  next
    case win_quit
    then show ?thesis using win_more(3) by (simp add: group_ok_def group_cancel_def)
  qed
qed



end
