(* ===== verification/DnsServer.thy ===== *)
theory DnsServer
  imports Dns
begin

text \<open>
  The DNS server around the handlers of \<open>Dns\<close>: \<open>Serve\<close> and \<open>ServeTCP\<close> of
  \<open>pkg/services/dns/dns.go\<close> register the handler for the root pattern and run the server of the
  vendored \<open>miekg/dns\<close>. Modelled from the vendored code: the message header (\<open>msg.go\<close>), the
  decoding of domain names with compression pointers and of questions, the accept function
  (\<open>acceptfunc.go\<close>), the multiplexer (\<open>serve_mux.go\<close>) and \<open>serveDNS\<close> (\<open>server.go\<close>).
  The definitions say what is written back for one message, if anything.

  The decoder of one resource record (\<open>UnpackRR\<close>, one layout per record type) is a parameter.
\<close>

subsection \<open>The header of a message\<close>

record Header =
  dh_Id :: "16 word"
  dh_Bits :: "16 word"
  dh_Qdcount :: "16 word"
  dh_Ancount :: "16 word"
  dh_Nscount :: "16 word"
  dh_Arcount :: "16 word"

definition bit_QR :: "16 word" where "bit_QR = push_bit 15 1"
definition bit_AA :: "16 word" where "bit_AA = push_bit 10 1"
definition bit_TC :: "16 word" where "bit_TC = push_bit 9 1"
definition bit_RD :: "16 word" where "bit_RD = push_bit 8 1"
definition bit_RA :: "16 word" where "bit_RA = push_bit 7 1"
definition bit_Z :: "16 word" where "bit_Z = push_bit 6 1"
definition bit_AD :: "16 word" where "bit_AD = push_bit 5 1"
definition bit_CD :: "16 word" where "bit_CD = push_bit 4 1"

lemmas header_bits = bit_QR_def bit_AA_def bit_TC_def bit_RD_def bit_RA_def bit_Z_def bit_AD_def bit_CD_def

definition RcodeFormatError :: nat where "RcodeFormatError = 1"
definition RcodeNotImplemented :: nat where "RcodeNotImplemented = 4"
definition RcodeRefused :: nat where "RcodeRefused = 5"
definition OpcodeQuery :: nat where "OpcodeQuery = 0"
definition OpcodeNotify :: nat where "OpcodeNotify = 4"
definition TypeDS :: "16 word" where "TypeDS = 43"

text \<open>\<open>unpackUint16\<close> returns the value, the next offset, and the error.\<close>

definition unpackUint16 :: "bytes \<Rightarrow> nat \<Rightarrow> 16 word \<times> nat \<times> gerror option" where
  "unpackUint16 msg off =
     (if off + 2 > length msg then (0, length msg, Some ''dns: overflow unpacking uint16'')
      else (push_bit 8 (ucast (msg ! off)) OR ucast (msg ! Suc off), off + 2, None))"

definition unpackMsgHdr :: "bytes \<Rightarrow> nat \<Rightarrow> (Header \<times> nat) result" where
  "unpackMsgHdr msg off =
     (case unpackUint16 msg off of (i, off1, err) \<Rightarrow> case err of Some e \<Rightarrow> Inl e | None \<Rightarrow>
      case unpackUint16 msg off1 of (b, off2, err) \<Rightarrow> case err of Some e \<Rightarrow> Inl e | None \<Rightarrow>
      case unpackUint16 msg off2 of (qd, off3, err) \<Rightarrow> case err of Some e \<Rightarrow> Inl e | None \<Rightarrow>
      case unpackUint16 msg off3 of (an, off4, err) \<Rightarrow> case err of Some e \<Rightarrow> Inl e | None \<Rightarrow>
      case unpackUint16 msg off4 of (ns, off5, err) \<Rightarrow> case err of Some e \<Rightarrow> Inl e | None \<Rightarrow>
      case unpackUint16 msg off5 of (ar, off6, err) \<Rightarrow> case err of Some e \<Rightarrow> Inl e | None \<Rightarrow>
        Inr (\<lparr>dh_Id = i, dh_Bits = b, dh_Qdcount = qd, dh_Ancount = an, dh_Nscount = ns, dh_Arcount = ar\<rparr>, off6))"

definition setHdr :: "Msg \<Rightarrow> Header \<Rightarrow> Msg" where
  "setHdr dns dh = dns\<lparr>msg_Id := dh_Id dh,
     Response := dh_Bits dh AND bit_QR \<noteq> 0,
     Opcode := unat (drop_bit 11 (dh_Bits dh) AND 0xF),
     Authoritative := dh_Bits dh AND bit_AA \<noteq> 0,
     Truncated := dh_Bits dh AND bit_TC \<noteq> 0,
     RecursionDesired := dh_Bits dh AND bit_RD \<noteq> 0,
     RecursionAvailable := dh_Bits dh AND bit_RA \<noteq> 0,
     msg_Zero := dh_Bits dh AND bit_Z \<noteq> 0,
     AuthenticatedData := dh_Bits dh AND bit_AD \<noteq> 0,
     CheckingDisabled := dh_Bits dh AND bit_CD \<noteq> 0,
     Rcode := unat (dh_Bits dh AND 0xF)\<rparr>"

text \<open>The header that packing a message writes.\<close>

definition msg_Header :: "Msg \<Rightarrow> Header" where
  "msg_Header dns =
     \<lparr>dh_Id = msg_Id dns,
      dh_Bits = push_bit 11 (of_nat (Opcode dns)) OR (of_nat (Rcode dns) AND 0xF)
        OR (if Response dns then bit_QR else 0)
        OR (if Authoritative dns then bit_AA else 0)
        OR (if Truncated dns then bit_TC else 0)
        OR (if RecursionDesired dns then bit_RD else 0)
        OR (if RecursionAvailable dns then bit_RA else 0)
        OR (if msg_Zero dns then bit_Z else 0)
        OR (if AuthenticatedData dns then bit_AD else 0)
        OR (if CheckingDisabled dns then bit_CD else 0),
      dh_Qdcount = of_nat (length (msg_Question dns)),
      dh_Ancount = of_nat (length (Answer dns)),
      dh_Nscount = of_nat (length (Ns dns)),
      dh_Arcount = of_nat (length (Extra dns))\<rparr>"

subsection \<open>Domain names on the wire\<close>

definition maxDomainNameWireOctets :: int where "maxDomainNameWireOctets = 255"

definition maxCompressionPointers :: nat where "maxCompressionPointers = (255 + 1) div 2 - 2"

definition ErrBuf :: gerror where "ErrBuf = ''dns: buffer size too small''"
definition ErrLongDomain :: gerror where "ErrLongDomain = ''dns: domain name exceeded 255 wire-format octets''"
definition ErrRdata :: gerror where "ErrRdata = ''dns: bad rdata''"

definition isDomainNameLabelSpecial :: "byte \<Rightarrow> bool" where
  "isDomainNameLabelSpecial b \<longleftrightarrow> b \<in> {0x2E, 0x20, 0x27, 0x40, 0x3B, 0x28, 0x29, 0x22, 0x5C}"

text \<open>\<open>escapeByte\<close> looks the three decimal digits of the byte up in a table.\<close>

definition escapeByte :: "byte \<Rightarrow> string" where
  "escapeByte b = char_of (92 :: nat) # map digit_char [unat b div 100, unat b div 10 mod 10, unat b mod 10]"

definition label_byte :: "byte \<Rightarrow> string" where
  "label_byte b =
     (if isDomainNameLabelSpecial b then [char_of (92 :: nat), char_of (unat b)]
      else if b < 0x20 \<or> 0x7E < b then escapeByte b
      else [char_of (unat b)])"

text \<open>
  The loop of \<open>UnpackDomainName\<close>: the text read so far, the octets left, the number of pointers
  followed, and the offset after the first of them. It ends: every label moves the offset
  forward and at most \<open>maxCompressionPointers\<close> pointers are followed.
\<close>

function domain_loop :: "bytes \<Rightarrow> nat \<Rightarrow> string \<Rightarrow> int \<Rightarrow> nat \<Rightarrow> nat \<Rightarrow> (string \<times> nat) result" where
  "domain_loop msg off s budget ptr off1 =
     (if off \<ge> length msg then Inl ErrBuf
      else let c = msg ! off; n = unat c in
        if c AND 0xC0 = 0 then
          if c = 0 then Inr (if s = [] then ''.'' else s, if ptr = 0 then off + 1 else off1)
          else if off + 1 + n > length msg then Inl ErrBuf
          else if budget - (int n + 1) \<le> 0 then Inl ErrLongDomain
          else domain_loop msg (off + 1 + n)
            (s @ concat (map label_byte (take n (drop (off + 1) msg))) @ ''.'') (budget - (int n + 1)) ptr off1
        else if c AND 0xC0 = 0xC0 then
          if off + 1 \<ge> length msg then Inl ErrBuf
          else if ptr + 1 > maxCompressionPointers then Inl ''dns: too many compression pointers''
          else domain_loop msg (256 * unat (c XOR 0xC0) + unat (msg ! (off + 1))) s budget (ptr + 1)
            (if ptr = 0 then off + 2 else off1)
        else Inl ErrRdata)"
  by pat_completeness auto

termination
  by (relation "measures [\<lambda>(msg, off, s, budget, ptr, off1). maxCompressionPointers - ptr,
      \<lambda>(msg, off, s, budget, ptr, off1). length msg - off]") auto

declare domain_loop.simps [simp del]

definition UnpackDomainName :: "bytes \<Rightarrow> nat \<Rightarrow> (string \<times> nat) result" where
  "UnpackDomainName msg off = domain_loop msg off '''' maxDomainNameWireOctets 0 0"

subsection \<open>Questions and records\<close>

text \<open>
  \<open>unpackQuestion\<close>: a message may end after the name or after the type; an error of the last
  read leaves the offset at the end of the message and is dropped.
\<close>

definition unpackQuestion :: "bytes \<Rightarrow> nat \<Rightarrow> (Question \<times> nat) result" where
  "unpackQuestion msg off =
     (case UnpackDomainName msg off of
        Inl e \<Rightarrow> Inl e
      | Inr (name, off1) \<Rightarrow>
          if off1 = length msg then Inr (\<lparr>q_Name = name, Qtype = 0, Qclass = 0\<rparr>, off1)
          else case unpackUint16 msg off1 of (t, off2, err) \<Rightarrow> case err of
            Some e \<Rightarrow> Inl e
          | None \<Rightarrow>
              if off2 = length msg then Inr (\<lparr>q_Name = name, Qtype = t, Qclass = 0\<rparr>, off2)
              else case unpackUint16 msg off2 of (cl, off3, err) \<Rightarrow>
                if off3 = length msg then Inr (\<lparr>q_Name = name, Qtype = t, Qclass = cl\<rparr>, off3)
                else case err of Some e \<Rightarrow> Inl e | None \<Rightarrow> Inr (\<lparr>q_Name = name, Qtype = t, Qclass = cl\<rparr>, off3))"

fun unpack_questions :: "bytes \<Rightarrow> nat \<Rightarrow> nat \<Rightarrow> Question list \<Rightarrow> Question list \<times> nat \<times> gerror option" where
  "unpack_questions msg 0 off qs = (qs, off, None)"
| "unpack_questions msg (Suc n) off qs =
     (case unpackQuestion msg off of
        Inl e \<Rightarrow> (qs, off, Some e)
      | Inr (q, off') \<Rightarrow> if off' = off then (qs, off', None) else unpack_questions msg n off' (qs @ [q]))"

type_synonym rr_decoder = "bytes \<Rightarrow> nat \<Rightarrow> (RR \<times> nat) result"

fun unpackRRslice :: "rr_decoder \<Rightarrow> nat \<Rightarrow> bytes \<Rightarrow> nat \<Rightarrow> RR list \<Rightarrow> RR list \<times> nat \<times> gerror option" where
  "unpackRRslice UnpackRR 0 msg off dst = (dst, off, None)"
| "unpackRRslice UnpackRR (Suc n) msg off dst =
     (case UnpackRR msg off of
        Inl e \<Rightarrow> ([], length msg, Some e)
      | Inr (r, off') \<Rightarrow> if off' = off then (dst, off', None) else unpackRRslice UnpackRR n msg off' (dst @ [r]))"

definition ExtendedRcode :: "RR \<Rightarrow> nat" where
  "ExtendedRcode rr = 16 * unat (drop_bit 24 (Ttl (Hdr rr) AND 0xFF000000))"

text \<open>\<open>unpack\<close> fills the sections of a message and returns the error; after one, the sections read so far stay.\<close>

definition Msg_unpack :: "rr_decoder \<Rightarrow> Header \<Rightarrow> bytes \<Rightarrow> nat \<Rightarrow> Msg \<Rightarrow> Msg \<times> gerror option" where
  "Msg_unpack UnpackRR dh msg off dns =
     (if off = length msg then (dns\<lparr>msg_Question := [], Answer := [], Ns := [], Extra := []\<rparr>, None)
      else case unpack_questions msg (unat (dh_Qdcount dh)) off [] of (qs, off1, err) \<Rightarrow>
        if err \<noteq> None then (dns\<lparr>msg_Question := qs\<rparr>, err)
        else case unpackRRslice UnpackRR (unat (dh_Ancount dh)) msg off1 [] of (an, off2, err2) \<Rightarrow>
        case (if err2 = None then unpackRRslice UnpackRR (unat (dh_Nscount dh)) msg off2 [] else (Ns dns, off2, err2)) of
          (ns, off3, err3) \<Rightarrow>
        case (if err3 = None then unpackRRslice UnpackRR (unat (dh_Arcount dh)) msg off3 [] else (Extra dns, off3, err3)) of
          (ex, off4, err4) \<Rightarrow>
        let m = dns\<lparr>msg_Question := qs, Answer := an, Ns := ns, Extra := ex\<rparr>
        in (case IsEdns0 m of None \<Rightarrow> m | Some opt \<Rightarrow> m\<lparr>Rcode := Rcode m OR ExtendedRcode opt\<rparr>, err4))"

subsection \<open>The multiplexer\<close>

definition IsFqdn :: "string \<Rightarrow> bool" where
  "IsFqdn s =
     (if s = '''' \<or> last s \<noteq> CHR ''.'' then False
      else let s' = butlast s in
        if s' = '''' \<or> last s' \<noteq> char_of (92 :: nat) then True
        else even (length (takeWhile ((=) (char_of (92 :: nat))) (rev s'))))"

definition Fqdn :: "string \<Rightarrow> string" where
  "Fqdn s = (if IsFqdn s then s else s @ ''.'')"

definition ascii_lower :: "char \<Rightarrow> char" where
  "ascii_lower ch = (if 65 \<le> (of_char ch :: nat) \<and> of_char ch \<le> (90 :: nat) then char_of (of_char ch + 32 :: nat) else ch)"

definition CanonicalName :: "string \<Rightarrow> string" where
  "CanonicalName s = Fqdn (map ascii_lower s)"

definition NextLabel :: "string \<Rightarrow> nat \<Rightarrow> nat \<times> bool" where
  "NextLabel s off =
     (if s = '''' then (0, True)
      else case find (\<lambda>i. s ! i = CHR ''.'' \<and> even (length (takeWhile ((=) (char_of (92 :: nat))) (rev (take i s)))))
          [off..<length s - 1] of
        Some i \<Rightarrow> (i + 1, False)
      | None \<Rightarrow> (max off (length s - 1) + 1, True))"

lemma find_in_range: "find P [a..<b] = Some i \<Longrightarrow> a \<le> i \<and> i < b"
  by (auto simp: find_Some_iff)

lemma NextLabel_forward: "\<not> snd (NextLabel q off) \<Longrightarrow> off < fst (NextLabel q off) \<and> fst (NextLabel q off) < length q"
  by (auto simp: NextLabel_def split: if_splits option.splits dest!: find_in_range)

lemma NextLabel_decreases: "\<not> snd (NextLabel q off) \<Longrightarrow> length q - fst (NextLabel q off) < length q - off"
  using NextLabel_forward [of q off] by linarith

text \<open>The loop of \<open>match\<close>: \<open>Inl\<close> is its return, \<open>Inr\<close> what it has found when it ends.\<close>

function match_loop :: "(string \<rightharpoonup> 'h) \<Rightarrow> string \<Rightarrow> 16 word \<Rightarrow> nat \<Rightarrow> 'h option \<Rightarrow> 'h + 'h option" where
  "match_loop z q t off handler =
     (case z (drop off q) of
        Some h \<Rightarrow>
          if t \<noteq> TypeDS then Inl h
          else if snd (NextLabel q off) then Inr (Some h)
          else match_loop z q t (fst (NextLabel q off)) (Some h)
      | None \<Rightarrow>
          if snd (NextLabel q off) then Inr handler
          else match_loop z q t (fst (NextLabel q off)) handler)"
  by pat_completeness auto

termination
  by (relation "measure (\<lambda>(z, q, t, off, handler). length q - off)") (auto simp: NextLabel_decreases)

declare match_loop.simps [simp del]

definition dns_mux_match :: "(string \<rightharpoonup> 'h) \<Rightarrow> string \<Rightarrow> 16 word \<Rightarrow> 'h option" where
  "dns_mux_match z q t =
     (case match_loop z (CanonicalName q) t 0 None of
        Inl h \<Rightarrow> Some h
      | Inr handler \<Rightarrow> (case z ''.'' of Some h \<Rightarrow> Some h | None \<Rightarrow> handler))"

definition mux_Handle :: "string \<Rightarrow> 'h \<Rightarrow> (string \<rightharpoonup> 'h) \<Rightarrow> (string \<rightharpoonup> 'h) exec" where
  "mux_Handle pattern h z = (if pattern = '''' then Panic else Ret (z(CanonicalName pattern \<mapsto> h)))"

type_synonym dns_handler = "Msg \<Rightarrow> Msg"

definition handleRefused :: dns_handler where
  "handleRefused r = (SetReply new_Msg r)\<lparr>Rcode := RcodeRefused\<rparr>"

definition mux_ServeDNS :: "(string \<rightharpoonup> dns_handler) \<Rightarrow> dns_handler" where
  "mux_ServeDNS z req =
     (case (case msg_Question req of [] \<Rightarrow> None | q # _ \<Rightarrow> dns_mux_match z (q_Name q) (Qtype q)) of
        Some h \<Rightarrow> h req
      | None \<Rightarrow> handleRefused req)"

subsection \<open>The server\<close>

datatype MsgAcceptAction = MsgAccept | MsgReject | MsgIgnore | MsgRejectNotImplemented

definition defaultMsgAcceptFunc :: "Header \<Rightarrow> MsgAcceptAction" where
  "defaultMsgAcceptFunc dh =
     (if dh_Bits dh AND bit_QR \<noteq> 0 then MsgIgnore
      else let opcode = unat (drop_bit 11 (dh_Bits dh) AND 0xF) in
        if opcode \<noteq> OpcodeQuery \<and> opcode \<noteq> OpcodeNotify then MsgRejectNotImplemented
        else if dh_Qdcount dh \<noteq> 1 then MsgReject
        else if dh_Ancount dh > 1 then MsgReject
        else if dh_Nscount dh > 1 then MsgReject
        else if dh_Arcount dh > 2 then MsgReject
        else MsgAccept)"

definition SetRcodeFormatError :: "Msg \<Rightarrow> Msg \<Rightarrow> Msg" where
  "SetRcodeFormatError dns request = dns\<lparr>Rcode := RcodeFormatError, Opcode := OpcodeQuery, Response := True,
     Authoritative := False, msg_Id := msg_Id request\<rparr>"

definition dns_reject :: "MsgAcceptAction \<Rightarrow> Msg \<Rightarrow> Msg" where
  "dns_reject action req =
     (let opcode = Opcode req;
          m = (SetRcodeFormatError req req)\<lparr>msg_Zero := False\<rparr>;
          m' = (if action = MsgRejectNotImplemented then m\<lparr>Opcode := opcode, Rcode := RcodeNotImplemented\<rparr> else m)
      in m'\<lparr>Ns := [], Answer := [], Extra := []\<rparr>)"

text \<open>\<open>serveDNS\<close>: what is written back for a message, if anything. No TSIG provider is configured.\<close>

definition serveDNS :: "rr_decoder \<Rightarrow> dns_handler \<Rightarrow> bytes \<Rightarrow> Msg option" where
  "serveDNS UnpackRR handler m =
     (case unpackMsgHdr m 0 of
        Inl _ \<Rightarrow> None
      | Inr (dh, off) \<Rightarrow>
          let req = setHdr new_Msg dh in
          case defaultMsgAcceptFunc dh of
            MsgIgnore \<Rightarrow> None
          | MsgAccept \<Rightarrow>
              (case Msg_unpack UnpackRR dh m off req of
                 (req', None) \<Rightarrow> Some (handler req')
               | (req', Some _) \<Rightarrow> Some (dns_reject MsgAccept req'))
          | action \<Rightarrow> Some (dns_reject action req))"

definition dns_Serve :: "rr_decoder \<Rightarrow> 'c wire_len \<Rightarrow> resolver \<Rightarrow> Zone list \<Rightarrow> bytes \<Rightarrow> Msg option exec" where
  "dns_Serve UnpackRR W R zones m =
     bind_exec (mux_Handle ''.'' (handleUDP W R zones) Map.empty) (\<lambda>mux. Ret (serveDNS UnpackRR (mux_ServeDNS mux) m))"

definition dns_ServeTCP :: "rr_decoder \<Rightarrow> 'c wire_len \<Rightarrow> resolver \<Rightarrow> Zone list \<Rightarrow> bytes \<Rightarrow> Msg option exec" where
  "dns_ServeTCP UnpackRR W R zones m =
     bind_exec (mux_Handle ''.'' (handleTCP W R zones) Map.empty) (\<lambda>mux. Ret (serveDNS UnpackRR (mux_ServeDNS mux) m))"

subsection \<open>Every name goes to the handler of the root\<close>

lemma root_canonical [simp]: "CanonicalName ''.'' = ''.''"
  by (simp add: CanonicalName_def Fqdn_def IsFqdn_def ascii_lower_def)

lemma match_loop_only:
  "match_loop [n \<mapsto> h] q t off handler \<in> {Inl h, Inr handler, Inr (Some h)}"
proof (induction "[n \<mapsto> h]" q t off handler rule: match_loop.induct)
  case (1 q t off handler)
  show ?case
    using 1 by (subst match_loop.simps) (auto split: if_splits option.splits)
qed

lemma dns_mux_match_root [simp]: "dns_mux_match [''.'' \<mapsto> h] q t = Some h"
  using match_loop_only [of "''.''" h "CanonicalName q" t 0 None] by (auto simp: dns_mux_match_def)

text \<open>Registering the handler for the root pattern never panics, and it gets every query that has a question.\<close>

lemma dns_Serve_eq:
  "dns_Serve UnpackRR W R zones m = Ret (serveDNS UnpackRR
     (\<lambda>req. if msg_Question req = [] then handleRefused req else handleUDP W R zones req) m)"
  "dns_ServeTCP UnpackRR W R zones m = Ret (serveDNS UnpackRR
     (\<lambda>req. if msg_Question req = [] then handleRefused req else handleTCP W R zones req) m)"
  by (auto simp: dns_Serve_def dns_ServeTCP_def mux_Handle_def mux_ServeDNS_def fun_eq_iff
      intro!: arg_cong [where f = "\<lambda>h. serveDNS UnpackRR h m"] split: list.split)

subsection \<open>Replies are not answered\<close>

lemma bit_QR_bit: "(w AND bit_QR \<noteq> 0) = bit w 15" for w :: "16 word"
  unfolding bit_QR_def push_bit_of_1 by (simp only: and_exp_eq_0_iff_not_bit not_not)

lemma msg_Header_QR: "Response m \<Longrightarrow> dh_Bits (msg_Header m) AND bit_QR \<noteq> 0"
  unfolding bit_QR_bit by (simp add: msg_Header_def bit_or_iff) (simp add: bit_QR_def bit_simps)

lemma serveDNS_response:
  assumes "unpackMsgHdr m 0 = Inr (dh, off)" "dh_Bits dh AND bit_QR \<noteq> 0"
  shows "serveDNS UnpackRR h m = None"
  using assms by (simp add: serveDNS_def defaultMsgAcceptFunc_def)

lemma addAnswers_keeps:
  "msg_Id (dns_reply R zones r) = msg_Id r" "Response (dns_reply R zones r)"
proof -
  have z: "msg_Id (zone_answer z q m) = msg_Id m \<and> Response (zone_answer z q m) = Response m" for z q and m :: Msg
    by (auto simp: zone_answer_def split: option.splits)
  have v: "resolver_answer R q m = Inr m' \<or> resolver_answer R q m = Inl m' \<Longrightarrow>
      msg_Id m' = msg_Id m \<and> Response m' = Response m" for q m and m' :: Msg
    by (auto simp: resolver_answer_def Let_def split: if_splits sum.splits)
  have "msg_Id (add_answers R zones qs m) = msg_Id m \<and> Response (add_answers R zones qs m) = Response m" for qs m
  proof (induction qs arbitrary: m)
    case (Cons q qs)
    show ?case
    proof (cases "find (\<lambda>zone. HasSuffix (q_Name q) (zoneSuffix zone)) zones")
      case None
      then show ?thesis
        using v [of q m] Cons.IH by (cases "resolver_answer R q m") simp_all
    qed (simp add: z)
  qed simp
  then show "msg_Id (dns_reply R zones r) = msg_Id r" "Response (dns_reply R zones r)"
    by (simp_all add: dns_reply_def addAnswers_def)
qed

lemma Truncate_keeps:
  assumes "Extra m = []" "Ns m = []"
  shows "msg_Id (Truncate W n m) = msg_Id m \<and> Response (Truncate W n m) = Response m"
proof -
  let ?n = "max 512 n"
  have p: "popEdns0 (m\<lparr>Compress := True\<rparr>) = (None, m\<lparr>Compress := True\<rparr>)"
    by (simp add: popEdns0_def assms)
  obtain l0 c0 where q: "question_lens W 12 (no_compression W) (msg_Question m) = (l0, c0)" by force
  obtain l1 k c1 where t: "truncateLoop W ?n l0 0 c0 (Answer m) = (l1, k, c1)" by (metis prod_cases3)
  have "msg_Id (Truncate W ?n m) = msg_Id m \<and> Response (Truncate W ?n m) = Response m"
    using assms p q t by (simp add: Truncate_def MinMsgSize_def Let_def)
  then show ?thesis by (simp only: Truncate_min [of W n m])
qed

lemma dns_handle_keeps: "msg_Id (dns_handle W R zones r n) = msg_Id r" "Response (dns_handle W R zones r n)"
proof -
  have "\<exists>n'. dns_handle W R zones r n = Truncate W n' (dns_reply R zones r)"
    unfolding dns_handle_def dns_reply_def Let_def by blast
  then show "msg_Id (dns_handle W R zones r n) = msg_Id r" "Response (dns_handle W R zones r n)"
    using Truncate_keeps [OF dns_reply_sections(1,2)] addAnswers_keeps by metis+
qed

lemma Msg_unpack_Id: "msg_Id (fst (Msg_unpack UnpackRR dh m off req)) = msg_Id req"
  by (simp add: Msg_unpack_def Let_def split: prod.split option.split)

lemma dns_reject_keeps: "msg_Id (dns_reject a req) = msg_Id req" "Response (dns_reject a req)"
  by (simp_all add: dns_reject_def SetRcodeFormatError_def Let_def)

lemma serveDNS_reply:
  assumes "serveDNS UnpackRR h m = Some r" and h: "\<And>q. msg_Id (h q) = msg_Id q \<and> Response (h q)"
  shows "Response r \<and> (\<exists>dh off. unpackMsgHdr m 0 = Inr (dh, off) \<and> msg_Id r = dh_Id dh)"
proof -
  obtain dh off where d: "unpackMsgHdr m 0 = Inr (dh, off)"
    using assms(1) by (cases "unpackMsgHdr m 0") (auto simp: serveDNS_def)
  obtain req e where u: "Msg_unpack UnpackRR dh m off (setHdr new_Msg dh) = (req, e)" by force
  have i: "msg_Id req = dh_Id dh" using Msg_unpack_Id [of UnpackRR dh m off "setHdr new_Msg dh"] u by (simp add: setHdr_def)
  have "Response r \<and> msg_Id r = dh_Id dh"
    using assms(1) d u i h dns_reject_keeps
    by (cases "defaultMsgAcceptFunc dh"; cases e) (auto simp: serveDNS_def setHdr_def Let_def)
  then show ?thesis using d by blast
qed

text \<open>
  C18. The DNS server cannot be drawn into a loop of replies: whatever it writes back to a
  datagram carries the identifier of that datagram and the response bit, and a message with
  the header of such a reply is dropped by every server of this kind, over UDP and over TCP,
  whatever follows the header.
\<close>

theorem dns_no_reply_loop:
  assumes "dns_Serve UnpackRR W R zones m = Ret (Some r)" "unpackMsgHdr m' 0 = Inr (msg_Header r, off)"
  shows "(\<exists>dh off. unpackMsgHdr m 0 = Inr (dh, off) \<and> msg_Id r = dh_Id dh)
    \<and> dns_Serve UnpackRR' W' R' zones' m' = Ret None \<and> dns_ServeTCP UnpackRR' W' R' zones' m' = Ret None"
proof -
  have "serveDNS UnpackRR (\<lambda>req. if msg_Question req = [] then handleRefused req else handleUDP W R zones req) m = Some r"
    using assms(1) by (simp add: dns_Serve_eq)
  then have "Response r \<and> (\<exists>dh off. unpackMsgHdr m 0 = Inr (dh, off) \<and> msg_Id r = dh_Id dh)"
    by (rule serveDNS_reply) (simp add: handleRefused_def handleUDP_def dns_handle_keeps)
  then show ?thesis using serveDNS_response [OF assms(2) msg_Header_QR] by (simp add: dns_Serve_eq)
qed

subsection \<open>A query as bytes\<close>

text \<open>A name without compression, and the text it stands for.\<close>

definition wire_name :: "bytes list \<Rightarrow> bytes" where
  "wire_name ls = concat (map (\<lambda>l. of_nat (length l) # l) ls) @ [0]"

definition name_text :: "bytes list \<Rightarrow> string" where
  "name_text ls = concat (map (\<lambda>l. concat (map label_byte l) @ ''.'') ls)"

definition labels_ok :: "bytes list \<Rightarrow> bool" where
  "labels_ok ls \<longleftrightarrow> list_all (\<lambda>l. l \<noteq> [] \<and> length l \<le> 63) ls \<and> sum_list (map (\<lambda>l. length l + 1) ls) \<le> 254"

lemma label_length_byte:
  assumes "n \<le> 63"
  shows "(of_nat n :: byte) AND 0xC0 = 0" "unat (of_nat n :: byte) = n"
proof -
  have "list_all (\<lambda>n. (of_nat n :: byte) AND 0xC0 = 0) [0..<64]" by code_simp
  then show "(of_nat n :: byte) AND 0xC0 = 0" using assms by (simp add: list_all_iff del: upt_rec_numeral)
  show "unat (of_nat n :: byte) = n" using assms by (simp add: unat_of_nat)
qed

lemma domain_loop_labels:
  assumes "list_all (\<lambda>l. l \<noteq> [] \<and> length l \<le> 63) ls" "int (sum_list (map (\<lambda>l. length l + 1) ls)) < budget"
  shows "domain_loop (pre @ wire_name ls @ post) (length pre) s budget 0 0 =
    Inr (if s @ name_text ls = '''' then ''.'' else s @ name_text ls, length pre + length (wire_name ls))"
  using assms
proof (induction ls arbitrary: pre s budget)
  case Nil
  then show ?case by (subst domain_loop.simps) (simp add: wire_name_def name_text_def)
next
  case (Cons l ls)
  let ?n = "of_nat (length l) :: byte" and ?s = "s @ concat (map label_byte l) @ ''.''"
  have l: "l \<noteq> []" "length l \<le> 63" using Cons.prems by simp_all
  have n: "?n AND 0xC0 = 0" "unat ?n = length l" using label_length_byte [OF l(2)] by simp_all
  have n0: "?n \<noteq> 0" using l n(2) by auto
  have m: "pre @ wire_name (l # ls) @ post = (pre @ ?n # l) @ wire_name ls @ post" by (simp add: wire_name_def)
  have "domain_loop (pre @ wire_name (l # ls) @ post) (length pre) s budget 0 0 =
      domain_loop ((pre @ ?n # l) @ wire_name ls @ post) (length (pre @ ?n # l)) ?s (budget - (int (length l) + 1)) 0 0"
    using Cons.prems n n0 unfolding m by (subst domain_loop.simps) (simp add: nth_append Let_def)
  also have "\<dots> = Inr (?s @ name_text ls, length (pre @ ?n # l) + length (wire_name ls))"
    using Cons.prems by (subst Cons.IH) simp_all
  finally show ?case by (simp add: name_text_def wire_name_def)
qed

text \<open>A pointer that leads back to itself is followed 126 times and then refused.\<close>

lemma UnpackDomainName_cycle: "UnpackDomainName [0xC0, 0] 0 = Inl ''dns: too many compression pointers''"
proof -
  have "ptr \<le> maxCompressionPointers \<Longrightarrow>
      domain_loop [0xC0, 0] 0 s budget ptr off1 = Inl ''dns: too many compression pointers''" for s budget ptr off1
    by (induction "maxCompressionPointers - ptr" arbitrary: ptr off1) (subst domain_loop.simps, simp add: Let_def)+
  then show ?thesis by (simp add: UnpackDomainName_def)
qed

lemma UnpackDomainName_wire:
  assumes "labels_ok ls"
  shows "UnpackDomainName (pre @ wire_name ls @ post) (length pre) =
    Inr (if ls = [] then ''.'' else name_text ls, length pre + length (wire_name ls))"
  using assms domain_loop_labels [of ls maxDomainNameWireOctets pre post "''''"]
  by (cases ls) (auto simp: UnpackDomainName_def labels_ok_def maxDomainNameWireOctets_def name_text_def)

text \<open>An address query with recursion desired, and the message it decodes to.\<close>

definition query_bytes :: "byte \<Rightarrow> byte \<Rightarrow> bytes list \<Rightarrow> bytes" where
  "query_bytes i j ls = [i, j, 1, 0, 0, 1, 0, 0, 0, 0, 0, 0] @ wire_name ls @ [0, 1, 0, 1]"

definition query_msg :: "byte \<Rightarrow> byte \<Rightarrow> bytes list \<Rightarrow> Msg" where
  "query_msg i j ls = new_Msg\<lparr>msg_Id := push_bit 8 (ucast i) OR ucast j, RecursionDesired := True,
     msg_Question := [\<lparr>q_Name = name_text ls, Qtype = TypeA, Qclass = ClassINET\<rparr>]\<rparr>"

lemma query_header:
  "unpackMsgHdr (query_bytes i j ls) 0 = Inr (\<lparr>dh_Id = push_bit 8 (ucast i) OR ucast j, dh_Bits = 0x100,
     dh_Qdcount = 1, dh_Ancount = 0, dh_Nscount = 0, dh_Arcount = 0\<rparr>, 12)"
  by (simp add: unpackMsgHdr_def unpackUint16_def query_bytes_def)

lemma query_question:
  assumes "labels_ok ls" "ls \<noteq> []"
  shows "unpackQuestion (query_bytes i j ls) 12 =
    Inr (\<lparr>q_Name = name_text ls, Qtype = TypeA, Qclass = ClassINET\<rparr>, length (query_bytes i j ls))"
proof -
  obtain p q where p: "query_bytes i j ls = p @ wire_name ls @ [0, 1, 0, 1]" "length p = 12"
    and q: "query_bytes i j ls = q @ [0, 1, 0, 1]" "length q = 12 + length (wire_name ls)"
    using that [of "[i, j, 1, 0, 0, 1, 0, 0, 0, 0, 0, 0]" "[i, j, 1, 0, 0, 1, 0, 0, 0, 0, 0, 0] @ wire_name ls"]
    by (simp add: query_bytes_def)
  have "UnpackDomainName (query_bytes i j ls) 12 = Inr (name_text ls, length q)"
    using UnpackDomainName_wire [OF assms(1), of p "[0, 1, 0, 1]"] assms(2) p q(2) by simp
  then show ?thesis
    unfolding q(1) by (simp add: unpackQuestion_def unpackUint16_def nth_append TypeA_def ClassINET_def)
qed

lemma serveDNS_query:
  assumes "labels_ok ls" "ls \<noteq> []"
  shows "serveDNS UnpackRR h (query_bytes i j ls) = Some (h (query_msg i j ls))"
proof -
  let ?dh = "\<lparr>dh_Id = push_bit 8 (ucast i) OR ucast j, dh_Bits = 0x100, dh_Qdcount = 1,
     dh_Ancount = 0, dh_Nscount = 0, dh_Arcount = 0\<rparr> :: Header"
  have h: "setHdr new_Msg ?dh = new_Msg\<lparr>msg_Id := push_bit 8 (ucast i) OR ucast j, RecursionDesired := True\<rparr>"
    by (simp add: setHdr_def header_bits new_Msg_def)
  have l: "12 < length (query_bytes i j ls)" by (simp add: query_bytes_def)
  have "Msg_unpack UnpackRR ?dh (query_bytes i j ls) 12 (setHdr new_Msg ?dh) = (query_msg i j ls, None)"
    using query_question [OF assms] l
    by (simp add: Msg_unpack_def h query_msg_def IsEdns0_def Let_def)
  then show ?thesis
    by (simp add: serveDNS_def query_header defaultMsgAcceptFunc_def bit_QR_def OpcodeQuery_def Let_def)
qed

lemma dns_Serve_query:
  assumes "labels_ok ls" "ls \<noteq> []"
  shows "dns_Serve UnpackRR W R zones (query_bytes i j ls) = Ret (Some (handleUDP W R zones (query_msg i j ls)))"
  by (simp add: dns_Serve_eq serveDNS_query [OF assms]) (simp add: query_msg_def)

text \<open>
  C5. From the bytes of an address query to the reply: a datagram that asks for a name inside
  a configured zone is decoded, passes the checks of the server and reaches the handler; the
  reply carries the identifier of the query and, if it fits a datagram, is not truncated and
  holds exactly what the zone says, the address or the name error, whatever the resolver of
  the host says.
\<close>

theorem dns_query_answered:
  assumes "labels_ok ls" "ls \<noteq> []" "find_zone zones (name_text ls) = Some z"
    and "msg_len W (dns_reply R zones (query_msg i j ls)) \<le> 512"
  shows "\<exists>r. dns_Serve UnpackRR W R zones (query_bytes i j ls) = Ret (Some r)
    \<and> msg_Id r = push_bit 8 (ucast i) OR ucast j \<and> \<not> Truncated r
    \<and> Answer r = (case zone_lookup z (name_text ls) of Some a \<Rightarrow> [mk_rr (name_text ls) TypeA (rA a)] | None \<Rightarrow> [])
    \<and> Rcode r = (if zone_lookup z (name_text ls) = None then RcodeNameError else RcodeSuccess)"
proof -
  let ?m = "query_msg i j ls"
  have e: "IsEdns0 ?m = None" by (simp add: query_msg_def IsEdns0_def)
  have "handleUDP W R zones ?m = Truncate W 512 (dns_reply R zones ?m)"
    using e by (simp add: handleUDP_def dns_handle_def dns_reply_def MinMsgSize_def Let_def)
  also have "\<dots> = (dns_reply R zones ?m)\<lparr>Compress := False\<rparr>"
    by (rule Truncate_fits) (use assms(4) in simp_all)
  finally have r: "handleUDP W R zones ?m = (dns_reply R zones ?m)\<lparr>Compress := False\<rparr>" .
  have q: "msg_Question ?m = [\<lparr>q_Name = name_text ls, Qtype = TypeA, Qclass = ClassINET\<rparr>]"
    by (simp add: query_msg_def)
  have a: "Answer (dns_reply R zones ?m) = (case zone_lookup z (name_text ls) of
        Some a \<Rightarrow> [mk_rr (name_text ls) TypeA (rA a)] | None \<Rightarrow> [])
      \<and> Rcode (dns_reply R zones ?m) = (if zone_lookup z (name_text ls) = None then RcodeNameError else RcodeSuccess)"
    using dns_zone_answer [OF q, of zones z R] assms(3) by (simp cong: option.case_cong)
  have "msg_Id (dns_reply R zones ?m) = push_bit 8 (ucast i) OR ucast j"
    by (simp add: addAnswers_keeps query_msg_def)
  then show ?thesis
    using dns_Serve_query [OF assms(1,2), of UnpackRR W R zones i j] a dns_reply_sections(3) unfolding r
    by (intro exI [of _ "(dns_reply R zones ?m)\<lparr>Compress := False\<rparr>"]) simp
qed

definition no_rr :: rr_decoder where
  "no_rr msg off = Inl ErrBuf"

definition free_wire :: "unit wire_len" where
  "free_wire = \<lparr>msg_len = (\<lambda>_. 60), opt_len = (\<lambda>_. 11), question_len = (\<lambda>_ _ c. (20, c)), rr_len = (\<lambda>_ _ c. (16, c)),
     no_compression = ()\<rparr>"

definition gateway_labels :: "bytes list" where
  "gateway_labels = [[0x67, 0x61, 0x74, 0x65, 0x77, 0x61, 0x79], [0x69, 0x6E, 0x74, 0x65, 0x72, 0x6E, 0x61, 0x6C]]"

lemma gateway_labels_text: "labels_ok gateway_labels" "gateway_labels \<noteq> []" "name_text gateway_labels = ''gateway.internal.''"
  by (simp_all add: labels_ok_def gateway_labels_def name_text_def label_byte_def isDomainNameLabelSpecial_def char_of_def bit_0)

theorem dns_query_answered_witness:
  "\<exists>r. dns_Serve no_rr free_wire no_resolver [sample_zone] (query_bytes 0 7 gateway_labels) = Ret (Some r)
    \<and> msg_Id r = 7 \<and> Answer r = [mk_rr ''gateway.internal.'' TypeA (rA [192, 168, 127, 1])]"
  using dns_query_answered [of gateway_labels "[sample_zone]" sample_zone free_wire no_resolver 0 7 no_rr]
    gateway_labels_text sample_zone_found sample_zone_lookup by (auto simp: free_wire_def)

theorem dns_no_reply_loop_witness:
  "dns_Serve no_rr free_wire no_resolver [] [0, 9, 0, 0, 0, 0, 0, 0, 0, 0, 0, 0, 1] = Ret (Some
     (dns_reject MsgReject (setHdr new_Msg \<lparr>dh_Id = 9, dh_Bits = 0, dh_Qdcount = 0, dh_Ancount = 0, dh_Nscount = 0, dh_Arcount = 0\<rparr>)))
   \<and> dns_Serve no_rr free_wire no_resolver [] [0, 9, 128, 1, 0, 0, 0, 0, 0, 0, 0, 0] = Ret None"
proof -
  let ?dh = "\<lparr>dh_Id = 9, dh_Bits = 0, dh_Qdcount = 0, dh_Ancount = 0, dh_Nscount = 0, dh_Arcount = 0\<rparr> :: Header"
  let ?m = "[0, 9, 0, 0, 0, 0, 0, 0, 0, 0, 0, 0, 1] :: bytes" and ?m' = "[0, 9, 128, 1, 0, 0, 0, 0, 0, 0, 0, 0] :: bytes"
  let ?r = "dns_reject MsgReject (setHdr new_Msg ?dh)"
  have "unpackMsgHdr ?m 0 = Inr (?dh, 12)" by (simp add: unpackMsgHdr_def unpackUint16_def)
  then have s: "dns_Serve no_rr free_wire no_resolver [] ?m = Ret (Some ?r)"
    by (simp add: dns_Serve_eq serveDNS_def defaultMsgAcceptFunc_def OpcodeQuery_def Let_def)
  have "unpackMsgHdr ?m' 0 = Inr (msg_Header ?r, 12)"
    by (simp add: unpackMsgHdr_def unpackUint16_def msg_Header_def dns_reject_def SetRcodeFormatError_def setHdr_def
        new_Msg_def RcodeFormatError_def OpcodeQuery_def header_bits Let_def)
  from dns_no_reply_loop [OF s this] s show ?thesis by blast
qed

end
