(* ===== verification/Tools.thy ===== *)
theory Tools
  imports DnsServer
begin

text \<open>
  The programs that support the end-to-end tests and the start of virtual machines: the server
  of \<open>cmd/test-companion\<close>, \<open>cmd/qemu-wrapper\<close>, and the mock SSH server of
  \<open>test-win-sshproxy/mock_sshserver.go\<close>. Sockets, processes and the SSH library are parameters,
  or appear as what they return.
\<close>

subsection \<open>test-companion\<close>

text \<open>The records a query gets: the address 1.2.3.4, in the 16-byte form of \<open>net.ParseIP\<close>.\<close>

definition companion_ip :: ip where
  "companion_ip = ParseIP ''1.2.3.4''"

definition companion_dns :: dns_handler where
  "companion_dns r =
     (let m = (SetReply new_Msg r)\<lparr>RecursionAvailable := True\<rparr>
      in add_rrs m (map (\<lambda>q. mk_rr (q_Name q) TypeA (rA companion_ip)) (filter (\<lambda>q. Qtype q = TypeA) (msg_Question m))))"

definition companion_Serve :: "rr_decoder \<Rightarrow> bytes \<Rightarrow> Msg option exec" where
  "companion_Serve UnpackRR m =
     bind_exec (mux_Handle ''.'' companion_dns Map.empty) (\<lambda>mux. Ret (serveDNS UnpackRR (mux_ServeDNS mux) m))"

definition companion_http :: "string \<Rightarrow> http_response" where
  "companion_http path =
     (case mux_match [(''/'', ''Hello world!'')] path of
        Some body \<Rightarrow> \<lparr>status = StatusOK, resp_body = body\<rparr>
      | None \<Rightarrow> http_Error ''404 page not found'' StatusNotFound)"

text \<open>Every address query is answered with the same address, and every path is served.\<close>

lemma companion_answers:
  assumes "labels_ok ls" "ls \<noteq> []"
  shows "\<exists>r. companion_Serve UnpackRR (query_bytes i j ls) = Ret (Some r)
    \<and> msg_Id r = push_bit 8 (ucast i) OR ucast j \<and> Answer r = [mk_rr (name_text ls) TypeA (rA companion_ip)]"
proof -
  have "companion_Serve UnpackRR (query_bytes i j ls) = Ret (Some (companion_dns (query_msg i j ls)))"
    using serveDNS_query [OF assms, of UnpackRR "mux_ServeDNS [''.'' \<mapsto> companion_dns]" i j]
    by (simp add: companion_Serve_def mux_Handle_def mux_ServeDNS_def query_msg_def)
  then show ?thesis by (simp add: companion_dns_def query_msg_def Let_def)
qed

lemma companion_http_ok: "HasPrefix path ''/'' \<Longrightarrow> companion_http path = \<lparr>status = 200, resp_body = ''Hello world!''\<rparr>"
  by (simp add: companion_http_def mux_match_def HasSuffix_def)

subsection \<open>qemu-wrapper\<close>

text \<open>The child process: program, arguments, and the files it gets after the three standard ones.\<close>

record 'f child =
  ch_Path :: string
  ch_Args :: "string list"
  ch_ExtraFiles :: "'f list"

record ('c, 'f) wrapper_env =
  we_Dial :: "string \<Rightarrow> string \<Rightarrow> 'c result"
  we_File :: "'c \<Rightarrow> 'f result"
  we_Run :: "'f child \<Rightarrow> gerror option"

text \<open>The child that was started, if any, and the error given to \<open>log.Fatal\<close>. An index outside of \<open>os.Args\<close> panics.\<close>

definition qemu_wrapper :: "('c, 'f) wrapper_env \<Rightarrow> string list \<Rightarrow> ('f child option \<times> gerror option) exec" where
  "qemu_wrapper E args =
     (if length args < 2 then Panic
      else case we_Dial E ''unix'' (args ! 1) of
        Inl err \<Rightarrow> Ret (None, Some err)
      | Inr conn \<Rightarrow>
          (case we_File E conn of
             Inl err \<Rightarrow> Ret (None, Some err)
           | Inr fd \<Rightarrow>
               if length args < 3 then Panic
               else let cmd = \<lparr>ch_Path = args ! 2, ch_Args = drop 3 args, ch_ExtraFiles = [fd]\<rparr>
                    in Ret (Some cmd, we_Run E cmd)))"

text \<open>A child that runs has the connected socket as its first extra file, descriptor 3.\<close>

lemma qemu_wrapper_socket:
  assumes "qemu_wrapper E args = Ret (Some cmd, err)"
  shows "\<exists>self path conn fd. args = self # path # ch_Path cmd # ch_Args cmd
    \<and> we_Dial E ''unix'' path = Inr conn \<and> we_File E conn = Inr fd \<and> ch_ExtraFiles cmd = [fd]"
proof -
  have l: "\<not> length args < 2" "\<not> length args < 3"
    using assms by (auto simp: qemu_wrapper_def split: if_splits sum.splits)
  then obtain self path prog rest where a: "args = self # path # prog # rest"
    by (cases args; cases "tl args"; cases "tl (tl args)") auto
  then show ?thesis using assms by (auto simp: qemu_wrapper_def Let_def split: sum.splits)
qed

subsection \<open>The mock SSH server\<close>

text \<open>
  A channel a client opens: its type, what decoding its data gives, what accepting it gives, and
  what reading an HTTP request from it gives (the URI).
\<close>

record new_channel =
  ChannelType :: string
  nc_Unmarshal :: "gerror option"
  nc_Accept :: "gerror option"
  nc_ReadRequest :: "string result"

datatype channel_event =
    Rejected string
  | NotAccepted
  | Responded nat string

text \<open>
  \<open>handleChannels\<close>: after a request that cannot be read the variable \<open>req\<close> is nil, and reading
  its URI panics. The result is what was done, and whether the loop ended in a panic.
\<close>

fun handleChannels :: "new_channel list \<Rightarrow> channel_event list \<times> bool" where
  "handleChannels [] = ([], False)"
| "handleChannels (c # cs) =
     (if ChannelType c \<noteq> ''direct-streamlocal@openssh.com''
      then apfst ((#) (Rejected (''unknown channel type: '' @ ChannelType c))) (handleChannels cs)
      else if nc_Unmarshal c \<noteq> None then ([Rejected ''invalid format''], False)
      else if nc_Accept c \<noteq> None then apfst ((#) NotAccepted) (handleChannels cs)
      else case nc_ReadRequest c of
        Inl _ \<Rightarrow> ([], True)
      | Inr uri \<Rightarrow> apfst ((#) (if uri = ''/ping'' then Responded 200 ''pong'' else Responded 404 '''')) (handleChannels cs))"

text \<open>
  One round of the accept loop: whether the context is done, what accepting gives, and what the
  SSH handshake gives. The loop counts the connections it has served; an error panics.
\<close>

fun mock_loop :: "(bool \<times> gerror option \<times> gerror option) list \<Rightarrow> nat \<Rightarrow> nat exec" where
  "mock_loop [] n = Ret n"
| "mock_loop ((cancelled, acc, handshake) # rs) n =
     (if cancelled then Ret n
      else if acc \<noteq> None then Panic
      else if handshake \<noteq> None then Panic
      else mock_loop rs (Suc n))"

text \<open>
  \<open>startMockServer\<close>: an error of parsing the key is only logged, and shows in the handshakes. The server
  ends well only if it is stopped between two connections, before anything goes wrong.
\<close>

definition startMockServer :: "gerror option \<Rightarrow> (bool \<times> gerror option \<times> gerror option) list \<Rightarrow> nat exec" where
  "startMockServer listen rounds = (if listen \<noteq> None then Panic else mock_loop rounds 0)"

lemma mock_loop_Ret:
  "mock_loop rs n = Ret k \<longleftrightarrow> k = n + length (takeWhile (\<lambda>r. \<not> fst r) rs)
     \<and> list_all (\<lambda>(_, acc, handshake). acc = None \<and> handshake = None) (takeWhile (\<lambda>r. \<not> fst r) rs)"
  by (induction rs n rule: mock_loop.induct) auto

text \<open>The server panics exactly when it reads a broken request before a channel with broken data.\<close>

definition broken_data :: "new_channel \<Rightarrow> bool" where
  "broken_data c \<longleftrightarrow> ChannelType c = ''direct-streamlocal@openssh.com'' \<and> nc_Unmarshal c \<noteq> None"

definition broken_request :: "new_channel \<Rightarrow> bool" where
  "broken_request c \<longleftrightarrow> ChannelType c = ''direct-streamlocal@openssh.com'' \<and> nc_Unmarshal c = None
     \<and> nc_Accept c = None \<and> isl (nc_ReadRequest c)"

lemma handleChannels_panics:
  "snd (handleChannels cs) \<longleftrightarrow> (case find (\<lambda>c. broken_data c \<or> broken_request c) cs of None \<Rightarrow> False | Some c \<Rightarrow> broken_request c)"
proof (induction cs)
  case (Cons c cs)
  then show ?case
    by (cases "nc_ReadRequest c") (auto simp: broken_data_def broken_request_def)
qed simp

end
