(* ===== verification/TestSupport.thy ===== *)
theory TestSupport
  imports Transport
begin

text \<open>
  What the end-to-end tests prepare, \<open>src/test\<close>: finding and unpacking the image of the virtual machine
  (\<open>fcos.go\<close>, \<open>fcos_amd64.go\<close>, \<open>pull.go\<close>) and the configuration of its first boot (\<open>ignition.go\<close>, with the
  types of \<open>ignition_schema.go\<close> it uses).

  A file system is a map from paths to contents. The stream of releases, the downloads, digests and the
  program \<open>xzcat\<close> are an environment; the JSON encoding is not modelled.
\<close>

subsection \<open>The stream of releases\<close>

record fcosDownloadInfo =
  fi_Location :: string
  fi_Sha256Sum :: string

text \<open>The part of the stream that is looked at; a nil map or pointer is \<open>None\<close>.\<close>

record stream_format =
  sf_Disk :: "fcosDownloadInfo option"

record stream_artifact =
  sa_Formats :: "(string \<rightharpoonup> stream_format) option"

record stream_arch =
  ar_Artifacts :: "(string \<rightharpoonup> stream_artifact) option"

type_synonym stream = "string \<rightharpoonup> stream_arch"

record image_env =
  ie_Get :: "bytes result result"
  ie_Unmarshal :: "bytes \<Rightarrow> stream result"
  ie_Open :: "string \<Rightarrow> gerror option"
  ie_Create :: "string \<Rightarrow> gerror option"
  ie_Digest :: "bytes \<Rightarrow> string result"
  ie_Download :: "string \<Rightarrow> (nat \<times> string \<times> bytes \<times> gerror option) result"
  ie_xzcat :: "bytes \<Rightarrow> bytes \<times> gerror option"

definition getFCOSDownload :: "image_env \<Rightarrow> fcosDownloadInfo result" where
  "getFCOSDownload E =
     (case ie_Get E of Inl err \<Rightarrow> Inl err | Inr resp \<Rightarrow>
      case resp of Inl err \<Rightarrow> Inl err | Inr body \<Rightarrow>
      case ie_Unmarshal E body of Inl err \<Rightarrow> Inl err | Inr fcosstable \<Rightarrow>
      case fcosstable ''x86_64'' of None \<Rightarrow> Inl ''unable to pull VM image: no targetArch in stream'' | Some arch \<Rightarrow>
      case ar_Artifacts arch of None \<Rightarrow> Inl ''unable to pull VM image: no artifact in stream'' | Some artifacts \<Rightarrow>
      case artifacts ''qemu'' of None \<Rightarrow> Inl ''unable to pull VM image: no qemu artifact in stream'' | Some qemu \<Rightarrow>
      case sa_Formats qemu of None \<Rightarrow> Inl ''unable to pull VM image: no formats in stream'' | Some formats \<Rightarrow>
      case formats ''qcow2.xz'' of None \<Rightarrow> Inl ''unable to pull VM image: no qcow2.xz format in stream'' | Some qcow \<Rightarrow>
      case sf_Disk qcow of None \<Rightarrow> Inl ''unable to pull VM image: no disk in stream'' | Some disk \<Rightarrow>
        Inr \<lparr>fi_Location = fi_Location disk, fi_Sha256Sum = fi_Sha256Sum disk\<rparr>)"

subsection \<open>The image\<close>

type_synonym files = "string \<rightharpoonup> bytes"

record FcosDownload =
  DataDir :: string

definition NewFcosDownloader :: "string \<Rightarrow> FcosDownload" where
  "NewFcosDownloader dataDir = \<lparr>DataDir = dataDir\<rparr>"

definition imageName :: "fcosDownloadInfo \<Rightarrow> string" where
  "imageName info = last (Split (fi_Location info) (CHR ''/''))"

definition updateAvailable :: "image_env \<Rightarrow> fcosDownloadInfo \<Rightarrow> string \<Rightarrow> files \<Rightarrow> bool result" where
  "updateAvailable E info compressedImage fs =
     (case fs compressedImage of
        None \<Rightarrow> Inr False
      | Some content \<Rightarrow>
          (case ie_Open E compressedImage of
             Some err \<Rightarrow> Inl err
           | None \<Rightarrow>
               (case ie_Digest E content of
                  Inl err \<Rightarrow> Inl err
                | Inr digest \<Rightarrow> Inr (digest = fi_Sha256Sum info))))"

definition DownloadVMImage :: "image_env \<Rightarrow> string \<Rightarrow> string \<Rightarrow> files \<Rightarrow> gerror option \<times> files" where
  "DownloadVMImage E downloadURL localImagePath fs =
     (case ie_Create E localImagePath of
        Some err \<Rightarrow> (Some err, fs)
      | None \<Rightarrow>
          let created = fs(localImagePath \<mapsto> []) in
          case ie_Download E downloadURL of
            Inl err \<Rightarrow> (Some err, created)
          | Inr (code, shown, body, copyErr) \<Rightarrow>
              if code \<noteq> 200 then (Some (''error downloading VM image '' @ downloadURL @ '': '' @ shown), created)
              else (copyErr, fs(localImagePath \<mapsto> body)))"

text \<open>
  The file that is written keeps what it has beyond the new contents. \<open>ie_xzcat\<close> gives what has been
  copied to it when the program ends; nothing waits for the goroutine that copies.
\<close>

definition decompressXZ :: "image_env \<Rightarrow> bytes \<Rightarrow> bytes \<Rightarrow> gerror option \<times> bytes" where
  "decompressXZ E src old = (case ie_xzcat E src of (out, err) \<Rightarrow> (err, out @ drop (length out) old))"

definition Decompress :: "image_env \<Rightarrow> string \<Rightarrow> string \<Rightarrow> files \<Rightarrow> gerror option \<times> files" where
  "Decompress E localPath uncompressedPath fs =
     (case ie_Open E uncompressedPath of
        Some err \<Rightarrow> (Some err, fs)
      | None \<Rightarrow>
          let old = (case fs uncompressedPath of None \<Rightarrow> [] | Some c \<Rightarrow> c);
              opened = fs(uncompressedPath \<mapsto> old)
          in if \<not> HasSuffix localPath ''.xz'' then (Some (''unsupported compression for '' @ localPath), opened)
             else case decompressXZ E (case opened localPath of None \<Rightarrow> [] | Some c \<Rightarrow> c) old of
               (err, new) \<Rightarrow> (err, opened(uncompressedPath \<mapsto> new)))"

definition path_Dir :: "string \<Rightarrow> string" where
  "path_Dir p = path_Clean (rev (dropWhile (\<lambda>c. c \<noteq> CHR ''/'') (rev p)))"

definition image_paths :: "FcosDownload \<Rightarrow> fcosDownloadInfo \<Rightarrow> string \<times> string" where
  "image_paths d info =
     (let compressedImage = path_Join (DataDir d) (imageName info)
      in (compressedImage, TrimSuffix (path_Join (path_Dir compressedImage) (imageName info)) ''.xz''))"

definition DownloadImage :: "image_env \<Rightarrow> FcosDownload \<Rightarrow> files \<Rightarrow> string result \<times> files" where
  "DownloadImage E d fs =
     (case getFCOSDownload E of
        Inl err \<Rightarrow> (Inl err, fs)
      | Inr info \<Rightarrow>
          case image_paths d info of (compressedImage, uncompressedImage) \<Rightarrow>
          case updateAvailable E info compressedImage fs of
            Inl err \<Rightarrow> (Inl err, fs)
          | Inr ok \<Rightarrow>
              case (if ok then (None, fs) else DownloadVMImage E (fi_Location info) compressedImage fs) of
                (Some err, fs1) \<Rightarrow> (Inl err, fs1)
              | (None, fs1) \<Rightarrow>
                  if fs1 uncompressedImage \<noteq> None then (Inr uncompressedImage, fs1)
                  else case Decompress E compressedImage uncompressedImage fs1 of
                    (Some err, fs2) \<Rightarrow> (Inl err, fs2)
                  | (None, fs2) \<Rightarrow> (Inr uncompressedImage, fs2))"

text \<open>On success without an unpacked image from before, the file is what \<open>xzcat\<close> has made of the downloaded one.\<close>

lemma DownloadImage_unpacks:
  assumes "DownloadImage E d fs = (Inr p, fs')" "getFCOSDownload E = Inr info" "image_paths d info = (c, u)"
    and "u \<noteq> c" "fs u = None"
  shows "p = u \<and> (\<exists>packed out. fs' c = Some packed \<and> ie_xzcat E packed = (out, None) \<and> fs' u = Some out)"
proof -
  have split: "case (if ok then (None, fs) else DownloadVMImage E (fi_Location info) c fs) of
      (Some err, fs1) \<Rightarrow> True | (None, fs1) \<Rightarrow> fs1 u = None \<and> fs1 c \<noteq> None" if "updateAvailable E info c fs = Inr ok" for ok
    using that assms(4,5) by (auto simp: updateAvailable_def DownloadVMImage_def Let_def split: option.splits sum.splits prod.splits if_splits)
  show ?thesis
    using assms(1-4) split
    by (auto simp: DownloadImage_def Decompress_def decompressXZ_def Let_def split: sum.splits prod.splits option.splits if_splits)
qed

text \<open>
  An image that could not be unpacked is used the next time: the first call reports the error and leaves
  the file that was opened, and the second one finds it and returns it.
\<close>

lemma broken_image_reused:
  assumes "getFCOSDownload E = Inr info" "image_paths d info = (c, u)" "u \<noteq> c"
    and "fs c = Some packed" "ie_Open E c = None" "ie_Digest E packed = Inr (fi_Sha256Sum info)"
    and "fs u = None" "ie_Open E u = None" "HasSuffix c ''.xz''" "ie_xzcat E packed = (out, Some err)"
  shows "\<exists>fs'. DownloadImage E d fs = (Inl err, fs') \<and> DownloadImage E d fs' = (Inr u, fs') \<and> fs' u = Some out"
proof -
  let ?fs = "fs(u \<mapsto> out)"
  have "DownloadImage E d fs = (Inl err, ?fs)"
    using assms by (simp add: DownloadImage_def updateAvailable_def Decompress_def decompressXZ_def Let_def)
  moreover have "DownloadImage E d ?fs = (Inr u, ?fs)"
    using assms by (simp add: DownloadImage_def updateAvailable_def)
  ultimately show ?thesis by auto
qed

subsection \<open>The first boot\<close>

text \<open>The fields of the configuration that are set; a nil pointer is \<open>None\<close>.\<close>

record ig_Node =
  nd_Group :: "string option"
  nd_Overwrite :: "bool option"
  nd_Path :: string
  nd_User :: "string option"

record ig_File =
  if_Node :: ig_Node
  if_Source :: "string option"
  if_Mode :: "nat option"

record ig_Directory =
  id_Node :: ig_Node
  id_Mode :: "nat option"

record ig_Link =
  il_Node :: ig_Node
  il_Hard :: "bool option"
  il_Target :: string

record ig_Unit =
  iu_Name :: string
  iu_Enabled :: "bool option"
  iu_Mask :: "bool option"

record ig_PasswdUser =
  pu_Name :: string
  pu_PasswordHash :: "string option"
  pu_SSHAuthorizedKeys :: "string list"
  pu_Groups :: "string list"

record ig_Config =
  ig_Version :: string
  ig_Units :: "ig_Unit list"
  ig_Users :: "ig_PasswdUser list"
  ig_Files :: "ig_File list"
  ig_Directories :: "ig_Directory list"
  ig_Links :: "ig_Link list"

text \<open>\<open>url.PathEscape\<close>\<close>

definition shouldEscape :: "char \<Rightarrow> bool" where
  "shouldEscape c =
     (if is_alnum c \<or> c \<in> set ''-_.~'' then False
      else if c \<in> set ''$&+,/:;=?@'' then c \<in> set ''/;,?''
      else True)"

definition upper_hex :: "nat \<Rightarrow> char" where
  "upper_hex d = (if d < 10 then char_of (48 + d) else char_of (55 + d))"

definition escape_char :: "char \<Rightarrow> string" where
  "escape_char c = (if shouldEscape c then [CHR ''%'', upper_hex (of_char c div 16), upper_hex (of_char c mod 16)] else [c])"

definition PathEscape :: "string \<Rightarrow> string" where
  "PathEscape s = concat (map escape_char s)"

definition encodeData :: "string \<Rightarrow> string" where
  "encodeData data = ''data:,'' @ PathEscape data"

definition test_home :: string where
  "test_home = ''/home/test/.config''"

definition ignition_dir :: "string \<Rightarrow> ig_Directory" where
  "ignition_dir path = \<lparr>id_Node = \<lparr>nd_Group = Some ''test'', nd_Overwrite = None, nd_Path = path, nd_User = Some ''test''\<rparr>,
     id_Mode = Some 484\<rparr>"

definition ignition_file :: "string \<Rightarrow> string \<Rightarrow> string \<Rightarrow> ig_File" where
  "ignition_file owner path content = \<lparr>if_Node = \<lparr>nd_Group = Some owner, nd_Overwrite = Some True, nd_Path = path, nd_User = Some owner\<rparr>,
     if_Source = Some (encodeData content), if_Mode = Some 420\<rparr>"

definition linger :: string where
  "linger = ''[Unit]'' @ [CHR 0x0A] @ ''Description=Activate podman socket'' @ [CHR 0x0A] @ ''Wants=podman.socket'' @ [CHR 0x0A]
     @ ''[Service]'' @ [CHR 0x0A] @ ''ExecStart=/usr/bin/sleep infinity'' @ [CHR 0x0A]"

definition ignition_config :: "string \<Rightarrow> string \<Rightarrow> string \<Rightarrow> ig_Config" where
  "ignition_config publicKey user password =
     \<lparr>ig_Version = ''3.2.0'',
      ig_Units = [\<lparr>iu_Name = ''systemd-resolved.service'', iu_Enabled = Some False, iu_Mask = Some True\<rparr>,
        \<lparr>iu_Name = ''podman.socket'', iu_Enabled = Some True, iu_Mask = None\<rparr>],
      ig_Users = [\<lparr>pu_Name = user, pu_PasswordHash = Some password, pu_SSHAuthorizedKeys = [publicKey], pu_Groups = [''wheel'', ''sudo'']\<rparr>,
        \<lparr>pu_Name = ''root'', pu_PasswordHash = Some password, pu_SSHAuthorizedKeys = [publicKey], pu_Groups = []\<rparr>],
      ig_Files = [ignition_file ''root'' ''/etc/resolv.conf'' '''',
        ignition_file ''test'' (test_home @ ''/systemd/user/linger-podman.service'') linger,
        ignition_file ''test'' ''/var/lib/systemd/linger/test'' ''''],
      ig_Directories = map ignition_dir [test_home, test_home @ ''/containers'', test_home @ ''/systemd'',
        test_home @ ''/systemd/user'', test_home @ ''/systemd/user/default.target.wants''],
      ig_Links = [\<lparr>il_Node = \<lparr>nd_Group = Some ''test'', nd_Overwrite = None,
          nd_Path = test_home @ ''/systemd/user/default.target.wants/linger-podman.service'', nd_User = Some ''test''\<rparr>,
        il_Hard = Some False, il_Target = test_home @ ''/systemd/user/linger-podman.service''\<rparr>]\<rparr>"

text \<open>\<open>marshal\<close> is the JSON encoder and \<open>write\<close> what writing the file returns.\<close>

definition CreateIgnition ::
  "(ig_Config \<Rightarrow> bytes result) \<Rightarrow> (string \<Rightarrow> gerror option) \<Rightarrow> string \<Rightarrow> string \<Rightarrow> string \<Rightarrow> string \<Rightarrow> files \<Rightarrow> gerror option \<times> files" where
  "CreateIgnition marshal write ignitionFile publicKey user password fs =
     (case marshal (ignition_config publicKey user password) of
        Inl err \<Rightarrow> (Some err, fs)
      | Inr contents \<Rightarrow>
          (case write ignitionFile of
             Some err \<Rightarrow> (Some err, fs)
           | None \<Rightarrow> (None, fs(ignitionFile \<mapsto> contents))))"

lemma hex_val_upper_hex: "d < 16 \<Longrightarrow> hex_val (upper_hex d) = Some d"
  by (auto simp: hex_val_def upper_hex_def Let_def)

text \<open>The contents of the files survive the encoding.\<close>

lemma unescape_PathEscape: "unescape encodePath (PathEscape s) = Inr s"
proof (induction s)
  case (Cons c s)
  have h: "hex_val (upper_hex (of_char c div 16)) = Some (of_char c div 16)" "hex_val (upper_hex (of_char c mod 16)) = Some (of_char c mod 16)"
    by (rule hex_val_upper_hex, use nat_of_char_less_256 [of c] in linarith)+
  have p: "\<not> shouldEscape c \<Longrightarrow> c \<noteq> CHR ''%''"
    by (auto simp: shouldEscape_def is_alnum_def is_upper_def is_lower_def is_digit_def digit_val_def)
  have "unescape encodePath (escape_char c @ PathEscape s) = Inr (c # s)"
    using Cons.IH h p by (auto simp: escape_char_def)
  then show ?case by (simp add: PathEscape_def)
qed (simp add: PathEscape_def)

text \<open>
  The link points to a file that is written, and every path below the home directory has its
  parents in the list of directories, in front of it.
\<close>

lemma ignition_paths:
  "il_Target (hd (ig_Links (ignition_config k u p))) \<in> (nd_Path \<circ> if_Node) ` set (ig_Files (ignition_config k u p))"
  "list_all (\<lambda>n. path_Dir n \<in> (nd_Path \<circ> id_Node) ` set (ig_Directories (ignition_config k u p)))
     (map (nd_Path \<circ> il_Node) (ig_Links (ignition_config k u p)) @ [test_home @ ''/systemd/user/linger-podman.service''])"
  "list_all (\<lambda>i. path_Dir (map (nd_Path \<circ> id_Node) (ig_Directories (ignition_config k u p)) ! i)
     \<in> set (take i (map (nd_Path \<circ> id_Node) (ig_Directories (ignition_config k u p))))) [1..<5]"
proof -
  have d: "path_Dir (test_home @ ''/containers'') = test_home" "path_Dir (test_home @ ''/systemd'') = test_home"
    "path_Dir (test_home @ ''/systemd/user'') = test_home @ ''/systemd''"
    "path_Dir (test_home @ ''/systemd/user/default.target.wants'') = test_home @ ''/systemd/user''"
    "path_Dir (test_home @ ''/systemd/user/linger-podman.service'') = test_home @ ''/systemd/user''"
    "path_Dir (test_home @ ''/systemd/user/default.target.wants/linger-podman.service'') = test_home @ ''/systemd/user/default.target.wants''"
    by code_simp+
  show "il_Target (hd (ig_Links (ignition_config k u p))) \<in> (nd_Path \<circ> if_Node) ` set (ig_Files (ignition_config k u p))"
    by (simp add: ignition_config_def ignition_file_def)
  show "list_all (\<lambda>n. path_Dir n \<in> (nd_Path \<circ> id_Node) ` set (ig_Directories (ignition_config k u p)))
     (map (nd_Path \<circ> il_Node) (ig_Links (ignition_config k u p)) @ [test_home @ ''/systemd/user/linger-podman.service''])"
    by (simp add: ignition_config_def ignition_dir_def d)
  have "map (nd_Path \<circ> id_Node) (ig_Directories (ignition_config k u p)) = [test_home, test_home @ ''/containers'', test_home @ ''/systemd'',
        test_home @ ''/systemd/user'', test_home @ ''/systemd/user/default.target.wants'']"
    by (simp add: ignition_config_def ignition_dir_def)
  moreover have "[1..<5] = [1, 2, 3, 4 :: nat]" by (simp add: upt_rec)
  ultimately show "list_all (\<lambda>i. path_Dir (map (nd_Path \<circ> id_Node) (ig_Directories (ignition_config k u p)) ! i)
     \<in> set (take i (map (nd_Path \<circ> id_Node) (ig_Directories (ignition_config k u p))))) [1..<5]"
    by (simp only:) (simp add: d)
qed

text \<open>The owners are fixed, so the user that is created has to be the one they name.\<close>

lemma ignition_owners:
  "list_all (\<lambda>n. nd_User n \<in> Some ` pu_Name ` set (ig_Users (ignition_config k u p))) (map if_Node (ig_Files (ignition_config k u p)))
     \<longleftrightarrow> u = ''test''"
  by (auto simp: ignition_config_def ignition_file_def)

end
