(* ===== verification/Spec2Isabelle.thy ===== *)
theory Spec2Isabelle
  imports Link VmForwarder Client UdpFlow Runtime Lifecycle WinProxy Tools TestSupport
begin

text \<open>
  \<^bold>\<open>gvisor-tap-vsock.\<close> The repository connects virtual machines to a network that lives in a process
  of the host. A hypervisor, or a forwarder inside the virtual machine, sends Ethernet frames over
  a socket; a switch learns where hardware addresses are and moves frames between the sockets and
  a gateway; the gateway is a network stack in user space (gVisor) with a DHCP server, a DNS server
  and forwarders that turn connections of the virtual machine into connections of the host, and
  back. An HTTP interface controls the network.

  \<^bold>\<open>How the code is modelled.\<close> Every theory translates one package or command, in the order of the
  code. Structs are records with the fields of the source, enumerations are datatypes, bytes are
  8-bit words, and integers of a fixed width are words where they can wrap. Functions that mutate a
  struct return the new one. A Go error is its message, a fallible function returns a sum
  (\<open>result\<close>), and a function that can panic returns \<open>exec\<close>, which is \<open>Panic\<close> or \<open>Ret\<close> of a value.
  Go maps are partial functions; a loop over a map takes the order in which the entries are
  visited as an argument, and theorems hold for every such order (\<open>enumerates\<close>). What the operating
  system, gVisor or an SSH server answers is a record of functions (\<open>net_env\<close>, \<open>ports_env\<close>,
  \<open>stack_env\<close>, \<open>ssh_env\<close>, and others), so a theorem holds for all their answers unless it says
  otherwise. Goroutines are step relations over configurations (switch, UDP proxy, idle flows, the
  running network, the members of a group) or recorded events. No definition uses fuel: loops over
  input end with the input, retry loops with their counter, names in DNS messages with the bound on
  compression pointers, and the write loop of the UDP proxy, which may run for ever, is a partial
  function.

  \<^bold>\<open>The standard library.\<close> \<open>Prelude\<close> has results, panics, maps and shared lemmas; \<open>GoStrings\<close> the
  packages \<open>strings\<close> and \<open>strconv\<close>; \<open>GoNet\<close> byte orders, addresses, hardware addresses and networks;
  \<open>GoURL\<close> the parser of URLs; \<open>GoHttp\<close> the selection of HTTP handlers; \<open>GoFlag\<close> the parser of command
  lines. Their lemmas are round trips between printing and parsing.

  \<^bold>\<open>Frames.\<close> \<open>Ethernet\<close> (vendored \<open>tcpip/header\<close>) has the accessors of frames with the slices Go
  would take, out of range included. \<open>Protocols\<close> (\<open>pkg/tap/protocols.go\<close>) has the four link
  protocols; the locale \<open>frame_codec\<close> is the contract of a size header, from which framing round
  trips follow, and both stream protocols are interpretations of it. \<open>Switch\<close>
  (\<open>pkg/tap/switch.go\<close>) has connections, the table of addresses and both directions of traffic:
  what is delivered where, that complete frames cannot make it panic, which resources are left in
  any interleaving of the goroutines, and the interleaving in which it does panic. \<open>Link\<close>
  (\<open>pkg/tap/link.go\<close>) has the endpoint of the gateway and its filter for ARP. \<open>Vpnkit\<close>
  (\<open>pkg/virtualnetwork/vpnkit.go\<close>) has the handshake of HyperKit. \<open>VmForwarder\<close>
  (\<open>cmd/vm/main_linux.go\<close>) has the forwarder in the virtual machine, and the theorems that its loops
  and those of the switch transport frames unchanged.

  \<^bold>\<open>Addresses and names.\<close> \<open>Cidr\<close> (vendored \<open>go-cidr\<close>) numbers the hosts of a network. \<open>IPPool\<close>
  (\<open>pkg/tap/ip_pool.go\<close>) assigns addresses: the locales \<open>lease_store\<close> and \<open>exclusive_store\<close> are the
  contract of an assignment, from which it follows that no address is given to two clients and
  that a client keeps its address; the pool is an interpretation of both. \<open>DhcpCodec\<close> and \<open>Dhcp\<close>
  (\<open>pkg/services/dhcp\<close> and the vendored codec) carry that to the bytes of DHCP messages. \<open>Dns\<close>
  (\<open>pkg/services/dns\<close>) answers questions from zones and from the resolver of the host, and cuts
  answers to size. \<open>DnsServer\<close> (\<open>Serve\<close> and \<open>ServeTCP\<close> of the same package on the vendored \<open>miekg/dns\<close>)
  is the way of a message to these answers: the header, names and questions on the wire, the checks
  of the server and its multiplexer. Queries are answered from bytes to records, and replies are
  never answered.

  \<^bold>\<open>Connections.\<close> \<open>Forwarder\<close> (\<open>tcp.go\<close>, \<open>udp.go\<close> of \<open>pkg/services/forwarder\<close>) decides what is dialled
  for a connection of the virtual machine. \<open>UdpProxy\<close> (\<open>udp_proxy.go\<close>) tracks the clients of a
  forwarded UDP port. \<open>UdpFlow\<close> (the listener of \<open>udp_proxy.go\<close> that stops, and \<open>udp.go\<close>) adds a clock:
  when a flow is given up, and what happens to its later datagrams. \<open>Ports\<close> (\<open>ports.go\<close> and the vendored \<open>tcpproxy\<close>) exposes and unexposes ports:
  what every branch does, that unexposing undoes exposing, that no listener is left behind, and
  the way in which one is. \<open>Transport\<close> (\<open>pkg/transport\<close>, \<open>pkg/net/stdio\<close>) opens endpoints given as URLs
  on each platform. \<open>Ssh\<close> (\<open>pkg/sshclient\<close>) reaches sockets of the virtual machine through an SSH
  server, with bounded retries.

  \<^bold>\<open>Programs.\<close> \<open>Types\<close> (\<open>pkg/types\<close>) has the configuration and the builder of the command line of
  \<open>gvproxy\<close>. \<open>VirtualNetwork\<close> (\<open>pkg/virtualnetwork\<close>) brings the network up and serves the HTTP interface:
  the network that a configuration describes comes up, reserved addresses stay reserved, and which
  request changes what. \<open>Client\<close> (\<open>pkg/client\<close>, \<open>tunnel.go\<close>) is the client of that interface, put
  together with the server. \<open>Runtime\<close> lets the components of a network run together, in any order of
  the operations of virtual machines, DHCP clients, HTTP clients and proxies: their states keep
  their form, and what DHCP clients were told is what the HTTP interface lists. \<open>Gvproxy\<close> (\<open>cmd/gvproxy\<close>) is the command: the command line that is built is
  the one that is read (the locale \<open>flag_command\<close> is the contract, with an interpretation for each
  command), every accepted command line gives a working network, and virtual machines can only ask
  for ports. \<open>Commands\<close> has \<open>win-sshproxy\<close> and \<open>ssh-over-vsock\<close>. \<open>Errgroup\<close> (vendored
  \<open>golang.org/x/sync/errgroup\<close>) has groups of goroutines and their interleavings; its locale \<open>shutdown\<close>
  is the contract of a program that ends when its context is cancelled. \<open>Lifecycle\<close> (\<open>main\<close> and \<open>run\<close> of
  \<open>cmd/gvproxy\<close>) and \<open>WinProxy\<close> (\<open>cmd/win-sshproxy\<close>) describe the goroutines of the two programs and
  interpret it: which error ends them, that they end after a signal when nobody waits for a peer,
  and the loop that keeps \<open>gvproxy\<close> from ending. \<open>Tools\<close> has \<open>cmd/test-companion\<close>,
  \<open>cmd/qemu-wrapper\<close> and the mock SSH server of the tests, and \<open>TestSupport\<close> (\<open>src/test\<close>) the image and the
  first boot of their virtual machine. This theory has the property that spans all of them.

  \<^bold>\<open>What is not modelled.\<close> The packet processing of gVisor and the SSH protocol, whose code decides
  nothing here beyond what the environments say; the layouts of DNS resource records and packing
  (the decoder of a record and the length of a message are parameters); the JSON encoding (a
  parameter with round trips); time, except for idle UDP flows (elsewhere a deadline is a read that
  fails); copying between two connections (one step); log messages and debug dumps, which nothing
  reads; and message boxes of Windows. Quoted strings in messages are not
  escaped.
\<close>

section \<open>The programs together\<close>

lemma gv_zones:
  "find_zone (cfg_DNS (gv_config M f)) ''host.containers.internal.'' =
     Some \<lparr>zone_Name = ''containers.internal.'', zone_Records = gv_records, zone_DefaultIP = []\<rparr>"
  by (simp add: gv_config_def find_zone_def zoneSuffix_def HasSuffix_def)

lemma gv_host_record:
  "zone_lookup \<lparr>zone_Name = ''containers.internal.'', zone_Records = gv_records, zone_DefaultIP = []\<rparr> ''host.containers.internal.''
     = Some (ParseIP hostIP)"
  by (simp add: zone_lookup_def zoneSuffix_def TrimSuffix_def HasSuffix_def record_matches_def gv_records_def)

lemma hostIP_dotted: "hostIP = dotted [192, 168, 127, 254]" "To4 (ParseIP hostIP) = [192, 168, 127, 254]"
proof -
  show h: "hostIP = dotted [192, 168, 127, 254]" by code_simp
  show "To4 (ParseIP hostIP) = [192, 168, 127, 254]" unfolding h by (simp add: ParseIP_dotted)
qed

lemma gv_nat: "nat_map (cfg_NAT (gv_config M f)) [192, 168, 127, 254] = Some [127, 0, 0, 1]"
proof -
  have "''127.0.0.1'' = dotted [127, 0, 0, 1]" by code_simp
  then have "To4 (ParseIP ''127.0.0.1'') = [127, 0, 0, 1]" by (simp add: ParseIP_dotted)
  then show ?thesis by (simp add: nat_map_def gv_config_def hostIP_dotted(1))
qed

text \<open>
  C1. The programs find each other with their defaults. In the network of every accepted command
  line: a virtual machine that asks for \<open>host.containers.internal\<close> is told an address; the gateway
  answers ARP requests for that address; a connection the virtual machine opens to it is dialled
  to the same port of the host's own loopback address. The hardware address the forwarder in the
  virtual machine uses by default is the one for which the address \<open>192.168.127.2\<close> is reserved,
  and the SSH port of that address is what the host's loopback port leads to.
\<close>

theorem host_and_guest_meet:
  assumes "gv_main M pid args = GvRun f cfg" "env_quiet E" "orders_ok R cfg"
    and "env_listen (env_ports E) Map.empty ''tcp'' (''127.0.0.1:'' @ Itoa (gv_sshPort f)) = None"
    and "vn_New E R cfg = Ret (Inr vn)"
    and "msg_Question r = \<lparr>q_Name = ''host.containers.internal.'', Qtype = TypeA, Qclass = ClassINET\<rparr> # qs"
  shows "\<exists>a nats ep. Answer (dns_reply RS (sv_zones (vn_services vn)) r) = [mk_rr ''host.containers.internal.'' TypeA (rA (v4InV6Prefix @ a))]
    \<and> ns_nics (vn_stack vn) 1 = Some ep \<and> own_address ep a
    \<and> ns_tcp (vn_stack vn) = Some nats \<and> dialled (TCP_forward nats dial None a port) = {''127.0.0.1:'' @ itoa_nat (unat port)}
    \<and> leases (vn_ipPool vn) ''192.168.127.2'' = Some (vm_mac vm_defaults)
    \<and> sockets (sv_ports (vn_services vn)) = [0 \<mapsto> (''tcp'', ''127.0.0.1:'' @ Itoa (gv_sshPort f),
        DialTCP \<lparr>fa_NIC = 1, fa_Addr = [192, 168, 127, 2], fa_Port = 22\<rparr>)]"
proof -
  let ?a = "[192, 168, 127, 254] :: bytes"
  note cfg = gv_main_run(1) [OF assms(1)]
  have vn: "vn = network_spec cfg [192, 168, 127, 0] 24 [192, 168, 127, 1] gateway_mac (ssh_forward (gv_sshPort f))"
    using gv_network_up_eq [OF assms(1-4)] assms(5) by simp
  have "ParseIP hostIP = v4InV6Prefix @ ?a" by (simp add: hostIP_dotted(1) ParseIP_dotted)
  then have "Answer (dns_reply RS (cfg_DNS cfg) r) = [mk_rr ''host.containers.internal.'' TypeA (rA (v4InV6Prefix @ ?a))]"
    using dns_reply_zone [OF assms(6), of "cfg_DNS cfg"] gv_zones [of M f] gv_host_record
    by (simp add: cfg zone_answer_A)
  moreover have "dialled (TCP_forward (nat_map (cfg_NAT cfg)) dial None ?a port) = {''127.0.0.1:'' @ itoa_nat (unat port)}"
  proof -
    have "dotted [127, 0, 0, 1] = ''127.0.0.1''" by code_simp
    then show ?thesis
      by (auto simp: dialled_def TCP_forward_def Let_def linkLocal_Contains cfg gv_nat translate_def dial_string_def Address_String_def
          split: option.splits)
  qed
  moreover have "hostIP \<in> set (cfg_GatewayVirtualIPs cfg)" "cfg_DHCPStaticLeases cfg ''192.168.127.2'' = Some (vm_mac vm_defaults)"
    by (simp_all add: cfg gv_config_def vm_defaults_def)
  moreover obtain ep where "ns_nics (vn_stack vn) 1 = Some ep" "virtualIPs ep = set (cfg_GatewayVirtualIPs cfg)"
    by (simp add: vn network_spec_def)
  moreover have "sv_zones (vn_services vn) = cfg_DNS cfg" "ns_tcp (vn_stack vn) = Some (nat_map (cfg_NAT cfg))"
    "leases (vn_ipPool vn) = [dotted [192, 168, 127, 1] \<mapsto> cfg_GatewayMacAddress cfg] ++ cfg_DHCPStaticLeases cfg"
    "sockets (sv_ports (vn_services vn)) = [0 \<mapsto> (''tcp'', ''127.0.0.1:'' @ Itoa (gv_sshPort f),
        DialTCP \<lparr>fa_NIC = 1, fa_Addr = [192, 168, 127, 2], fa_Port = 22\<rparr>)]"
    by (simp_all add: vn network_spec_def ssh_forward_def ssh_target_def Let_def)
  moreover from calculation have "own_address ep ?a" "leases (vn_ipPool vn) ''192.168.127.2'' = Some (vm_mac vm_defaults)"
    by (simp_all add: own_address_def hostIP_dotted(1))
  ultimately show ?thesis by metis
qed

theorem host_and_guest_meet_witness:
  "\<exists>vn a. vn_New quiet_stack (gv_orders gv_defaults) (gv_config quiet_main gv_defaults) = Ret (Inr vn)
    \<and> Answer (dns_reply no_resolver (sv_zones (vn_services vn))
        (new_Msg\<lparr>msg_Question := [\<lparr>q_Name = ''host.containers.internal.'', Qtype = TypeA, Qclass = ClassINET\<rparr>]\<rparr>))
      = [mk_rr ''host.containers.internal.'' TypeA (rA (v4InV6Prefix @ a))]
    \<and> leases (vn_ipPool vn) ''192.168.127.2'' = Some ''5a:94:ef:e4:0c:ee''"
proof -
  have l: "env_listen (env_ports quiet_stack) Map.empty ''tcp'' (''127.0.0.1:'' @ Itoa (gv_sshPort gv_defaults)) = None"
    by (simp add: quiet_stack_def free_ports_def)
  note vn = gv_network_up_eq [OF sample_main sample_env(1) gv_orders_ok l]
  have q: "msg_Question (new_Msg\<lparr>msg_Question := [\<lparr>q_Name = ''host.containers.internal.'', Qtype = TypeA, Qclass = ClassINET\<rparr>]\<rparr>) =
    [\<lparr>q_Name = ''host.containers.internal.'', Qtype = TypeA, Qclass = ClassINET\<rparr>]" by simp
  have mac: "vm_mac vm_defaults = ''5a:94:ef:e4:0c:ee''" by (simp add: vm_defaults_def)
  show ?thesis
    using host_and_guest_meet [OF sample_main sample_env(1) gv_orders_ok l vn q, of no_resolver] vn unfolding mac by blast
qed

end
